(* ===== verification/Prelude.thy ===== *)
theory Prelude
  imports Main "HOL-Library.Word" "HOL-Library.AList" "HOL-Library.Char_ord"
    "HOL-Library.List_Lexorder"
begin

text \<open>
  Shared vocabulary of the development: Go's machine integers, strings and byte
  slices (both sequences of 8-bit values, so both are \<^typ>\<open>string\<close> here), the parts of
  the packages \<open>strings\<close> and \<open>strconv\<close> the program calls, the regular expressions it
  matches with, and maps as association lists (the order of the list is Go's
  unspecified iteration order).
\<close>

named_theorems go_eval \<open>defining equations that evaluate a component on concrete input\<close>
named_theorems char_defs \<open>character classes\<close>

type_synonym bytes = string
type_synonym u32 = "32 word"
type_synonym u64 = "64 word"
type_synonym ('k, 'v) gomap = "('k \<times> 'v) list"

subsection \<open>Signed 64-bit arithmetic\<close>

text \<open>An \<open>int64\<close> is an \<^typ>\<open>int\<close>; the operations that can overflow wrap explicitly.\<close>

definition wrap64 :: "int \<Rightarrow> int" where
  "wrap64 x = (x + 2 ^ 63) mod 2 ^ 64 - 2 ^ 63"

definition in_int64 :: "int \<Rightarrow> bool" where
  "in_int64 x \<longleftrightarrow> - (2 ^ 63) \<le> x \<and> x < 2 ^ 63"

lemma wrap64_exact: "in_int64 x \<Longrightarrow> wrap64 x = x"
  by (simp add: wrap64_def in_int64_def)

lemma wrap64_in_int64: "in_int64 (wrap64 x)"
proof -
  have "0 \<le> (x + 2 ^ 63) mod 2 ^ 64" "(x + 2 ^ 63) mod 2 ^ 64 < (2 :: int) ^ 64"
    by simp_all
  then show ?thesis by (simp add: wrap64_def in_int64_def)
qed

subsection \<open>Characters and the package strings\<close>

abbreviation cp :: "char \<Rightarrow> nat" where
  "cp c \<equiv> of_char c"

definition is_lower :: "char \<Rightarrow> bool" where
  [char_defs]: "is_lower c \<longleftrightarrow> 97 \<le> cp c \<and> cp c \<le> 122"

definition is_upper :: "char \<Rightarrow> bool" where
  [char_defs]: "is_upper c \<longleftrightarrow> 65 \<le> cp c \<and> cp c \<le> 90"

definition is_digit :: "char \<Rightarrow> bool" where
  [char_defs]: "is_digit c \<longleftrightarrow> 48 \<le> cp c \<and> cp c \<le> 57"

definition is_space :: "char \<Rightarrow> bool" where
  [char_defs]: "is_space c \<longleftrightarrow> cp c = 32 \<or> (9 \<le> cp c \<and> cp c \<le> 13)"

definition has_prefix :: "string \<Rightarrow> string \<Rightarrow> bool" where
  "has_prefix p s \<longleftrightarrow> take (length p) s = p"

definition has_suffix :: "string \<Rightarrow> string \<Rightarrow> bool" where
  "has_suffix p s \<longleftrightarrow> length p \<le> length s \<and> drop (length s - length p) s = p"

fun contains :: "string \<Rightarrow> string \<Rightarrow> bool" where
  "contains p [] \<longleftrightarrow> p = []"
| "contains p (c # s) \<longleftrightarrow> has_prefix p (c # s) \<or> contains p s"

definition cut :: "char \<Rightarrow> string \<Rightarrow> (string \<times> string) option" where
  "cut c s = (case dropWhile (\<lambda>x. x \<noteq> c) s of
      [] \<Rightarrow> None
    | _ # rest \<Rightarrow> Some (takeWhile (\<lambda>x. x \<noteq> c) s, rest))"

fun split_on :: "char \<Rightarrow> string \<Rightarrow> string list" where
  "split_on c [] = [[]]"
| "split_on c (x # s) =
     (if x = c then [] # split_on c s
      else case split_on c s of [] \<Rightarrow> [[x]] | p # ps \<Rightarrow> (x # p) # ps)"

definition lower_char :: "char \<Rightarrow> char" where
  "lower_char c = (if is_upper c then char_of (cp c + 32) else c)"

definition to_lower :: "string \<Rightarrow> string" where
  "to_lower s = map lower_char s"

text \<open>\<open>TrimSpace\<close>: the width of the white-space character (ASCII or Unicode, in UTF-8) at
  the head of a string, 0 if there is none, and the same at the end of a string, on its
  reversal.\<close>

definition space_width :: "string \<Rightarrow> nat" where
  "space_width s =
     (if s = [] then 0
      else if is_space (hd s) then 1
      else if take 2 s \<in> {[CHR 0xC2, CHR 0x85], [CHR 0xC2, CHR 0xA0]} then 2
      else if take 3 s \<in> {[CHR 0xE1, CHR 0x9A, CHR 0x80], [CHR 0xE2, CHR 0x80, CHR 0xA8],
             [CHR 0xE2, CHR 0x80, CHR 0xA9], [CHR 0xE2, CHR 0x80, CHR 0xAF],
             [CHR 0xE2, CHR 0x81, CHR 0x9F], [CHR 0xE3, CHR 0x80, CHR 0x80]}
           \<or> (length s \<ge> 3 \<and> take 2 s = [CHR 0xE2, CHR 0x80] \<and> 128 \<le> cp (s ! 2) \<and> cp (s ! 2) \<le> 138)
        then 3 else 0)"

function trim_left :: "string \<Rightarrow> string" where
  "trim_left s = (if space_width s = 0 then s else trim_left (drop (space_width s) s))"
  by pat_completeness auto
termination
  by (relation "measure length") (auto simp: space_width_def split: if_splits)

function trim_right_rev :: "string \<Rightarrow> string" where
  "trim_right_rev r =
     (if r \<noteq> [] \<and> is_space (hd r) then trim_right_rev (drop 1 r)
      else if 2 \<le> length r \<and> space_width (rev (take 2 r)) = 2 then trim_right_rev (drop 2 r)
      else if 3 \<le> length r \<and> space_width (rev (take 3 r)) = 3 then trim_right_rev (drop 3 r)
      else r)"
  by pat_completeness auto
termination
  by (relation "measure length") auto

declare trim_left.simps [simp del] trim_right_rev.simps [simp del]

definition trim_space :: "string \<Rightarrow> string" where
  "trim_space s = rev (trim_right_rev (rev (trim_left s)))"

definition trim_suffix :: "string \<Rightarrow> string \<Rightarrow> string" where
  "trim_suffix p s = (if has_suffix p s then take (length s - length p) s else s)"

fun join :: "string \<Rightarrow> string list \<Rightarrow> string" where
  "join sep [] = []"
| "join sep [x] = x"
| "join sep (x # y # zs) = x @ sep @ join sep (y # zs)"

text \<open>\<open>strings.Fields\<close>, with the bytes of the current field in reverse.\<close>

function fields_aux :: "string \<Rightarrow> string \<Rightarrow> string list" where
  "fields_aux acc s =
     (if s = [] then (if acc = [] then [] else [rev acc])
      else if space_width s = 0 then fields_aux (hd s # acc) (tl s)
      else if acc = [] then fields_aux [] (drop (space_width s) s)
      else rev acc # fields_aux [] (drop (space_width s) s))"
  by pat_completeness auto
termination
  by (relation "measure (length o snd)") (auto simp: space_width_def split: if_splits)

declare fields_aux.simps [simp del]

definition fields :: "string \<Rightarrow> string list" where
  "fields s = fields_aux [] s"

lemma has_prefix_append [simp]: "has_prefix p (p @ s)"
  by (simp add: has_prefix_def)

lemma has_prefix_iff: "has_prefix p s \<longleftrightarrow> (\<exists>r. s = p @ r)"
  by (metis append_take_drop_id has_prefix_append has_prefix_def)

lemma has_suffix_append [simp]: "has_suffix p (s @ p)"
  by (simp add: has_suffix_def)

lemma has_suffix_iff: "has_suffix p s \<longleftrightarrow> (\<exists>r. s = r @ p)"
  by (metis append_take_drop_id has_suffix_append has_suffix_def)

lemma contains_iff: "contains p s \<longleftrightarrow> (\<exists>l r. s = l @ p @ r)"
proof (induction s)
  case Nil
  then show ?case by simp
next
  case (Cons c s)
  note IH = Cons.IH
  show ?case
  proof
    assume "contains p (c # s)"
    then consider "has_prefix p (c # s)" | "contains p s" by auto
    then show "\<exists>l r. c # s = l @ p @ r"
    proof cases
      case 1
      then show ?thesis by (metis append_Nil has_prefix_iff)
    next
      case 2
      with Cons.IH show ?thesis by (metis append_Cons)
    qed
  next
    assume "\<exists>l r. c # s = l @ p @ r"
    then obtain l r where lr: "c # s = l @ p @ r" by blast
    show "contains p (c # s)"
    proof (cases l)
      case Nil
      with lr have "has_prefix p (c # s)" by (metis append_Nil has_prefix_iff)
      then show ?thesis by simp
    next
      case (Cons x l')
      with lr have "s = l' @ p @ r" by simp
      then have "contains p s" using IH by blast
      then show ?thesis by simp
    qed
  qed
qed

lemma cut_Some: "cut c s = Some (a, b) \<longleftrightarrow> s = a @ c # b \<and> c \<notin> set a"
proof
  assume h: "cut c s = Some (a, b)"
  then obtain x where d: "dropWhile (\<lambda>x. x \<noteq> c) s = x # b"
    and a: "a = takeWhile (\<lambda>x. x \<noteq> c) s"
    by (auto simp: cut_def split: list.splits)
  have "x = c" using d by (metis (mono_tags, lifting) dropWhile_eq_Cons_conv)
  then show "s = a @ c # b \<and> c \<notin> set a"
    using a d takeWhile_dropWhile_id [of "\<lambda>x. x \<noteq> c" s] by (auto dest: set_takeWhileD)
next
  assume "s = a @ c # b \<and> c \<notin> set a"
  then have s: "s = a @ c # b" and n: "\<forall>x\<in>set a. x \<noteq> c" by auto
  then have "dropWhile (\<lambda>x. x \<noteq> c) s = c # b" "takeWhile (\<lambda>x. x \<noteq> c) s = a"
    by (simp_all add: dropWhile_append takeWhile_append)
  then show "cut c s = Some (a, b)" by (simp add: cut_def)
qed

lemma cut_None: "cut c s = None \<longleftrightarrow> c \<notin> set s"
proof (cases "dropWhile (\<lambda>x. x \<noteq> c) s")
  case Nil
  then have "c \<notin> set s" by (auto simp: dropWhile_eq_Nil_conv)
  moreover have "cut c s = None" by (simp only: cut_def Nil list.case)
  ultimately show ?thesis by simp
next
  case (Cons y ys)
  then have "y = c" "y \<in> set s"
    by (metis (mono_tags, lifting) dropWhile_eq_Cons_conv, metis list.set_intros(1) set_dropWhileD)
  with Cons show ?thesis by (auto simp: cut_def)
qed

lemma split_on_nonempty [simp]: "split_on c s \<noteq> []"
  by (induction s) (auto split: list.splits)

lemma split_on_plain: "c \<notin> set s \<Longrightarrow> split_on c s = [s]"
  by (induction s) auto

lemma split_on_append: "c \<notin> set a \<Longrightarrow> split_on c (a @ c # b) = a # split_on c b"
  by (induction a) auto

lemma join_Cons_head: "join sep ((x # p) # ps) = x # join sep (p # ps)"
  by (cases ps) auto

lemma split_on_join: "join [c] (split_on c s) = s"
proof (induction s)
  case Nil
  then show ?case by simp
next
  case (Cons x s)
  then show ?case
    by (auto simp: join_Cons_head split: list.splits)
qed

lemma split_on_no_sep: "p \<in> set (split_on c s) \<Longrightarrow> c \<notin> set p"
  by (induction s arbitrary: p) (auto split: list.splits if_splits)

lemma space_width_ascii: "\<not> is_space c \<Longrightarrow> cp c < 128 \<Longrightarrow> space_width (c # t) = 0"
proof -
  assume n: "\<not> is_space c" and "cp c < 128"
  then have "c \<noteq> CHR 0xC2" "c \<noteq> CHR 0xE1" "c \<noteq> CHR 0xE2" "c \<noteq> CHR 0xE3" by auto
  with n show ?thesis unfolding space_width_def by (simp add: take_Cons split: nat.splits)
qed

lemma trim_space_id:
  assumes "\<forall>c\<in>set s. \<not> is_space c \<and> cp c < 128"
  shows "trim_space s = s"
proof -
  have w: "space_width t = 0" if "set t \<subseteq> set s" for t
  proof (cases t)
    case Nil
    then show ?thesis by (simp add: space_width_def)
  next
    case (Cons c u)
    with that assms show ?thesis by (simp add: space_width_ascii)
  qed
  have "trim_left s = s" using w [of s] by (subst trim_left.simps) simp
  moreover have "trim_right_rev (rev s) = rev s"
  proof -
    have "space_width (rev (take n (rev s))) = 0" for n
      by (rule w) (metis set_rev set_take_subset)
    moreover have "\<not> (rev s \<noteq> [] \<and> is_space (hd (rev s)))"
      using assms by (metis list.set_sel(1) set_rev)
    ultimately show ?thesis by (subst trim_right_rev.simps) (simp only: if_False zero_neq_numeral simp_thms)
  qed
  ultimately show ?thesis by (simp add: trim_space_def)
qed

subsection \<open>The package strconv: decimal numbers\<close>

definition digit_char :: "nat \<Rightarrow> char" where
  "digit_char d = ''0123456789'' ! d"

function fmt_nat :: "nat \<Rightarrow> string" where
  "fmt_nat n = (if n < 10 then [digit_char n] else fmt_nat (n div 10) @ [digit_char (n mod 10)])"
  by pat_completeness auto
termination
  by (relation "measure id") auto

declare fmt_nat.simps [simp del]

lemma fmt_nat_small [go_eval]: "n < 10 \<Longrightarrow> fmt_nat n = [digit_char n]"
  by (subst fmt_nat.simps) simp

lemma fmt_nat_big [go_eval]:
  "\<not> n < 10 \<Longrightarrow> fmt_nat n = fmt_nat (n div 10) @ [digit_char (n mod 10)]"
  by (subst fmt_nat.simps) simp

definition fmt_int :: "int \<Rightarrow> string" where
  "fmt_int i = (if i < 0 then CHR ''-'' # fmt_nat (nat (- i)) else fmt_nat (nat i))"

text \<open>\<open>strconv.ParseUint(s, 10, bits)\<close>: digits only, at least one, within \<open>bits\<close> bits.\<close>

definition digits_value :: "string \<Rightarrow> nat" where
  "digits_value s = foldl (\<lambda>n c. 10 * n + (cp c - 48)) 0 s"

definition parse_uint :: "nat \<Rightarrow> string \<Rightarrow> nat option" where
  "parse_uint bits s =
     (if s = [] \<or> \<not> list_all is_digit s then None
      else if digits_value s < 2 ^ bits then Some (digits_value s) else None)"

text \<open>\<open>strconv.ParseInt(s, 10, bits)\<close> and \<open>strconv.Atoi\<close>: an optional sign, then digits.\<close>

definition parse_int :: "nat \<Rightarrow> string \<Rightarrow> int option" where
  "parse_int bits s =
     (let (neg, t) = (case s of c # r \<Rightarrow> (if c = CHR ''-'' then (True, r)
                                       else if c = CHR ''+'' then (False, r) else (False, s))
                      | [] \<Rightarrow> (False, s))
      in if t = [] \<or> \<not> list_all is_digit t then None
         else let v = int (digits_value t) in
           if neg then (if v \<le> 2 ^ (bits - 1) then Some (- v) else None)
           else (if v < 2 ^ (bits - 1) then Some v else None))"

lemma cp_digit_char: "d < 10 \<Longrightarrow> cp (digit_char d) = 48 + d"
proof -
  assume "d < 10"
  then have "d \<in> {0, 1, 2, 3, 4, 5, 6, 7, 8, 9}" by auto
  then show ?thesis by (auto simp: digit_char_def)
qed

lemma is_digit_digit_char: "d < 10 \<Longrightarrow> is_digit (digit_char d)"
  by (simp add: cp_digit_char is_digit_def)

lemma digits_value_snoc: "digits_value (s @ [c]) = 10 * digits_value s + (cp c - 48)"
  by (simp add: digits_value_def)

lemma fmt_nat_digits: "list_all is_digit (fmt_nat n) \<and> fmt_nat n \<noteq> []"
proof (induction n rule: fmt_nat.induct)
  case (1 n)
  then show ?case
    by (subst (1 2) fmt_nat.simps) (auto simp: is_digit_digit_char)
qed

lemma digits_value_fmt_nat: "digits_value (fmt_nat n) = n"
proof (induction n rule: fmt_nat.induct)
  case (1 n)
  show ?case
  proof (cases "n < 10")
    case True
    then show ?thesis
      by (subst fmt_nat.simps) (simp add: digits_value_def cp_digit_char)
  next
    case False
    then have "digits_value (fmt_nat n) = 10 * digits_value (fmt_nat (n div 10)) + n mod 10"
      by (subst fmt_nat.simps) (simp add: digits_value_snoc cp_digit_char)
    with "1" False show ?thesis by simp
  qed
qed

lemma parse_uint_fmt_nat: "n < 2 ^ bits \<Longrightarrow> parse_uint bits (fmt_nat n) = Some n"
  by (simp add: parse_uint_def digits_value_fmt_nat fmt_nat_digits)

lemma fmt_nat_inject: "fmt_nat m = fmt_nat n \<longleftrightarrow> m = n"
  by (metis digits_value_fmt_nat)

lemma parse_uint_bound: "parse_uint bits s = Some n \<Longrightarrow> n < 2 ^ bits"
  by (auto simp: parse_uint_def split: if_splits)

lemma fmt_nat_chars: "c \<in> set (fmt_nat n) \<Longrightarrow> is_digit c"
  using fmt_nat_digits by (auto simp: list_all_iff)

subsection \<open>Byte slices\<close>

definition zero_bytes :: "bytes \<Rightarrow> bytes" where
  "zero_bytes b = map (\<lambda>_. char_of (0 :: nat)) b"

definition all_zero :: "bytes \<Rightarrow> bool" where
  "all_zero b \<longleftrightarrow> (\<forall>c\<in>set b. c = char_of (0 :: nat))"

lemma all_zero_zero_bytes [simp]: "all_zero (zero_bytes b)"
  by (auto simp: all_zero_def zero_bytes_def)

lemma length_zero_bytes [simp]: "length (zero_bytes b) = length b"
  by (simp add: zero_bytes_def)

end
