(* ===== verification/Go_Time.thy ===== *)
theory Go_Time
  imports Prelude
begin

text \<open>
  The parts of Go's package \<open>time\<close> the program uses. A \<open>time.Time\<close> (in UTC, its
  monotonic reading stripped, as \<open>now().UTC()\<close> does) is the number of nanoseconds since
  January 1 of year 1, so the zero time is 0; its seconds are an \<open>int64\<close>, and \<open>Add\<close>
  saturates there. A \<open>time.Duration\<close> is an \<open>int64\<close> of nanoseconds; \<open>Sub\<close> saturates.
\<close>

type_synonym gotime = int
type_synonym duration = int

abbreviation (input) millisecond :: duration where "millisecond \<equiv> 1000000"
abbreviation (input) second :: duration where "second \<equiv> 1000000000"
abbreviation (input) minute :: duration where "minute \<equiv> 60000000000"
abbreviation (input) hour :: duration where "hour \<equiv> 3600000000000"

abbreviation (input) zero_time :: gotime where "zero_time \<equiv> 0"
abbreviation (input) unix_to_internal :: int where "unix_to_internal \<equiv> 62135596800"

definition clamp64 :: "int \<Rightarrow> int" where
  "clamp64 x = max (- (2 ^ 63)) (min (2 ^ 63 - 1) x)"

text \<open>\<open>Time.Add\<close>: the nanoseconds carry into the seconds, and the seconds saturate at
  \<open>-(2^63-1)\<close> and \<open>2^63-1\<close>.\<close>

definition time_add :: "gotime \<Rightarrow> duration \<Rightarrow> gotime" where
  "time_add t d =
     (let s = t + d; sec = s div second in
      max (- (2 ^ 63 - 1)) (min (2 ^ 63 - 1) sec) * second + s mod second)"

text \<open>\<open>Time.Sub\<close>, \<open>time.Unix(sec, 0)\<close> and \<open>Time.Unix\<close>.\<close>

definition time_sub :: "gotime \<Rightarrow> gotime \<Rightarrow> duration" where
  "time_sub t u = clamp64 (t - u)"

definition time_unix :: "int \<Rightarrow> gotime" where
  "time_unix s = wrap64 (s + unix_to_internal) * second"

definition unix_of :: "gotime \<Rightarrow> int" where
  "unix_of t = wrap64 (t div second - unix_to_internal)"

text \<open>\<open>time.Duration(n) * time.Second\<close>: the product of two \<open>int64\<close> wraps.\<close>

definition dur_seconds :: "int \<Rightarrow> duration" where
  "dur_seconds n = wrap64 (n * second)"

text \<open>\<open>int64(d / time.Second)\<close>: integer division truncates towards zero.\<close>

definition dur_in_seconds :: "duration \<Rightarrow> int" where
  "dur_in_seconds d = sgn d * (\<bar>d\<bar> div second)"

text \<open>An ordinary clock reading: from year 1 until some 10^11 years later. Adding a
  duration to one never saturates.\<close>

definition clock_ok :: "gotime \<Rightarrow> bool" where
  "clock_ok t \<longleftrightarrow> 0 \<le> t \<and> t < 2 ^ 62 * second"

definition dur_ok :: "duration \<Rightarrow> bool" where
  "dur_ok d \<longleftrightarrow> \<bar>d\<bar> < 2 ^ 63"

lemma time_add_exact:
  assumes "\<bar>t + d\<bar> < (2 ^ 63 - 1) * second"
  shows "time_add t d = t + d"
proof -
  let ?s = "t + d"
  have "- (2 ^ 63 - 1) \<le> ?s div second" "?s div second \<le> 2 ^ 63 - 1"
    using assms by (auto simp: abs_less_iff)
  then have "max (- (2 ^ 63 - 1)) (min (2 ^ 63 - 1) (?s div second)) = ?s div second"
    by linarith
  then show ?thesis by (simp add: time_add_def Let_def)
qed

lemma time_add_clock: "clock_ok t \<Longrightarrow> dur_ok d \<Longrightarrow> time_add t d = t + d"
  by (rule time_add_exact) (auto simp: clock_ok_def dur_ok_def)

lemma time_add_0: "clock_ok t \<Longrightarrow> time_add t 0 = t"
  by (subst time_add_clock) (auto simp: dur_ok_def)

lemma time_sub_ge [simp]:
  "in_int64 d \<Longrightarrow> d \<le> time_sub t u \<longleftrightarrow> d \<le> t - u \<or> d = - (2 ^ 63)"
  by (auto simp: time_sub_def clamp64_def in_int64_def)

lemma time_sub_ge_iff: "- (2 ^ 63) < d \<Longrightarrow> d < 2 ^ 63 \<Longrightarrow> d \<le> time_sub t u \<longleftrightarrow> d \<le> t - u"
  by (auto simp: time_sub_def clamp64_def)

lemma time_sub_le_iff: "- (2 ^ 63) \<le> d \<Longrightarrow> d < 2 ^ 63 - 1 \<Longrightarrow> time_sub t u \<le> d \<longleftrightarrow> t - u \<le> d"
  by (auto simp: time_sub_def clamp64_def)

lemma time_sub_less_iff: "- (2 ^ 63) < d \<Longrightarrow> d < 2 ^ 63 \<Longrightarrow> time_sub t u < d \<longleftrightarrow> t - u < d"
  by (auto simp: time_sub_def clamp64_def)

lemma dur_seconds_exact: "\<bar>n\<bar> \<le> 9000000000 \<Longrightarrow> dur_seconds n = n * second"
  unfolding dur_seconds_def by (rule wrap64_exact) (auto simp: in_int64_def)

lemma dur_in_seconds_mult: "dur_in_seconds (n * second) = n"
  by (auto simp: dur_in_seconds_def abs_mult sgn_if)

lemma time_unix_exact: "0 \<le> s \<Longrightarrow> s < 2 ^ 62 \<Longrightarrow> time_unix s = (s + unix_to_internal) * second"
  by (simp add: time_unix_def wrap64_exact in_int64_def)

lemma unix_of_exact:
  assumes "clock_ok t"
  shows "unix_of t = t div second - unix_to_internal"
proof -
  from assms have "0 \<le> t div second" "t div second < 2 ^ 62"
    by (auto simp: clock_ok_def pos_imp_zdiv_nonneg_iff div_less_iff_less_mult)
  then show ?thesis by (simp add: unix_of_def wrap64_exact in_int64_def)
qed

lemma unix_of_time_unix:
  "in_int64 (s + unix_to_internal) \<Longrightarrow> in_int64 s \<Longrightarrow> unix_of (time_unix s) = s"
  by (simp add: unix_of_def time_unix_def wrap64_exact)

subsection \<open>Printing a duration\<close>

text \<open>\<open>Duration.String\<close>: leading units that are zero are left out; below a second the
  largest of \<open>ms\<close>, the micro sign and \<open>ns\<close> that gives a nonzero integer part.\<close>

definition frac_string :: "nat \<Rightarrow> nat \<Rightarrow> string" where
  "frac_string prec v =
     (let f = v mod 10 ^ prec;
          ds = replicate (prec - length (fmt_nat f)) CHR ''0'' @ fmt_nat f;
          trimmed = rev (dropWhile (\<lambda>c. c = CHR ''0'') (rev ds))
      in fmt_nat (v div 10 ^ prec) @ (if trimmed = [] then [] else CHR ''.'' # trimmed))"

definition duration_string :: "duration \<Rightarrow> string" where
  "duration_string d =
     (let u = nat \<bar>d\<bar>;
          body =
            (if u = 0 then ''0s''
             else if u < 1000 then fmt_nat u @ ''ns''
             else if u < 1000000 then frac_string 3 u @ [CHR 0xC2, CHR 0xB5] @ ''s''
             else if u < 1000000000 then frac_string 6 u @ ''ms''
             else
               let secs = u div 1000000000;
                   s = frac_string 9 (u mod 60000000000) @ ''s'';
                   m = secs div 60
               in if m = 0 then s
                  else if m div 60 = 0 then fmt_nat m @ ''m'' @ s
                  else fmt_nat (m div 60) @ ''h'' @ fmt_nat (m mod 60) @ ''m'' @ s)
      in if d < 0 then CHR ''-'' # body else body)"

lemma duration_string_300s: "duration_string (300 * second) = ''5m0s''"
  by (simp add: duration_string_def frac_string_def digit_char_def Let_def go_eval)

text \<open>\<open>Duration.Round(m)\<close>: halves round away from zero.\<close>

definition dur_round :: "duration \<Rightarrow> duration \<Rightarrow> duration" where
  "dur_round m d =
     (if m \<le> 0 then d
      else let r = \<bar>d\<bar> mod m in
        if r + r < m then sgn d * (\<bar>d\<bar> - r)
        else clamp64 (sgn d * (\<bar>d\<bar> + m - r)))"

end
