(* ===== verification/Go_Error.thy ===== *)
theory Go_Error
  imports Go_Time
begin

text \<open>
  Go errors as values. \<open>gerror\<close> has one constructor per structured error type of the
  repository (the struct's fields are its arguments), \<open>ErrText\<close> for \<open>errors.New\<close> and
  \<open>fmt.Errorf\<close> without a wrapped error, and \<open>ErrWrap\<close> for \<open>fmt.Errorf("...: %w", err)\<close>.
  \<open>err_chain\<close> is the order in which \<open>errors.As\<close> and \<open>errors.Is\<close> visit an error, and
  \<open>err_text\<close> is \<open>Error()\<close>. The stable codes and \<open>APIError\<close> are those of
  \<open>internal/tokenapi\<close>.
\<close>

subsection \<open>internal/tokenapi\<close>

definition CodeLocked :: string where [go_eval]: "CodeLocked = ''PIVB_LOCKED''"
definition CodeConfig :: string where [go_eval]: "CodeConfig = ''PIVB_CONFIG''"
definition CodePIN :: string where [go_eval]: "CodePIN = ''PIVB_PIN''"
definition CodeSign :: string where [go_eval]: "CodeSign = ''PIVB_SIGN''"
definition CodeUnavailable :: string where [go_eval]: "CodeUnavailable = ''PIVB_UNAVAILABLE''"
definition CodeRouteRequired :: string where [go_eval]: "CodeRouteRequired = ''PIVB_ROUTE_REQUIRED''"
definition CodeEnv :: string where [go_eval]: "CodeEnv = ''PIVB_ENV''"
definition CodeInternal :: string where [go_eval]: "CodeInternal = ''PIVB_INTERNAL''"
definition CodeWindowNotAllowed :: string where
  [go_eval]: "CodeWindowNotAllowed = ''PIVB_WINDOW_NOT_ALLOWED''"
definition CodeCardFree :: string where [go_eval]: "CodeCardFree = ''PIVB_CARD_FREE''"

record api_error =
  ae_status :: int
  ae_code :: string
  ae_message :: string
  ae_remedy :: string
  ae_security :: bool

definition api_error_text :: "api_error \<Rightarrow> string" where
  "api_error_text e =
     (if ae_remedy e \<noteq> []
      then ''pivb daemon '' @ ae_code e @ '': '' @ ae_message e @ '' (remedy: '' @ ae_remedy e @ '')''
      else ''pivb daemon '' @ ae_code e @ '': '' @ ae_message e)"

record token_response =
  tr_id_token :: string
  tr_expiration :: int

record error_response =
  er_error :: string
  er_code :: string
  er_remedy :: string

subsection \<open>Errors\<close>

datatype scd_state = ScdRunning | ScdStopped | ScdUnknown

record contention_info =
  ci_elapsed :: duration
  ci_attempts :: int
  ci_probe_waits :: int
  ci_scd :: scd_state
  ci_evidence :: string
  ci_handoff_attempted :: bool
  ci_ever_self :: bool
  ci_last_self :: bool
  ci_ever_blocked :: bool
  ci_cooldown :: duration

datatype gerror =
    ErrText string
  | ErrWrap string gerror
  | ErrLocked
  | ErrReported
  | PinentryCancelled
  | DeadlineExceeded
  | ContextCanceled
  | UnknownAlias string
  | RequestMismatch string string string
  | RequestSource gerror
  | WindowNotAllowed int
  | PolicyError string
  | PINError int gerror string bool
  | AuthErr int string
  | CardFreeError string string
  | APIErr api_error
  | TransportError gerror
  | ProtocolError gerror
  | Contention contention_info gerror gerror "gerror option" "gerror option"
  | TouchWindow duration
  | AcquisitionHandled gerror
  | Selection "string list" "u32 list" "(string \<times> string \<times> gerror) list"
  | LeaseUnavailable gerror
  | EnvironmentError string string
  | ChildExit int int

type_synonym 'a res = "gerror + 'a"

text \<open>\<open>strconv.Quote\<close> (the verb \<open>%q\<close>) on ASCII; other bytes are printed as they are.\<close>

definition hex_digit :: "nat \<Rightarrow> char" where
  "hex_digit d = ''0123456789abcdef'' ! d"

definition quote_char :: "char \<Rightarrow> string" where
  "quote_char c =
     (let n = cp c in
      if n = 34 then [CHR 0x5C, CHR 0x22]
      else if n = 92 then [CHR 0x5C, CHR 0x5C]
      else if n = 7 then [CHR 0x5C, CHR ''a'']
      else if n = 8 then [CHR 0x5C, CHR ''b'']
      else if n = 12 then [CHR 0x5C, CHR ''f'']
      else if n = 10 then [CHR 0x5C, CHR ''n'']
      else if n = 13 then [CHR 0x5C, CHR ''r'']
      else if n = 9 then [CHR 0x5C, CHR ''t'']
      else if n = 11 then [CHR 0x5C, CHR ''v'']
      else if n < 32 \<or> n = 127
        then [CHR 0x5C, CHR ''x'', hex_digit (n div 16), hex_digit (n mod 16)]
      else [c])"

definition go_quote :: "string \<Rightarrow> string" where
  "go_quote s = [CHR 0x22] @ concat (map quote_char s) @ [CHR 0x22]"

definition show_list :: "string list \<Rightarrow> string" where
  "show_list xs = ''['' @ join '' '' xs @ '']''"

text \<open>\<open>displayDelay\<close>: a positive delay is rounded up to whole seconds.\<close>

definition displayDelay :: "duration \<Rightarrow> duration" where
  "displayDelay d = (if d \<le> 0 then 0 else ((d + second - 1) div second) * second)"

definition selection_header :: "string \<Rightarrow> string list \<Rightarrow> u32 list \<Rightarrow> string" where
  "selection_header what readers wanted =
     ''no configured YubiKey '' @ what @ '' (wanted serials ''
       @ show_list (map (\<lambda>s. fmt_nat (unat s)) wanted) @ ''; readers '' @ show_list readers @ '')''"

definition contention_state_text :: "contention_info \<Rightarrow> string" where
  "contention_state_text c =
     (if ci_last_self c then ''an in-process PIV session still holds the smart card''
      else if ci_cooldown c > 0
        then ''smart-card hand-off is throttled; retry in '' @ duration_string (displayDelay (ci_cooldown c))
      else ''persistent external smart-card contention'')"

fun err_text :: "gerror \<Rightarrow> string" where
  "err_text (ErrText s) = s"
| "err_text (ErrWrap s e) = s @ err_text e"
| "err_text ErrLocked = ''PIN is not cached; run `pivb unlock` first''"
| "err_text ErrReported = ''subject-token error already reported on stdout''"
| "err_text PinentryCancelled = ''pinentry cancelled''"
| "err_text DeadlineExceeded = ''context deadline exceeded''"
| "err_text ContextCanceled = ''context canceled''"
| "err_text (UnknownAlias a) = ''unknown alias '' @ go_quote a"
| "err_text (RequestMismatch f got want) =
     ''request '' @ f @ '' '' @ go_quote got @ '' does not match the configured value ''
       @ go_quote want @ ''; regenerate the credential file with `pivb wif credentials`''"
| "err_text (RequestSource e) = ''invalid request source: '' @ err_text e"
| "err_text (WindowNotAllowed n) =
     ''the mint asked to be covered by a '' @ fmt_int n
       @ ''-second authorisation window but this provider's max_grant_window_s is 0''"
| "err_text (PolicyError m) = m"
| "err_text (PINError retries e remedy clear) =
     (if 0 \<le> retries
      then ''PIN verification failed ('' @ fmt_int retries @ '' retries remaining): '' @ err_text e
      else ''PIN verification failed: '' @ err_text e)"
| "err_text (AuthErr retries t) = t"
| "err_text (CardFreeError operation remedy) =
     ''cannot '' @ operation @ '': this pivb daemon is configured card = ''
       @ go_quote ''none'' @ '' (card-free ZKA origin) and opens no smart-card connection''"
| "err_text (APIErr a) = api_error_text a"
| "err_text (TransportError e) = err_text e"
| "err_text (ProtocolError e) = err_text e"
| "err_text (Contention c ini fin insp hand) =
     contention_state_text c @ '' after '' @ duration_string (dur_round millisecond (ci_elapsed c))
       @ '' ('' @ fmt_int (ci_attempts c) @ '' open attempts, '' @ fmt_int (ci_probe_waits c)
       @ '' probe waits): initial error: '' @ err_text ini @ ''; final error: '' @ err_text fin"
| "err_text (TouchWindow d) =
     ''smart-card contention left only '' @ duration_string (dur_round millisecond d)
       @ '' for a touch-gated signature''"
| "err_text (AcquisitionHandled e) = err_text e"
| "err_text (Selection readers wanted fs) =
     (if fs = [] then selection_header ''present'' readers wanted
      else join [CHR 0x0A] (selection_header ''could be opened'' readers wanted #
             map (\<lambda>(reader, stage, e). stage @ '' smart card '' @ go_quote reader @ '': '' @ err_text e) fs))"
| "err_text (LeaseUnavailable e) = ''connect to zkad smart-card lease: '' @ err_text e"
| "err_text (EnvironmentError f d) = d"
| "err_text (ChildExit code sig) =
     (if sig \<noteq> 0 then ''child terminated by signal '' @ fmt_int sig
      else ''child exited with status '' @ fmt_int code)"

fun err_chain :: "gerror \<Rightarrow> gerror list" where
  "err_chain (ErrWrap s e) = ErrWrap s e # err_chain e"
| "err_chain (RequestSource e) = RequestSource e # err_chain e"
| "err_chain (PINError r e m c) = PINError r e m c # err_chain e"
| "err_chain (TransportError e) = TransportError e # err_chain e"
| "err_chain (ProtocolError e) = ProtocolError e # err_chain e"
| "err_chain (Contention c ini fin insp hand) = Contention c ini fin insp hand # err_chain ini"
| "err_chain (AcquisitionHandled e) = AcquisitionHandled e # err_chain e"
| "err_chain (Selection rs ws fs) =
     Selection rs ws fs # concat (map (\<lambda>(_, _, e). err_chain e) fs)"
| "err_chain (LeaseUnavailable e) = LeaseUnavailable e # err_chain e"
| "err_chain e = [e]"

fun first_some :: "('a \<Rightarrow> 'b option) \<Rightarrow> 'a list \<Rightarrow> 'b option" where
  "first_some f [] = None"
| "first_some f (x # xs) = (case f x of Some y \<Rightarrow> Some y | None \<Rightarrow> first_some f xs)"

definition errors_as :: "(gerror \<Rightarrow> 'b option) \<Rightarrow> gerror \<Rightarrow> 'b option" where
  "errors_as f e = first_some f (err_chain e)"

fun node_api :: "gerror \<Rightarrow> api_error option" where
  "node_api (APIErr a) = Some a" | "node_api _ = None"

fun node_policy :: "gerror \<Rightarrow> string option" where
  "node_policy (PolicyError m) = Some m" | "node_policy _ = None"

fun node_locked :: "gerror \<Rightarrow> unit option" where
  "node_locked ErrLocked = Some ()" | "node_locked _ = None"

fun node_source :: "gerror \<Rightarrow> gerror option" where
  "node_source (RequestSource e) = Some e" | "node_source _ = None"

fun node_alias :: "gerror \<Rightarrow> string option" where
  "node_alias (UnknownAlias a) = Some a" | "node_alias _ = None"

fun node_mismatch :: "gerror \<Rightarrow> (string \<times> string \<times> string) option" where
  "node_mismatch (RequestMismatch f g w) = Some (f, g, w)" | "node_mismatch _ = None"

fun node_window :: "gerror \<Rightarrow> int option" where
  "node_window (WindowNotAllowed n) = Some n" | "node_window _ = None"

fun node_pin :: "gerror \<Rightarrow> (int \<times> gerror \<times> string \<times> bool) option" where
  "node_pin (PINError r e m c) = Some (r, e, m, c)" | "node_pin _ = None"

fun node_auth :: "gerror \<Rightarrow> int option" where
  "node_auth (AuthErr r t) = Some r" | "node_auth _ = None"

fun node_card_free :: "gerror \<Rightarrow> (string \<times> string) option" where
  "node_card_free (CardFreeError operation r) = Some (operation, r)" | "node_card_free _ = None"

fun node_contention :: "gerror \<Rightarrow> (contention_info \<times> gerror option \<times> gerror option) option" where
  "node_contention (Contention c ini fin insp hand) = Some (c, insp, hand)"
| "node_contention _ = None"

fun node_touch :: "gerror \<Rightarrow> duration option" where
  "node_touch (TouchWindow d) = Some d" | "node_touch _ = None"

fun node_handled :: "gerror \<Rightarrow> gerror option" where
  "node_handled (AcquisitionHandled e) = Some e" | "node_handled _ = None"

fun node_protocol :: "gerror \<Rightarrow> gerror option" where
  "node_protocol (ProtocolError e) = Some e" | "node_protocol _ = None"

fun node_lease :: "gerror \<Rightarrow> unit option" where
  "node_lease (LeaseUnavailable e) = Some ()" | "node_lease _ = None"

fun node_env :: "gerror \<Rightarrow> (string \<times> string) option" where
  "node_env (EnvironmentError f d) = Some (f, d)" | "node_env _ = None"

lemmas node_simps = node_api.simps node_policy.simps node_locked.simps node_source.simps
  node_alias.simps node_mismatch.simps node_window.simps node_pin.simps node_auth.simps
  node_card_free.simps node_contention.simps node_touch.simps node_handled.simps
  node_protocol.simps node_lease.simps node_env.simps

lemma err_chain_head: "\<exists>es. err_chain e = e # es"
  by (cases e) auto

lemma errors_as_head: "f e = Some y \<Longrightarrow> errors_as f e = Some y"
  using err_chain_head [of e] by (auto simp: errors_as_def)

lemma errors_as_wrap: "f (ErrWrap s e) = None \<Longrightarrow> errors_as f (ErrWrap s e) = errors_as f e"
  by (simp add: errors_as_def)

lemma first_some_None: "first_some f xs = None \<longleftrightarrow> (\<forall>x\<in>set xs. f x = None)"
  by (induction xs) (auto split: option.splits)

lemma first_some_Some: "first_some f xs = Some y \<Longrightarrow> \<exists>x\<in>set xs. f x = Some y"
  by (induction xs) (auto split: option.splits)

lemma displayDelay_ge: "0 < d \<Longrightarrow> d \<le> displayDelay d \<and> displayDelay d < d + second"
proof -
  assume "0 < d"
  have "(d + second - 1) div second * second + (d + second - 1) mod second = d + second - 1"
    by (rule div_mult_mod_eq)
  moreover have "0 \<le> (d + second - 1) mod second" "(d + second - 1) mod second < second"
    by simp_all
  moreover have "displayDelay d = (d + second - 1) div second * second"
    using \<open>0 < d\<close> by (simp add: displayDelay_def)
  ultimately show ?thesis by linarith
qed

end
