(* ===== verification/Base64.thy ===== *)
theory Base64
  imports Prelude
begin

text \<open>
  \<open>base64.RawURLEncoding\<close>: the URL alphabet without padding, as \<open>internal/wif\<close> and the
  JOSE parts use it. Decoding skips carriage returns and newlines, does not check the
  unused bits of the last character, and refuses a lone last character.
\<close>

definition b64_char :: "nat \<Rightarrow> char" where
  "b64_char v =
     (if v < 26 then char_of (65 + v)
      else if v < 52 then char_of (71 + v)
      else if v < 62 then char_of (v - 4)
      else if v = 62 then CHR ''-'' else CHR ''_'')"

definition b64_val :: "char \<Rightarrow> nat option" where
  "b64_val c =
     (let n = cp c in
      if 65 \<le> n \<and> n \<le> 90 then Some (n - 65)
      else if 97 \<le> n \<and> n \<le> 122 then Some (n - 71)
      else if 48 \<le> n \<and> n \<le> 57 then Some (n + 4)
      else if n = 45 then Some 62
      else if n = 95 then Some 63 else None)"

fun b64_encode :: "bytes \<Rightarrow> string" where
  "b64_encode [] = []"
| "b64_encode [a] = [b64_char (cp a div 4), b64_char (cp a mod 4 * 16)]"
| "b64_encode [a, b] =
     [b64_char (cp a div 4), b64_char (cp a mod 4 * 16 + cp b div 16), b64_char (cp b mod 16 * 4)]"
| "b64_encode (a # b # c # r) =
     b64_char (cp a div 4) # b64_char (cp a mod 4 * 16 + cp b div 16)
       # b64_char (cp b mod 16 * 4 + cp c div 64) # b64_char (cp c mod 64) # b64_encode r"

fun b64_quanta :: "nat list \<Rightarrow> bytes option" where
  "b64_quanta [] = Some []"
| "b64_quanta [x] = None"
| "b64_quanta [x, y] = Some [char_of (x * 4 + y div 16)]"
| "b64_quanta [x, y, z] = Some [char_of (x * 4 + y div 16), char_of (y mod 16 * 16 + z div 4)]"
| "b64_quanta (x # y # z # w # r) =
     map_option (\<lambda>t. char_of (x * 4 + y div 16) # char_of (y mod 16 * 16 + z div 4)
        # char_of (z mod 4 * 64 + w) # t) (b64_quanta r)"

fun b64_vals :: "string \<Rightarrow> nat list option" where
  "b64_vals [] = Some []"
| "b64_vals (c # s) =
     (case b64_val c of None \<Rightarrow> None | Some v \<Rightarrow> map_option ((#) v) (b64_vals s))"

definition b64_decode :: "string \<Rightarrow> bytes option" where
  "b64_decode s =
     (case b64_vals (filter (\<lambda>c. c \<noteq> CHR 0x0A \<and> c \<noteq> CHR 0x0D) s) of
        None \<Rightarrow> None
      | Some vs \<Rightarrow> b64_quanta vs)"

lemma cp_less: "cp c < 256"
proof -
  have "cp c mod 256 < 256" by (rule mod_less_divisor) simp
  then show ?thesis by simp
qed

lemma sextet_bounds:
  fixes a b :: nat
  assumes "a < 256" and "b < 256"
  shows "a div 4 < 64" "a mod 4 * 16 < 64" "a mod 4 * 16 + b div 16 < 64" "a mod 16 * 4 < 64"
    "a mod 16 * 4 + b div 64 < 64" "a mod 64 < 64" "a div 16 mod 16 = a div 16" "a div 64 mod 4 = a div 64"
    "(a mod 4 * 16 + b div 16) div 16 = a mod 4" "(a mod 4 * 16 + b div 16) mod 16 = b div 16"
    "(a mod 16 * 4 + b div 64) div 4 = a mod 16" "(a mod 16 * 4 + b div 64) mod 4 = b div 64"
proof -
  have a: "a div 4 < 64" "a mod 4 < 4" "a mod 16 < 16" "a div 16 < 16" "a div 64 < 4" using assms by simp_all
  have b: "b div 16 < 16" "b div 64 < 4" using assms by simp_all
  show "a div 4 < 64" "a mod 64 < 64" "a div 16 mod 16 = a div 16" "a div 64 mod 4 = a div 64" using a by simp_all
  show "a mod 4 * 16 < 64" "a mod 4 * 16 + b div 16 < 64" "a mod 16 * 4 < 64"
    "a mod 16 * 4 + b div 64 < 64"
    using a b by linarith+
  show "(a mod 4 * 16 + b div 16) div 16 = a mod 4" "(a mod 4 * 16 + b div 16) mod 16 = b div 16"
    "(a mod 16 * 4 + b div 64) div 4 = a mod 16" "(a mod 16 * 4 + b div 64) mod 4 = b div 64"
    using a b by simp_all
qed

lemmas cp_bounds = sextet_bounds [OF cp_less cp_less]

lemma regroup: "a div (4 :: nat) * 4 + a mod 4 = a" "a div (16 :: nat) * 16 + a mod 16 = a"
    "a div (64 :: nat) * 64 + a mod 64 = a"
  by simp_all

lemma b64_val_char: "v < 64 \<Longrightarrow> b64_val (b64_char v) = Some v"
  by (auto simp: b64_val_def b64_char_def Let_def)

lemma b64_char_plain: "v < 64 \<Longrightarrow> cp (b64_char v) \<noteq> 10 \<and> cp (b64_char v) \<noteq> 13 \<and> cp (b64_char v) \<noteq> 46"
  by (auto simp: b64_char_def)

lemma b64_encode_chars: "c \<in> set (b64_encode b) \<Longrightarrow> \<exists>v<64. c = b64_char v"
proof (induction b rule: b64_encode.induct)
  case (2 a)
  then have "c = b64_char (cp a div 4) \<or> c = b64_char (cp a mod 4 * 16)" by auto
  then show ?case using cp_bounds(1) [of a] cp_bounds(2) [of a] by blast
next
  case (3 a b)
  then have "c = b64_char (cp a div 4) \<or> c = b64_char (cp a mod 4 * 16 + cp b div 16)
      \<or> c = b64_char (cp b mod 16 * 4)" by auto
  then show ?case using cp_bounds(1) [of a] cp_bounds(3) [of a b] cp_bounds(4) [of b] by blast
next
  case (4 a b c' r)
  then have "c = b64_char (cp a div 4) \<or> c = b64_char (cp a mod 4 * 16 + cp b div 16)
      \<or> c = b64_char (cp b mod 16 * 4 + cp c' div 64) \<or> c = b64_char (cp c' mod 64)
      \<or> c \<in> set (b64_encode r)" by auto
  then show ?case
    using 4 cp_bounds(1) [of a] cp_bounds(3) [of a b] cp_bounds(5) [of b c'] cp_bounds(6) [of c'] by blast
qed simp

lemma b64_encode_avoids: "cp c \<in> {10, 13, 46} \<Longrightarrow> c \<notin> set (b64_encode b)"
  using b64_encode_chars [of c b] b64_char_plain by auto

lemma b64_encode_no_sep:
  "CHR 0x0A \<notin> set (b64_encode b)" "CHR 0x0D \<notin> set (b64_encode b)" "CHR ''.'' \<notin> set (b64_encode b)"
  by (rule b64_encode_avoids, simp)+

lemma b64_quanta_encode: "\<exists>vs. b64_vals (b64_encode b) = Some vs \<and> b64_quanta vs = Some b"
proof (induction b rule: b64_encode.induct)
  case 1
  then show ?case by simp
next
  case (2 a)
  show ?case by (simp add: b64_val_char cp_bounds regroup)
next
  case (3 a b)
  show ?case by (simp add: b64_val_char cp_bounds regroup)
next
  case (4 a b c r)
  then show ?case by (auto simp: b64_val_char cp_bounds regroup)
qed

lemma b64_decode_encode: "b64_decode (b64_encode b) = Some b"
proof -
  have "filter (\<lambda>c. c \<noteq> CHR 0x0A \<and> c \<noteq> CHR 0x0D) (b64_encode b) = b64_encode b"
    using b64_encode_no_sep [of b] by (auto intro!: filter_True)
  with b64_quanta_encode [of b] show ?thesis by (auto simp: b64_decode_def)
qed

lemma b64_encode_inject: "b64_encode a = b64_encode b \<longleftrightarrow> a = b"
  by (metis b64_decode_encode option.inject)

lemma length_b64_encode: "length (b64_encode b) = (4 * length b + 2) div 3"
  by (induction b rule: b64_encode.induct) auto

end
