(* ===== verification/Wif_Jwks.thy ===== *)
theory Wif_Jwks
  imports Go_Error Base64
begin

text \<open>
  \<open>internal/wif/jwks.go\<close>: the identity of an enrolled key (unpadded base64url SHA-256 of
  its DER \<open>SubjectPublicKeyInfo\<close>), the RSA-2048/F4 shape the fleet requires, and the
  uploaded key set, which is built only when the certificates and the configured keys
  match one to one. Hashing, DER encoding and signature verification belong to Go's
  \<open>crypto\<close> packages and are the fields of the parameter \<open>crypto\<close>.
\<close>

record rsa_pub =
  rsa_n :: nat
  rsa_e :: int

datatype public_key = RSAKey rsa_pub | OtherKey string

record certificate =
  ct_public :: public_key
  ct_raw_spki :: bytes

record crypto =
  cr_sha256 :: "bytes \<Rightarrow> bytes"
  cr_marshal_pkix :: "rsa_pub \<Rightarrow> bytes res"
  cr_parse_pkix :: "bytes \<Rightarrow> public_key res"
  cr_verify :: "rsa_pub \<Rightarrow> bytes \<Rightarrow> bytes \<Rightarrow> gerror option"

definition MaxJWKSKeys :: nat where [go_eval]: "MaxJWKSKeys = 8"
definition KeyIDLength :: nat where [go_eval]: "KeyIDLength = 43"
definition rsaPublicExponent :: int where [go_eval]: "rsaPublicExponent = 65537"

text \<open>\<open>big.Int\<close>: \<open>BitLen\<close> and \<open>Bytes\<close> (big endian, no leading zero).\<close>

fun bit_len :: "nat \<Rightarrow> nat" where
  "bit_len n = (if n = 0 then 0 else Suc (bit_len (n div 2)))"

fun nat_bytes :: "nat \<Rightarrow> bytes" where
  "nat_bytes n = (if n = 0 then [] else nat_bytes (n div 256) @ [char_of (n mod 256)])"

declare bit_len.simps [simp del] nat_bytes.simps [simp del]

record JWK =
  jwk_kty :: string
  jwk_use :: string
  jwk_alg :: string
  jwk_kid :: string
  jwk_n :: string
  jwk_e :: string

definition RSAPublicKey :: "certificate \<Rightarrow> rsa_pub res" where
  "RSAPublicKey cert =
     (case ct_public cert of
        OtherKey t \<Rightarrow> Inl (ErrText (''certificate public key is '' @ t @ '', not RSA''))
      | RSAKey pub \<Rightarrow>
          if bit_len (rsa_n pub) \<noteq> 2048
          then Inl (ErrText (''certificate RSA key is '' @ fmt_nat (bit_len (rsa_n pub)) @ '' bits; pivb requires RSA-2048''))
          else if rsa_e pub \<noteq> rsaPublicExponent
          then Inl (ErrText (''certificate RSA public exponent is '' @ fmt_int (rsa_e pub) @ ''; pivb requires 65537''))
          else Inr pub)"

definition KeyID :: "crypto \<Rightarrow> rsa_pub \<Rightarrow> string res" where
  "KeyID cr pub =
     (case cr_marshal_pkix cr pub of
        Inl e \<Rightarrow> Inl (ErrWrap ''marshal SubjectPublicKeyInfo: '' e)
      | Inr spki \<Rightarrow> Inr (b64_encode (cr_sha256 cr spki)))"

definition CertificateKeyID :: "crypto \<Rightarrow> certificate \<Rightarrow> string res" where
  "CertificateKeyID cr cert =
     (case RSAPublicKey cert of Inl e \<Rightarrow> Inl e | Inr pub \<Rightarrow> KeyID cr pub)"

definition JWKFromCertificate :: "crypto \<Rightarrow> certificate \<Rightarrow> JWK res" where
  "JWKFromCertificate cr cert =
     (case RSAPublicKey cert of
        Inl e \<Rightarrow> Inl e
      | Inr pub \<Rightarrow>
          (case KeyID cr pub of
             Inl e \<Rightarrow> Inl e
           | Inr kid \<Rightarrow>
               Inr \<lparr>jwk_kty = ''RSA'', jwk_use = ''sig'', jwk_alg = ''RS256'', jwk_kid = kid,
                    jwk_n = b64_encode (nat_bytes (rsa_n pub)),
                    jwk_e = b64_encode (nat_bytes (nat rsaPublicExponent))\<rparr>))"

text \<open>The loop of \<open>BuildJWKS\<close> over the sorted serials, with the key IDs seen so far and
  the keys appended so far.\<close>

definition serial_text :: "u32 \<Rightarrow> string" where
  "serial_text serial = fmt_nat (unat serial)"

fun jwks_loop :: "crypto \<Rightarrow> (u32, certificate) gomap \<Rightarrow> (u32, string) gomap \<Rightarrow>
    (string, u32) gomap \<Rightarrow> JWK list \<Rightarrow> u32 list \<Rightarrow> JWK list res" where
  "jwks_loop cr certs configured kids keys [] = Inr keys"
| "jwks_loop cr certs configured kids keys (serial # serials) =
     (case map_of certs serial of
        None \<Rightarrow> Inl (ErrText ''certificate missing'')
      | Some cert \<Rightarrow>
     (case JWKFromCertificate cr cert of
        Inl e \<Rightarrow> Inl (ErrWrap (''certificate for YubiKey '' @ serial_text serial @ '': '') e)
      | Inr jwk \<Rightarrow>
     (case map_of kids (jwk_kid jwk) of
        Some previous \<Rightarrow>
          Inl (ErrText (''YubiKeys '' @ serial_text previous @ '' and '' @ serial_text serial
            @ '' present the same public key (jwk_kid '' @ jwk_kid jwk @ '')''))
      | None \<Rightarrow>
     (case map_of configured serial of
        None \<Rightarrow>
          Inl (ErrText (''YubiKey '' @ serial_text serial @ '' is not configured; add [keys.''
            @ serial_text serial @ ''] with jwk_kid = '' @ go_quote (jwk_kid jwk)))
      | Some want \<Rightarrow>
          if want \<noteq> jwk_kid jwk
          then Inl (ErrText (''YubiKey '' @ serial_text serial @ '' certificate derives jwk_kid ''
            @ go_quote (jwk_kid jwk) @ '' but [keys.'' @ serial_text serial @ ''] is configured with ''
            @ go_quote want @ ''; enroll the new key deliberately or use the matching certificate''))
          else jwks_loop cr certs configured (AList.update (jwk_kid jwk) serial kids) (keys @ [jwk]) serials))))"

definition BuildJWKS :: "crypto \<Rightarrow> (u32, certificate) gomap \<Rightarrow> (u32, string) gomap \<Rightarrow> JWK list res" where
  "BuildJWKS cr certs configured =
     (if certs = [] then Inl (ErrText ''at least one certificate is required'')
      else if length certs > MaxJWKSKeys
      then Inl (ErrText (fmt_nat (length certs) @ '' certificates exceed the Google limit of ''
        @ fmt_nat MaxJWKSKeys @ '' uploaded JWKs per provider''))
      else case jwks_loop cr certs configured [] [] (sort (map fst certs)) of
          Inl e \<Rightarrow> Inl e
        | Inr keys \<Rightarrow>
            (case filter (\<lambda>(serial, _). map_of certs serial = None) configured of
               (serial, _) # _ \<Rightarrow>
                 Inl (ErrText (''configured YubiKey '' @ serial_text serial
                   @ '' has no certificate input; uploading this set would revoke it (pass --cert ''
                   @ serial_text serial @ ''=<pem> or remove [keys.'' @ serial_text serial @ ''])''))
             | [] \<Rightarrow> Inr keys))"

subsection \<open>Key identity\<close>

lemma bit_len_pos: "0 < n \<Longrightarrow> bit_len n = Suc (bit_len (n div 2))"
  by (subst bit_len.simps) simp

lemma bit_len_power: "bit_len (2 ^ k) = Suc k"
proof (induction k)
  case 0
  show ?case by (simp add: bit_len_pos) (simp add: bit_len.simps)
next
  case (Suc k)
  then show ?case by (subst bit_len_pos) simp_all
qed

lemma bit_len_bounds: "bit_len n = Suc k \<longleftrightarrow> 2 ^ k \<le> n \<and> n < 2 ^ Suc k"
proof (induction k arbitrary: n)
  case 0
  show ?case
  proof (cases "n = 0")
    case True
    then show ?thesis by (simp add: bit_len.simps)
  next
    case False
    then have "bit_len n = Suc 0 \<longleftrightarrow> bit_len (n div 2) = 0" by (simp add: bit_len_pos)
    also have "\<dots> \<longleftrightarrow> n div 2 = 0" by (subst bit_len.simps) simp
    finally show ?thesis using False by auto
  qed
next
  case (Suc k)
  show ?case
  proof (cases "n = 0")
    case True
    then show ?thesis by (simp add: bit_len.simps)
  next
    case False
    then have "bit_len n = Suc (Suc k) \<longleftrightarrow> bit_len (n div 2) = Suc k" by (simp add: bit_len_pos)
    then show ?thesis unfolding Suc by auto
  qed
qed

lemma RSAPublicKey_iff:
  "RSAPublicKey cert = Inr pub \<longleftrightarrow>
     ct_public cert = RSAKey pub \<and> 2 ^ 2047 \<le> rsa_n pub \<and> rsa_n pub < 2 ^ 2048 \<and> rsa_e pub = 65537"
proof -
  have "RSAPublicKey cert = Inr pub \<longleftrightarrow>
     ct_public cert = RSAKey pub \<and> bit_len (rsa_n pub) = Suc 2047 \<and> rsa_e pub = 65537"
    by (auto simp: RSAPublicKey_def rsaPublicExponent_def split: public_key.splits if_splits)
  then show ?thesis unfolding bit_len_bounds by simp
qed

lemma CertificateKeyID_iff:
  "CertificateKeyID cr cert = Inr kid \<longleftrightarrow>
     (\<exists>pub spki. RSAPublicKey cert = Inr pub \<and> cr_marshal_pkix cr pub = Inr spki \<and>
        kid = b64_encode (cr_sha256 cr spki))"
  by (auto simp: CertificateKeyID_def KeyID_def split: sum.splits)

text \<open>A key ID has \<open>KeyIDLength\<close> characters whenever the hash has 32 bytes.\<close>

lemma KeyID_length:
  "(\<And>b. length (cr_sha256 cr b) = 32) \<Longrightarrow> KeyID cr pub = Inr kid \<Longrightarrow> length kid = KeyIDLength"
  by (auto simp: KeyID_def length_b64_encode KeyIDLength_def split: sum.splits)

lemma JWKFromCertificate_kid:
  "JWKFromCertificate cr cert = Inr jwk \<Longrightarrow> CertificateKeyID cr cert = Inr (jwk_kid jwk)"
  by (auto simp: JWKFromCertificate_def CertificateKeyID_def split: sum.splits)

lemma JWKFromCertificate_ex:
  "CertificateKeyID cr cert = Inr kid \<Longrightarrow> \<exists>jwk. JWKFromCertificate cr cert = Inr jwk \<and> jwk_kid jwk = kid"
  by (auto simp: JWKFromCertificate_def CertificateKeyID_def split: sum.splits)

subsection \<open>The uploaded set\<close>

definition enrolled_as :: "crypto \<Rightarrow> (u32, certificate) gomap \<Rightarrow> u32 \<Rightarrow> string \<Rightarrow> bool" where
  "enrolled_as cr certs serial kid \<longleftrightarrow>
     (\<exists>cert. map_of certs serial = Some cert \<and> CertificateKeyID cr cert = Inr kid)"

lemma enrolled_as_unique: "enrolled_as cr certs s k \<Longrightarrow> enrolled_as cr certs s k' \<Longrightarrow> k = k'"
  by (auto simp: enrolled_as_def)

lemma list_all2_member: "list_all2 P xs ys \<Longrightarrow> x \<in> set xs \<Longrightarrow> \<exists>y\<in>set ys. P x y"
  by (induction rule: list_all2_induct) auto

text \<open>The loop succeeds exactly when every serial's certificate derives its configured key
  ID and no key ID repeats; it appends one key per serial, in order.\<close>

lemma jwks_loop_ok:
  assumes "jwks_loop cr certs configured kids keys serials = Inr out"
  shows "\<exists>new. out = keys @ new \<and> length new = length serials \<and>
    list_all2 (\<lambda>s j. enrolled_as cr certs s (jwk_kid j) \<and> map_of configured s = Some (jwk_kid j)) serials new \<and>
    distinct (map jwk_kid new) \<and> (\<forall>j\<in>set new. map_of kids (jwk_kid j) = None)"
  using assms
proof (induction serials arbitrary: kids keys)
  case Nil
  then show ?case by simp
next
  case (Cons s ss)
  from Cons.prems obtain cert jwk where c: "map_of certs s = Some cert"
    and j: "JWKFromCertificate cr cert = Inr jwk" and k: "map_of kids (jwk_kid jwk) = None"
    and w: "map_of configured s = Some (jwk_kid jwk)"
    and r: "jwks_loop cr certs configured (AList.update (jwk_kid jwk) s kids) (keys @ [jwk]) ss = Inr out"
    by (auto split: option.splits sum.splits if_splits)
  from Cons.IH [OF r] obtain new where n: "out = (keys @ [jwk]) @ new" "length new = length ss"
    "list_all2 (\<lambda>s j. enrolled_as cr certs s (jwk_kid j) \<and> map_of configured s = Some (jwk_kid j)) ss new"
    "distinct (map jwk_kid new)"
    "\<forall>x\<in>set new. map_of (AList.update (jwk_kid jwk) s kids) (jwk_kid x) = None"
    by blast
  from n(5) have "\<forall>x\<in>set new. jwk_kid x \<noteq> jwk_kid jwk \<and> map_of kids (jwk_kid x) = None"
    by (auto simp: update_conv' split: if_splits)
  with n c j k w show ?case
    by (intro exI [of _ "jwk # new"])
      (auto simp: enrolled_as_def dest: JWKFromCertificate_kid)
qed

lemma jwks_loop_total:
  assumes "\<forall>s\<in>set serials. \<exists>kid. enrolled_as cr certs s kid \<and> map_of configured s = Some kid"
    and "distinct serials" and "inj_on (map_of configured) (set serials)"
    and "\<forall>s\<in>set serials. \<forall>kid. map_of configured s = Some kid \<longrightarrow> map_of kids kid = None"
  shows "\<exists>out. jwks_loop cr certs configured kids keys serials = Inr out"
  using assms
proof (induction serials arbitrary: kids keys)
  case Nil
  then show ?case by simp
next
  case (Cons s ss)
  from Cons.prems(1) obtain kid cert where c: "map_of certs s = Some cert"
    and kc: "CertificateKeyID cr cert = Inr kid" and w: "map_of configured s = Some kid"
    by (auto simp: enrolled_as_def)
  from JWKFromCertificate_ex [OF kc] obtain jwk where j: "JWKFromCertificate cr cert = Inr jwk"
    and jk: "jwk_kid jwk = kid" by blast
  from Cons.prems(4) w have k: "map_of kids kid = None" by simp
  have "\<forall>t\<in>set ss. \<forall>k. map_of configured t = Some k \<longrightarrow> map_of (AList.update kid s kids) k = None"
  proof (intro ballI allI impI)
    fix t k assume t: "t \<in> set ss" "map_of configured t = Some k"
    have "t \<noteq> s" using Cons.prems(2) t by auto
    moreover from this have "map_of configured t \<noteq> map_of configured s"
      using Cons.prems(3) t(1) by (metis inj_onD list.set_intros)
    ultimately have "k \<noteq> kid" using t w by auto
    with Cons.prems(4) t show "map_of (AList.update kid s kids) k = None"
      by (auto simp: update_conv')
  qed
  moreover have "inj_on (map_of configured) (set ss)" using Cons.prems(3) by (simp add: inj_on_def)
  ultimately have "\<exists>out. jwks_loop cr certs configured (AList.update kid s kids) (keys @ [jwk]) ss = Inr out"
    using Cons.prems(1) Cons.prems(2) by (intro Cons.IH) auto
  then show ?case using c j jk k w by simp
qed

text \<open>What a built key set is: one key per certificate, in the order of the serials, each under
  the key ID its serial is configured with.\<close>

lemma BuildJWKS_Inr:
  assumes "BuildJWKS cr certs configured = Inr keys"
  shows "certs \<noteq> [] \<and> length certs \<le> 8 \<and> fst ` set configured = fst ` set certs \<and> distinct (map jwk_kid keys) \<and>
    list_all2 (\<lambda>s j. enrolled_as cr certs s (jwk_kid j) \<and> map_of configured s = Some (jwk_kid j)) (sort (map fst certs)) keys"
proof -
  let ?ss = "sort (map fst certs)"
  from assms have b: "certs \<noteq> []" "length certs \<le> 8"
    and l: "jwks_loop cr certs configured [] [] ?ss = Inr keys"
    and f: "filter (\<lambda>(serial, _). map_of certs serial = None) configured = []"
    by (auto simp: BuildJWKS_def MaxJWKSKeys_def split: if_splits sum.splits list.splits)
  from jwks_loop_ok [OF l] have
    all: "list_all2 (\<lambda>s j. enrolled_as cr certs s (jwk_kid j) \<and> map_of configured s = Some (jwk_kid j)) ?ss keys"
    and d: "distinct (map jwk_kid keys)" by auto
  have "fst ` set certs \<subseteq> fst ` set configured"
  proof
    fix s assume "s \<in> fst ` set certs"
    then have "s \<in> set ?ss" by simp
    from list_all2_member [OF all this] show "s \<in> fst ` set configured" by (metis image_eqI map_of_SomeD fst_conv)
  qed
  moreover have "fst ` set configured \<subseteq> fst ` set certs"
    using f by (fastforce simp: filter_empty_conv map_of_eq_None_iff)
  ultimately show ?thesis using b all d by blast
qed

lemma kids_inj:
  assumes "list_all2 (\<lambda>s j. map_of configured s = Some (jwk_kid j)) ss keys" and "distinct (map jwk_kid keys)"
  shows "inj_on (map_of configured) (set ss)"
proof (rule inj_onI)
  fix x y assume x: "x \<in> set ss" and y: "y \<in> set ss" and e: "map_of configured x = map_of configured y"
  from x obtain i where i: "i < length ss" "ss ! i = x" unfolding in_set_conv_nth by blast
  from y obtain k where k: "k < length ss" "ss ! k = y" unfolding in_set_conv_nth by blast
  from assms(1) i k e have "jwk_kid (keys ! i) = jwk_kid (keys ! k)" by (auto simp: list_all2_conv_all_nth)
  moreover have "length ss = length keys" using assms(1) by (rule list_all2_lengthD)
  ultimately have "i = k" using assms(2) i(1) k(1) nth_eq_iff_index_eq [of "map jwk_kid keys" i k] by simp
  with i k show "x = y" by simp
qed

text \<open>The uploaded key set is built exactly when it is a bijection with the enrolled
  keys. For maps with distinct keys, \<open>BuildJWKS\<close> succeeds iff there are between one and
  eight certificates, the certificates and the configuration name the same serials, every
  certificate derives the key ID its serial is configured with, and no two serials share
  one key ID; so an upload can neither revoke a configured key nor bind a serial to a
  different key.\<close>

lemma BuildJWKS_succeeds_iff:
  assumes "distinct (map fst certs)"
  shows "(\<exists>keys. BuildJWKS cr certs configured = Inr keys) \<longleftrightarrow>
     certs \<noteq> [] \<and> length certs \<le> 8 \<and> fst ` set configured = fst ` set certs \<and>
     (\<forall>s\<in>fst ` set certs. \<exists>kid. enrolled_as cr certs s kid \<and> map_of configured s = Some kid) \<and>
     inj_on (map_of configured) (fst ` set certs)" (is "?l \<longleftrightarrow> ?r")
proof
  let ?ss = "sort (map fst certs)"
  assume ?l
  then obtain keys where "BuildJWKS cr certs configured = Inr keys" ..
  note b = BuildJWKS_Inr [OF this]
  then have "inj_on (map_of configured) (set ?ss)" by (intro kids_inj [of _ _ keys]) (auto elim: list_all2_mono)
  moreover have "\<exists>kid. enrolled_as cr certs s kid \<and> map_of configured s = Some kid" if "s \<in> fst ` set certs" for s
    using list_all2_member [of _ ?ss keys s] b that by force
  ultimately show ?r using b by simp
next
  let ?ss = "sort (map fst certs)"
  assume r: ?r
  have "\<exists>out. jwks_loop cr certs configured [] [] ?ss = Inr out"
    using r assms by (intro jwks_loop_total) auto
  then obtain out where o: "jwks_loop cr certs configured [] [] ?ss = Inr out" ..
  have "\<forall>p\<in>set configured. fst p \<in> fst ` set certs" using r by blast
  then have "filter (\<lambda>(serial, _). map_of certs serial = None) configured = []"
    by (simp add: filter_empty_conv map_of_eq_None_iff case_prod_unfold)
  then have "BuildJWKS cr certs configured = Inr out"
    using o r by (simp add: BuildJWKS_def MaxJWKSKeys_def)
  then show ?l by blast
qed

subsection \<open>One concrete instance\<close>

text \<open>A stand-in for the \<open>crypto\<close> packages with one RSA-2048/F4 key, on which the
  hypotheses about the parameter can be seen to hold.\<close>

definition demo_pub :: rsa_pub where
  "demo_pub = \<lparr>rsa_n = 2 ^ 2047, rsa_e = 65537\<rparr>"

definition demo_cert :: certificate where
  "demo_cert = \<lparr>ct_public = RSAKey demo_pub, ct_raw_spki = ''spki''\<rparr>"

definition demo_crypto :: crypto where
  "demo_crypto = \<lparr>
     cr_sha256 = (\<lambda>b. take 32 (b @ replicate 32 (CHR 0x00))),
     cr_marshal_pkix = (\<lambda>_. Inr ''spki''),
     cr_parse_pkix = (\<lambda>_. Inr (RSAKey demo_pub)),
     cr_verify = (\<lambda>_ digest sig. if sig = digest then None else Some (ErrText ''verification error''))\<rparr>"

definition demo_kid :: string where
  "demo_kid = b64_encode (''spki'' @ replicate 28 (CHR 0x00))"

lemma RSAPublicKey_demo: "RSAPublicKey demo_cert = Inr demo_pub"
  unfolding RSAPublicKey_iff
  by (simp add: demo_cert_def demo_pub_def del: power_numeral)

lemma KeyID_demo: "KeyID demo_crypto demo_pub = Inr demo_kid"
  by (simp add: KeyID_def demo_crypto_def demo_kid_def)

lemma CertificateKeyID_demo: "CertificateKeyID demo_crypto demo_cert = Inr demo_kid"
  by (simp add: CertificateKeyID_def RSAPublicKey_demo KeyID_demo)

end
