(* ===== verification/Json.thy ===== *)
theory Json
  imports Go_Error
begin

text \<open>
  What the program uses of \<open>encoding/json\<close> for the two JOSE documents: \<open>Marshal\<close> of a flat
  struct of strings and integers (HTML escaping on, invalid UTF-8 replaced), and a
  \<open>Decoder\<close> with \<open>DisallowUnknownFields\<close> followed by the check that nothing but white
  space is left. The documents decoded here are flat, so a nested value can only be an
  error (an unknown field or a type mismatch) and is not parsed further.
\<close>

subsection \<open>UTF-8\<close>

definition in_range :: "nat \<Rightarrow> nat \<Rightarrow> char \<Rightarrow> bool" where
  "in_range lo hi c \<longleftrightarrow> lo \<le> cp c \<and> cp c \<le> hi"

text \<open>The width of the well-formed non-ASCII sequence at the head of a string, 0 if there is none.\<close>

fun utf8_width :: "string \<Rightarrow> nat" where
  "utf8_width (a # b # c # d # _) =
     (if in_range 0xC2 0xDF a \<and> in_range 0x80 0xBF b then 2
      else if (cp a = 0xE0 \<and> in_range 0xA0 0xBF b \<or> cp a = 0xED \<and> in_range 0x80 0x9F b
               \<or> (in_range 0xE1 0xEF a \<and> cp a \<noteq> 0xED) \<and> in_range 0x80 0xBF b) \<and> in_range 0x80 0xBF c then 3
      else if (cp a = 0xF0 \<and> in_range 0x90 0xBF b \<or> in_range 0xF1 0xF3 a \<and> in_range 0x80 0xBF b
               \<or> cp a = 0xF4 \<and> in_range 0x80 0x8F b) \<and> in_range 0x80 0xBF c \<and> in_range 0x80 0xBF d then 4
      else 0)"
| "utf8_width [a, b, c] =
     (if in_range 0xC2 0xDF a \<and> in_range 0x80 0xBF b then 2
      else if (cp a = 0xE0 \<and> in_range 0xA0 0xBF b \<or> cp a = 0xED \<and> in_range 0x80 0x9F b
               \<or> (in_range 0xE1 0xEF a \<and> cp a \<noteq> 0xED) \<and> in_range 0x80 0xBF b) \<and> in_range 0x80 0xBF c then 3
      else 0)"
| "utf8_width [a, b] = (if in_range 0xC2 0xDF a \<and> in_range 0x80 0xBF b then 2 else 0)"
| "utf8_width _ = 0"

definition utf8_encode :: "nat \<Rightarrow> string" where
  "utf8_encode r =
     (if r < 0x80 then [char_of r]
      else if r < 0x800 then [char_of (0xC0 + r div 64), char_of (0x80 + r mod 64)]
      else if r < 0x10000
        then [char_of (0xE0 + r div 4096), char_of (0x80 + r div 64 mod 64), char_of (0x80 + r mod 64)]
      else [char_of (0xF0 + r div 262144), char_of (0x80 + r div 4096 mod 64),
            char_of (0x80 + r div 64 mod 64), char_of (0x80 + r mod 64)])"

definition utf8_replacement :: string where
  "utf8_replacement = [CHR 0xEF, CHR 0xBF, CHR 0xBD]"

subsection \<open>Marshal\<close>

definition json_ascii :: "char \<Rightarrow> string" where
  "json_ascii c =
     (let n = cp c in
      if n = 34 \<or> n = 92 then [CHR 0x5C, c]
      else if n = 8 then [CHR 0x5C, CHR ''b'']
      else if n = 12 then [CHR 0x5C, CHR ''f'']
      else if n = 10 then [CHR 0x5C, CHR ''n'']
      else if n = 13 then [CHR 0x5C, CHR ''r'']
      else if n = 9 then [CHR 0x5C, CHR ''t'']
      else if n < 32 \<or> n = 60 \<or> n = 62 \<or> n = 38
        then [CHR 0x5C, CHR ''u'', CHR ''0'', CHR ''0'', hex_digit (n div 16), hex_digit (n mod 16)]
      else [c])"

function json_body :: "string \<Rightarrow> string" where
  "json_body [] = []"
| "json_body (c # s) =
     (if cp c < 0x80 then json_ascii c @ json_body s
      else if utf8_width (c # s) = 0 then [CHR 0x5C] @ ''ufffd'' @ json_body s
      else if take 3 (c # s) = [CHR 0xE2, CHR 0x80, CHR 0xA8] then [CHR 0x5C] @ ''u2028'' @ json_body (drop 3 (c # s))
      else if take 3 (c # s) = [CHR 0xE2, CHR 0x80, CHR 0xA9] then [CHR 0x5C] @ ''u2029'' @ json_body (drop 3 (c # s))
      else take (utf8_width (c # s)) (c # s) @ json_body (drop (utf8_width (c # s)) (c # s)))"
  by pat_completeness auto
termination
  by (relation "measure length") auto

definition dquote :: char where "dquote = CHR 0x22"

definition json_string :: "string \<Rightarrow> string" where
  "json_string s = dquote # json_body s @ [dquote]"

datatype jval = JStr string | JInt int | JBool bool | JNull

fun json_val :: "jval \<Rightarrow> string" where
  "json_val (JStr s) = json_string s"
| "json_val (JInt i) = fmt_int i"
| "json_val (JBool b) = (if b then ''true'' else ''false'')"
| "json_val JNull = ''null''"

definition json_member :: "string \<times> jval \<Rightarrow> string" where
  "json_member kv = json_string (fst kv) @ '':'' @ json_val (snd kv)"

definition json_object :: "(string \<times> jval) list \<Rightarrow> string" where
  "json_object kvs = ''{'' @ join '','' (map json_member kvs) @ ''}''"

subsection \<open>Decode\<close>

definition json_space :: "char \<Rightarrow> bool" where
  "json_space c \<longleftrightarrow> cp c = 32 \<or> cp c = 9 \<or> cp c = 10 \<or> cp c = 13"

definition skip_ws :: "string \<Rightarrow> string" where
  "skip_ws s = dropWhile json_space s"

definition hex_val :: "char \<Rightarrow> nat option" where
  "hex_val c =
     (let n = cp c in
      if 48 \<le> n \<and> n \<le> 57 then Some (n - 48)
      else if 97 \<le> n \<and> n \<le> 102 then Some (n - 87)
      else if 65 \<le> n \<and> n \<le> 70 then Some (n - 55) else None)"

fun hex4 :: "string \<Rightarrow> (nat \<times> string) option" where
  "hex4 (a # b # c # d # r) =
     (case (hex_val a, hex_val b, hex_val c, hex_val d) of
        (Some x, Some y, Some z, Some w) \<Rightarrow> Some (((x * 16 + y) * 16 + z) * 16 + w, r)
      | _ \<Rightarrow> None)"
| "hex4 _ = None"

definition is_surrogate :: "nat \<Rightarrow> bool" where
  "is_surrogate r \<longleftrightarrow> 0xD800 \<le> r \<and> r < 0xE000"

text \<open>The text of a \<open>\\u\<close> escape whose four digits have been read: a surrogate pair is
  combined, a lone surrogate becomes the replacement character.\<close>

definition unicode_escape :: "nat \<Rightarrow> string \<Rightarrow> string \<times> string" where
  "unicode_escape r s =
     (if \<not> is_surrogate r then (utf8_encode r, s)
      else case s of
          a # b # t \<Rightarrow>
            (if a = CHR 0x5C \<and> b = CHR ''u'' then
               (case hex4 t of
                  Some (r2, t') \<Rightarrow>
                    if r < 0xDC00 \<and> 0xDC00 \<le> r2 \<and> r2 < 0xE000
                    then (utf8_encode ((r - 0xD800) * 1024 + (r2 - 0xDC00) + 0x10000), t')
                    else (utf8_replacement, s)
                | None \<Rightarrow> (utf8_replacement, s))
             else (utf8_replacement, s))
        | _ \<Rightarrow> (utf8_replacement, s))"

definition simple_escape :: "char \<Rightarrow> char option" where
  "simple_escape e =
     (if e = dquote \<or> cp e = 92 \<or> cp e = 47 then Some e
      else if e = CHR ''b'' then Some (CHR 0x08)
      else if e = CHR ''f'' then Some (CHR 0x0C)
      else if e = CHR ''n'' then Some (CHR 0x0A)
      else if e = CHR ''r'' then Some (CHR 0x0D)
      else if e = CHR ''t'' then Some (CHR 0x09) else None)"

definition prepend :: "string \<Rightarrow> (string \<times> string) option \<Rightarrow> (string \<times> string) option" where
  "prepend p x = map_option (\<lambda>(t, r). (p @ t, r)) x"

lemma hex4_shorter: "hex4 s = Some (n, r) \<Longrightarrow> length r < length s"
  by (induction s rule: hex4.induct) (auto split: option.splits)

lemma unicode_escape_shorter: "length (snd (unicode_escape n s)) \<le> length s"
  by (auto simp: unicode_escape_def split: list.splits option.splits dest!: hex4_shorter)

text \<open>The characters of a string literal, from after its opening quote: the decoded text
  and what follows the closing quote.\<close>

function json_chars :: "string \<Rightarrow> (string \<times> string) option" where
  "json_chars [] = None"
| "json_chars (c # s) =
     (if c = dquote then Some ([], s)
      else if cp c = 92 then
        (case s of
           [] \<Rightarrow> None
         | e # r \<Rightarrow>
             (case simple_escape e of
                Some x \<Rightarrow> prepend [x] (json_chars r)
              | None \<Rightarrow>
                  if e = CHR ''u'' then
                    (case hex4 r of
                       None \<Rightarrow> None
                     | Some (n, r') \<Rightarrow>
                         prepend (fst (unicode_escape n r')) (json_chars (snd (unicode_escape n r'))))
                  else None))
      else if cp c < 32 then None
      else if cp c < 128 then prepend [c] (json_chars s)
      else if utf8_width (c # s) = 0 then prepend utf8_replacement (json_chars s)
      else prepend (take (utf8_width (c # s)) (c # s)) (json_chars (drop (utf8_width (c # s)) (c # s))))"
  by pat_completeness auto
termination
  by (relation "measure length")
    (auto dest!: hex4_shorter intro!: le_less_trans [OF unicode_escape_shorter])

declare json_chars.simps [simp del] json_body.simps [simp del]

definition json_literal :: "string \<Rightarrow> (string \<times> string) option" where
  "json_literal s = (case s of [] \<Rightarrow> None | c # r \<Rightarrow> if c = dquote then json_chars r else None)"

text \<open>An integer literal without fraction or exponent, within \<open>int64\<close>.\<close>

definition json_number :: "string \<Rightarrow> (int \<times> string) option" where
  "json_number s =
     (let neg = has_prefix ''-'' s;
          t = (if neg then drop 1 s else s);
          ds = takeWhile is_digit t;
          r = dropWhile is_digit t;
          v = (if neg then - int (digits_value ds) else int (digits_value ds))
      in if ds = [] \<or> (hd ds = CHR ''0'' \<and> length ds > 1) then None
         else if r \<noteq> [] \<and> (hd r = CHR ''.'' \<or> hd r = CHR ''e'' \<or> hd r = CHR ''E'') then None
         else if in_int64 v then Some (v, r) else None)"

definition json_value :: "string \<Rightarrow> (jval \<times> string) option" where
  "json_value s =
     (if has_prefix [dquote] s then map_option (\<lambda>(t, r). (JStr t, r)) (json_literal s)
      else if has_prefix ''null'' s then Some (JNull, drop 4 s)
      else if has_prefix ''true'' s then Some (JBool True, drop 4 s)
      else if has_prefix ''false'' s then Some (JBool False, drop 5 s)
      else map_option (\<lambda>(i, r). (JInt i, r)) (json_number s))"

text \<open>One \<open>"key": value\<close> member, white space around it skipped.\<close>

definition json_pair :: "string \<Rightarrow> ((string \<times> jval) \<times> string) option" where
  "json_pair s =
     (case json_literal (skip_ws s) of
        None \<Rightarrow> None
      | Some (k, r) \<Rightarrow>
          (case skip_ws r of
             [] \<Rightarrow> None
           | c # r' \<Rightarrow>
               if c \<noteq> CHR '':'' then None
               else case json_value (skip_ws r') of
                   None \<Rightarrow> None
                 | Some (v, t) \<Rightarrow> Some ((k, v), skip_ws t)))"

text \<open>The members after an opening brace, up to and including the closing one. The length
  test always holds (\<open>json_pair_shorter\<close>); it makes the recursion plainly terminating.\<close>

function json_members :: "string \<Rightarrow> ((string \<times> jval) list \<times> string) option" where
  "json_members s =
     (case json_pair s of
        None \<Rightarrow> None
      | Some (kv, r) \<Rightarrow>
          (case r of
             [] \<Rightarrow> None
           | c # r' \<Rightarrow>
               if c = CHR ''}'' then Some ([kv], r')
               else if c = CHR '','' \<and> length r' < length s then
                 map_option (\<lambda>(kvs, t). (kv # kvs, t)) (json_members r')
               else None))"
  by pat_completeness auto
termination
  by (relation "measure length") auto

declare json_members.simps [simp del]

text \<open>The document: \<open>null\<close> (which decodes into nothing) or one object, and nothing after it.\<close>

definition json_document :: "string \<Rightarrow> (string \<times> jval) list option" where
  "json_document s =
     (let t = skip_ws s in
      if has_prefix ''null'' t then (if skip_ws (drop 4 t) = [] then Some [] else None)
      else case t of
          [] \<Rightarrow> None
        | c # r \<Rightarrow>
            if c \<noteq> CHR ''{'' then None
            else if has_prefix ''}'' (skip_ws r)
              then (if skip_ws (drop 1 (skip_ws r)) = [] then Some [] else None)
            else case json_members r of
                None \<Rightarrow> None
              | Some (kvs, u) \<Rightarrow> if skip_ws u = [] then Some kvs else None)"

text \<open>Field names match case-insensitively; the Kelvin sign and the long s fold to \<open>k\<close> and \<open>s\<close>.\<close>

fun fold_name :: "string \<Rightarrow> string" where
  "fold_name (a # b # c # s) =
     (if [a, b, c] = [CHR 0xE2, CHR 0x84, CHR 0xAA] then CHR ''k'' # fold_name s
      else if [a, b] = [CHR 0xC5, CHR 0xBF] then CHR ''s'' # fold_name (c # s)
      else lower_char a # fold_name (b # c # s))"
| "fold_name [a, b] =
     (if [a, b] = [CHR 0xC5, CHR 0xBF] then ''s'' else [lower_char a, lower_char b])"
| "fold_name [a] = [lower_char a]"
| "fold_name [] = []"

subsection \<open>Decoding what was marshalled\<close>

lemma skip_ws_length: "length (skip_ws s) \<le> length s"
  by (simp add: skip_ws_def length_dropWhile_le)

lemma json_chars_shorter: "json_chars s = Some (t, r) \<Longrightarrow> length r < length s"
proof (induction "length s" arbitrary: s t rule: less_induct)
  case less
  have "s \<noteq> []" using less.prems by (auto simp: json_chars.simps)
  then obtain c u where s: "s = c # u" by (cases s) auto
  have "r = u \<or> (\<exists>s' t'. json_chars s' = Some (t', r) \<and> length s' < length s)"
    using less.prems unfolding s
    by (subst (asm) json_chars.simps)
      (auto simp: prepend_def split: if_splits list.splits option.splits dest!: hex4_shorter
        intro!: exI conjI le_less_trans [OF unicode_escape_shorter])
  then show ?case using less.hyps s by (auto intro: less_trans)
qed

definition ascii :: "string \<Rightarrow> bool" where
  "ascii s \<longleftrightarrow> (\<forall>c\<in>set s. cp c < 128)"

lemma ascii_simps [simp]:
  "ascii []" "ascii (c # s) \<longleftrightarrow> cp c < 128 \<and> ascii s" "ascii (s @ t) \<longleftrightarrow> ascii s \<and> ascii t"
  by (auto simp: ascii_def)

lemma json_chars_plain:
  "32 \<le> cp c \<Longrightarrow> cp c < 128 \<Longrightarrow> cp c \<noteq> 34 \<Longrightarrow> cp c \<noteq> 92 \<Longrightarrow>
     json_chars (c # s) = prepend [c] (json_chars s)"
  by (subst json_chars.simps) (auto simp: dquote_def)

lemma json_chars_escape:
  "simple_escape e = Some x \<Longrightarrow> json_chars (CHR 0x5C # e # s) = prepend [x] (json_chars s)"
  by (subst json_chars.simps) (simp add: dquote_def)

lemma hex_val_digit: "d < 16 \<Longrightarrow> hex_val (hex_digit d) = Some d"
proof -
  assume "d < 16"
  then have "d \<in> {0, 1, 2, 3, 4, 5, 6, 7, 8, 9, 10, 11, 12, 13, 14, 15}"
    by (simp add: eval_nat_numeral less_Suc_eq)
  then show ?thesis by (auto simp: hex_digit_def hex_val_def)
qed

lemma json_chars_u00:
  assumes "n < 128"
  shows "json_chars (CHR 0x5C # CHR ''u'' # CHR ''0'' # CHR ''0'' # hex_digit (n div 16)
      # hex_digit (n mod 16) # s) = prepend [char_of n] (json_chars s)"
proof -
  have "hex4 (CHR ''0'' # CHR ''0'' # hex_digit (n div 16) # hex_digit (n mod 16) # s) = Some (n, s)"
    using assms by (simp add: hex_val_digit hex_val_def [of "CHR ''0''"])
  moreover have "unicode_escape n s = ([char_of n], s)"
    using assms by (simp add: unicode_escape_def is_surrogate_def utf8_encode_def)
  moreover have "simple_escape (CHR ''u'') = None" by (simp add: simple_escape_def dquote_def)
  ultimately show ?thesis
    by (subst json_chars.simps) (simp add: dquote_def)
qed

lemma json_chars_ascii:
  assumes "cp c < 128"
  shows "json_chars (json_ascii c @ s) = prepend [c] (json_chars s)"
proof -
  have char: "c = d" if "cp c = cp d" for d :: char
    using that by (metis char_of_char)
  consider "cp c \<in> {34, 92}" | "cp c \<in> {8, 9, 10, 12, 13}"
    | "cp c \<notin> {34, 92, 8, 9, 10, 12, 13}" "cp c < 32 \<or> cp c \<in> {60, 62, 38}"
    | "cp c \<notin> {34, 92, 8, 9, 10, 12, 13}" "\<not> (cp c < 32 \<or> cp c \<in> {60, 62, 38})"
    by blast
  then show ?thesis
  proof cases
    case 1
    then have "simple_escape c = Some c"
      using char [of dquote] by (auto simp: simple_escape_def dquote_def)
    with 1 show ?thesis by (auto simp: json_ascii_def json_chars_escape)
  next
    case 2
    then have "c \<in> {CHR 0x08, CHR 0x09, CHR 0x0A, CHR 0x0C, CHR 0x0D}"
      using char [of "CHR 0x08"] char [of "CHR 0x09"] char [of "CHR 0x0A"] char [of "CHR 0x0C"]
        char [of "CHR 0x0D"] by auto
    then show ?thesis
      by (auto simp: json_ascii_def Let_def dquote_def
          intro!: json_chars_escape simp: simple_escape_def)
  next
    case 3
    then have "json_ascii c = [CHR 0x5C, CHR ''u'', CHR ''0'', CHR ''0'', hex_digit (cp c div 16), hex_digit (cp c mod 16)]"
      by (auto simp: json_ascii_def Let_def)
    with json_chars_u00 [OF assms, of s] show ?thesis by simp
  next
    case 4
    then have "json_ascii c = [c]" by (auto simp: json_ascii_def Let_def)
    with 4 assms show ?thesis by (simp add: json_chars_plain)
  qed
qed

lemma json_chars_body:
  "ascii s \<Longrightarrow> json_chars (json_body s @ dquote # r) = Some (s, r)"
proof (induction s)
  case Nil
  show ?case by (simp add: json_body.simps json_chars.simps(2) [of dquote r])
next
  case (Cons c s)
  then show ?case
    by (simp add: json_body.simps(2) [of c s] json_chars_ascii prepend_def)
qed

lemma json_literal_string: "ascii s \<Longrightarrow> json_literal (json_string s @ r) = Some (s, r)"
  by (simp add: json_literal_def json_string_def json_chars_body)

lemma fmt_nat_leading_zero: "hd (fmt_nat n) = CHR ''0'' \<Longrightarrow> length (fmt_nat n) = 1"
proof (induction n rule: fmt_nat.induct)
  case (1 n)
  show ?case
  proof (cases "n < 10")
    case True
    then show ?thesis by (simp add: fmt_nat_small)
  next
    case False
    have "fmt_nat (n div 10) \<noteq> []" using fmt_nat_digits by blast
    with "1.prems" False have hd0: "hd (fmt_nat (n div 10)) = CHR ''0''"
      by (simp add: fmt_nat_big)
    with "1.IH" False have "length (fmt_nat (n div 10)) = 1" by blast
    with hd0 have "fmt_nat (n div 10) = ''0''" by (cases "fmt_nat (n div 10)") auto
    then have "digits_value (fmt_nat (n div 10)) = 0" by (simp add: digits_value_def)
    with False show ?thesis by (simp add: digits_value_fmt_nat)
  qed
qed

definition value_end :: "string \<Rightarrow> bool" where
  "value_end r \<longleftrightarrow> (\<exists>c t. r = c # t \<and> (c = CHR '','' \<or> c = CHR ''}''))"

lemma json_number_fmt_int:
  assumes "in_int64 i" and "value_end r"
  shows "json_number (fmt_int i @ r) = Some (i, r)"
proof -
  let ?ds = "fmt_nat (nat \<bar>i\<bar>)"
  have nd: "r \<noteq> []" "\<not> is_digit (hd r)" "hd r \<noteq> CHR ''.''" "hd r \<noteq> CHR ''e''" "hd r \<noteq> CHR ''E''"
    using assms(2) by (auto simp: value_end_def is_digit_def)
  have ds: "list_all is_digit ?ds" "?ds \<noteq> []" using fmt_nat_digits by auto
  then have tw: "takeWhile is_digit (?ds @ r) = ?ds" "dropWhile is_digit (?ds @ r) = r"
    using nd by (cases r; simp add: list_all_iff takeWhile_append dropWhile_append)+
  have "is_digit (hd ?ds)" using ds by (cases ?ds) auto
  then have "hd ?ds \<noteq> CHR ''-''" by (auto simp: is_digit_def)
  with ds(2) have np: "\<not> has_prefix ''-'' (?ds @ r)" by (cases ?ds) (auto simp: has_prefix_def)
  have z: "\<not> (hd ?ds = CHR ''0'' \<and> 1 < length ?ds)" using fmt_nat_leading_zero by fastforce
  show ?thesis
  proof (cases "i < 0")
    case True
    then have e: "nat \<bar>i\<bar> = nat (- i)" by simp
    have "fmt_int i @ r = CHR ''-'' # ?ds @ r" using True by (simp add: fmt_int_def e)
    then show ?thesis
      using True tw ds z nd assms(1) by (simp add: json_number_def has_prefix_def Let_def digits_value_fmt_nat e)
  next
    case False
    then have e: "nat \<bar>i\<bar> = nat i" by simp
    have "fmt_int i @ r = ?ds @ r" using False by (simp add: fmt_int_def e)
    then show ?thesis
      using False tw ds z nd np assms(1) by (simp add: json_number_def Let_def digits_value_fmt_nat e)
  qed
qed

fun jval_ok :: "jval \<Rightarrow> bool" where
  "jval_ok (JStr s) = ascii s"
| "jval_ok (JInt i) = in_int64 i"
| "jval_ok (JBool b) = True"
| "jval_ok JNull = True"

lemma fmt_int_head: "\<exists>c s. fmt_int i = c # s \<and> (c = CHR ''-'' \<or> is_digit c)"
proof (cases "i < 0")
  case True
  then show ?thesis by (simp add: fmt_int_def)
next
  case False
  obtain c s where "fmt_nat (nat i) = c # s" using fmt_nat_digits [of "nat i"] by (cases "fmt_nat (nat i)") auto
  with False fmt_nat_digits [of "nat i"] show ?thesis by (auto simp: fmt_int_def)
qed

lemma json_value_val: "jval_ok v \<Longrightarrow> value_end r \<Longrightarrow> json_value (json_val v @ r) = Some (v, r)"
proof (cases v)
  case (JStr s)
  assume "jval_ok v"
  then show ?thesis
    using json_literal_string [of s r] by (simp add: JStr json_value_def json_string_def has_prefix_def)
next
  case (JInt i)
  assume "jval_ok v" "value_end r"
  moreover from fmt_int_head [of i] have "\<not> has_prefix [dquote] (fmt_int i @ r)"
    "\<not> has_prefix ''null'' (fmt_int i @ r)" "\<not> has_prefix ''true'' (fmt_int i @ r)" "\<not> has_prefix ''false'' (fmt_int i @ r)"
    by (auto simp: has_prefix_def dquote_def is_digit_def)
  ultimately show ?thesis by (simp add: JInt json_value_def json_number_fmt_int)
qed (auto simp: json_value_def has_prefix_def dquote_def)

lemma skip_ws_dquote [simp]: "skip_ws (json_string s @ r) = json_string s @ r"
  by (simp add: json_string_def skip_ws_def json_space_def dquote_def)

lemma skip_ws_colon [simp]: "skip_ws (CHR '':'' # r) = CHR '':'' # r"
  by (simp add: skip_ws_def json_space_def)

lemma skip_ws_value_end: "value_end r \<Longrightarrow> skip_ws r = r"
  by (auto simp: value_end_def skip_ws_def json_space_def)

lemma skip_ws_val [simp]: "skip_ws (json_val v @ r) = json_val v @ r"
proof (cases v)
  case (JInt i)
  with fmt_int_head [of i] show ?thesis by (auto simp: skip_ws_def json_space_def is_digit_def)
qed (simp_all add: skip_ws_def json_space_def json_string_def dquote_def)

lemma json_pair_member:
  "ascii k \<Longrightarrow> jval_ok v \<Longrightarrow> value_end r \<Longrightarrow> json_pair (json_member (k, v) @ r) = Some ((k, v), r)"
  by (simp add: json_pair_def json_member_def json_literal_string json_value_val skip_ws_value_end)

lemma json_members_join:
  "list_all (\<lambda>(k, v). ascii k \<and> jval_ok v) (kv # kvs) \<Longrightarrow>
     json_members (join '','' (map json_member (kv # kvs)) @ CHR ''}'' # r) = Some (kv # kvs, r)"
proof (induction kvs arbitrary: kv)
  case Nil
  have "value_end (CHR ''}'' # r)" by (simp add: value_end_def)
  with Nil show ?case
    by (subst json_members.simps) (auto simp: json_pair_member split: prod.splits)
next
  case (Cons kv2 kvs)
  let ?rest = "join '','' (map json_member (kv2 # kvs)) @ CHR ''}'' # r"
  have e: "join '','' (map json_member (kv # kv2 # kvs)) @ CHR ''}'' # r
      = json_member kv @ CHR '','' # ?rest" by simp
  have "value_end (CHR '','' # ?rest)" by (simp add: value_end_def)
  then have "json_pair (json_member kv @ CHR '','' # ?rest) = Some (kv, CHR '','' # ?rest)"
    using Cons.prems by (cases kv) (simp add: json_pair_member del: map_append append_assoc)
  moreover have "json_members ?rest = Some (kv2 # kvs, r)"
    using Cons.prems by (intro Cons.IH) simp
  ultimately show ?case unfolding e by (subst json_members.simps) simp
qed

lemma json_document_object_end:
  assumes "list_all (\<lambda>(k, v). ascii k \<and> jval_ok v) kvs" and "kvs \<noteq> []" and "skip_ws r = []"
  shows "json_document (json_object kvs @ r) = Some kvs"
proof -
  obtain kv kvs' where k: "kvs = kv # kvs'" using assms(2) by (cases kvs) auto
  let ?body = "join '','' (map json_member kvs) @ CHR ''}'' # r"
  have m: "json_members ?body = Some (kvs, r)"
    using json_members_join [of kv kvs' r] assms(1) unfolding k by simp
  have h: "\<exists>t. ?body = dquote # t"
    by (cases kvs') (auto simp: k json_member_def json_string_def)
  then have "\<not> has_prefix ''}'' (skip_ws ?body)"
    by (auto simp: has_prefix_def skip_ws_def json_space_def dquote_def)
  moreover have "skip_ws (CHR ''{'' # ?body) = CHR ''{'' # ?body"
    by (simp add: skip_ws_def json_space_def)
  ultimately show ?thesis
    using m assms(3) by (simp add: json_document_def json_object_def has_prefix_def)
qed

lemma json_document_object:
  "list_all (\<lambda>(k, v). ascii k \<and> jval_ok v) kvs \<Longrightarrow> kvs \<noteq> [] \<Longrightarrow> json_document (json_object kvs) = Some kvs"
  using json_document_object_end [of kvs "[]"] by (simp add: skip_ws_def)

end
