(* ===== verification/Wif_Jwt.thy ===== *)
theory Wif_Jwt
  imports Wif_Jwks Json
begin

text \<open>
  \<open>internal/wif/jwt.go\<close>: the provider identity and its audiences, construction of the fixed
  claim set, the RS256 signing input, assembly of the compact JWS, and the strict
  verification a receiver applies to a forwarded assertion.
\<close>

definition TokenType :: string where
  "TokenType = ''urn:ietf:params:oauth:token-type:id_token''"

definition SubjectPrefix :: string where "SubjectPrefix = ''pivb-key:''"
definition DefaultLifetime :: duration where [go_eval]: "DefaultLifetime = 300 * second"
definition MaxLifetime :: duration where [go_eval]: "MaxLifetime = 3600 * second"
definition ClockSkew :: duration where [go_eval]: "ClockSkew = 30 * second"

record provider =
  pv_project :: string
  pv_pool :: string
  pv_provider :: string
  pv_issuer :: string

definition Resource :: "provider \<Rightarrow> string" where
  "Resource p = ''projects/'' @ pv_project p @ ''/locations/global/workloadIdentityPools/''
     @ pv_pool p @ ''/providers/'' @ pv_provider p"

definition ExternalAccountAudience :: "provider \<Rightarrow> string" where
  "ExternalAccountAudience p = ''//iam.googleapis.com/'' @ Resource p"

definition OIDCAudience :: "provider \<Rightarrow> string" where
  "OIDCAudience p = ''https://iam.googleapis.com/'' @ Resource p"

record jws_header =
  jh_alg :: string
  jh_typ :: string
  jh_kid :: string

record claims =
  cl_iss :: string
  cl_sub :: string
  cl_aud :: string
  cl_iat :: int
  cl_exp :: int
  cl_jti :: string
  cl_alias :: string
  cl_target :: string
  cl_serial :: string
  cl_key_id :: string

record verified_token =
  vt_header_kid :: string
  vt_claims :: claims
  vt_public :: rsa_pub

definition ExpiresAt :: "claims \<Rightarrow> gotime" where
  "ExpiresAt c = time_unix (cl_exp c)"

text \<open>\<open>NewJTI\<close>: the argument is what \<open>io.ReadFull\<close> read from the random source, 16 bytes
  or an error.\<close>

definition NewJTI :: "bytes res \<Rightarrow> string res" where
  "NewJTI random =
     (case random of Inl e \<Rightarrow> Inl (ErrWrap ''generate jti: '' e) | Inr b \<Rightarrow> Inr (b64_encode b))"

definition NewClaims :: "provider \<Rightarrow> string \<Rightarrow> string \<Rightarrow> u32 \<Rightarrow> string \<Rightarrow> string \<Rightarrow> gotime \<Rightarrow>
    duration \<Rightarrow> claims res" where
  "NewClaims p alias target serial keyID jti now lifetime =
     (if pv_project p = [] \<or> pv_pool p = [] \<or> pv_provider p = []
      then Inl (ErrText ''wif provider is incompletely configured'')
      else if pv_issuer p = [] then Inl (ErrText ''wif issuer_uri is not configured'')
      else if alias = [] \<or> target = []
      then Inl (ErrText ''subject-token alias and target are required'')
      else if serial = 0 then Inl (ErrText ''subject-token serial must be nonzero'')
      else if keyID = [] then Inl (ErrText ''subject-token key ID is required'')
      else if jti = [] then Inl (ErrText ''subject-token jti is required'')
      else if now = zero_time then Inl (ErrText ''subject-token signing time is required'')
      else if lifetime < DefaultLifetime \<or> lifetime > MaxLifetime
      then Inl (ErrText (''subject-token lifetime '' @ duration_string lifetime
        @ '' is outside the permitted '' @ duration_string DefaultLifetime @ ''..''
        @ duration_string MaxLifetime))
      else
        let iat = unix_of (time_add now (- ClockSkew)) in
        Inr \<lparr>cl_iss = pv_issuer p, cl_sub = SubjectPrefix @ keyID, cl_aud = OIDCAudience p,
             cl_iat = iat, cl_exp = wrap64 (iat + dur_in_seconds lifetime), cl_jti = jti,
             cl_alias = alias, cl_target = target, cl_serial = fmt_nat (unat serial), cl_key_id = keyID\<rparr>)"

definition header_fields :: "string \<Rightarrow> (string \<times> jval) list" where
  "header_fields kid = [(''alg'', JStr ''RS256''), (''typ'', JStr ''JWT''), (''kid'', JStr kid)]"

definition claims_fields :: "claims \<Rightarrow> (string \<times> jval) list" where
  "claims_fields c =
     [(''iss'', JStr (cl_iss c)), (''sub'', JStr (cl_sub c)), (''aud'', JStr (cl_aud c)),
      (''iat'', JInt (cl_iat c)), (''exp'', JInt (cl_exp c)), (''jti'', JStr (cl_jti c)),
      (''alias'', JStr (cl_alias c)), (''target'', JStr (cl_target c)),
      (''serial'', JStr (cl_serial c)), (''key_id'', JStr (cl_key_id c))]"

definition SigningInput :: "claims \<Rightarrow> string res" where
  "SigningInput c =
     (if cl_key_id c = [] then Inl (ErrText ''claims have no key ID'')
      else Inr (b64_encode (json_object (header_fields (cl_key_id c))) @ ''.''
                  @ b64_encode (json_object (claims_fields c))))"

definition SigningDigest :: "crypto \<Rightarrow> string \<Rightarrow> bytes" where
  "SigningDigest cr input = cr_sha256 cr input"

definition Assemble :: "string \<Rightarrow> bytes \<Rightarrow> string res" where
  "Assemble input signature =
     (if input = [] then Inl (ErrText ''empty JWS signing input'')
      else if signature = [] then Inl (ErrText ''empty RS256 signature'')
      else Inr (input @ ''.'' @ b64_encode signature))"

subsection \<open>Verification of a forwarded assertion\<close>

definition set_text :: "(string \<Rightarrow> 's) \<Rightarrow> 's \<Rightarrow> jval \<Rightarrow> 's option" where
  "set_text upd old v = (case v of JStr s \<Rightarrow> Some (upd s) | JNull \<Rightarrow> Some old | _ \<Rightarrow> None)"

definition set_number :: "(int \<Rightarrow> 's) \<Rightarrow> 's \<Rightarrow> jval \<Rightarrow> 's option" where
  "set_number upd old v = (case v of JInt i \<Rightarrow> Some (upd i) | JNull \<Rightarrow> Some old | _ \<Rightarrow> None)"

definition header_step :: "jws_header \<Rightarrow> string \<times> jval \<Rightarrow> jws_header option" where
  "header_step h kv =
     (let k = fold_name (fst kv); v = snd kv in
      if k = ''alg'' then set_text (\<lambda>s. h\<lparr>jh_alg := s\<rparr>) h v
      else if k = ''typ'' then set_text (\<lambda>s. h\<lparr>jh_typ := s\<rparr>) h v
      else if k = ''kid'' then set_text (\<lambda>s. h\<lparr>jh_kid := s\<rparr>) h v
      else None)"

definition claims_step :: "claims \<Rightarrow> string \<times> jval \<Rightarrow> claims option" where
  "claims_step c kv =
     (let k = fold_name (fst kv); v = snd kv in
      if k = ''iss'' then set_text (\<lambda>s. c\<lparr>cl_iss := s\<rparr>) c v
      else if k = ''sub'' then set_text (\<lambda>s. c\<lparr>cl_sub := s\<rparr>) c v
      else if k = ''aud'' then set_text (\<lambda>s. c\<lparr>cl_aud := s\<rparr>) c v
      else if k = ''iat'' then set_number (\<lambda>i. c\<lparr>cl_iat := i\<rparr>) c v
      else if k = ''exp'' then set_number (\<lambda>i. c\<lparr>cl_exp := i\<rparr>) c v
      else if k = ''jti'' then set_text (\<lambda>s. c\<lparr>cl_jti := s\<rparr>) c v
      else if k = ''alias'' then set_text (\<lambda>s. c\<lparr>cl_alias := s\<rparr>) c v
      else if k = ''target'' then set_text (\<lambda>s. c\<lparr>cl_target := s\<rparr>) c v
      else if k = ''serial'' then set_text (\<lambda>s. c\<lparr>cl_serial := s\<rparr>) c v
      else if k = ''key_id'' then set_text (\<lambda>s. c\<lparr>cl_key_id := s\<rparr>) c v
      else None)"

primrec decode_fields :: "('s \<Rightarrow> string \<times> jval \<Rightarrow> 's option) \<Rightarrow> 's \<Rightarrow> (string \<times> jval) list \<Rightarrow> 's option" where
  "decode_fields step s [] = Some s"
| "decode_fields step s (kv # kvs) =
     (case step s kv of None \<Rightarrow> None | Some s' \<Rightarrow> decode_fields step s' kvs)"

definition empty_header :: jws_header where
  "empty_header = \<lparr>jh_alg = [], jh_typ = [], jh_kid = []\<rparr>"

definition empty_claims :: claims where
  "empty_claims = \<lparr>cl_iss = [], cl_sub = [], cl_aud = [], cl_iat = 0, cl_exp = 0, cl_jti = [],
     cl_alias = [], cl_target = [], cl_serial = [], cl_key_id = []\<rparr>"

definition decode_part :: "string \<Rightarrow> ('s \<Rightarrow> string \<times> jval \<Rightarrow> 's option) \<Rightarrow> 's \<Rightarrow> string \<Rightarrow> 's res" where
  "decode_part label step init encoded =
     (case b64_decode encoded of
        None \<Rightarrow> Inl (ErrText (''decode forwarded '' @ label))
      | Some raw \<Rightarrow>
          (case json_document raw of
             None \<Rightarrow> Inl (ErrText (''decode forwarded '' @ label @ '' JSON''))
           | Some kvs \<Rightarrow>
               (case decode_fields step init kvs of
                  None \<Rightarrow> Inl (ErrText (''decode forwarded '' @ label @ '' JSON''))
                | Some s \<Rightarrow> Inr s)))"

definition VerifyForwarded :: "crypto \<Rightarrow> string \<Rightarrow> bytes \<Rightarrow> verified_token res" where
  "VerifyForwarded cr token spki =
     (case split_on (CHR ''.'') token of
        [p0, p1, p2] \<Rightarrow>
          (case decode_part ''header'' header_step empty_header p0 of
             Inl e \<Rightarrow> Inl e
           | Inr h \<Rightarrow>
          if jh_alg h \<noteq> ''RS256'' \<or> jh_typ h \<noteq> ''JWT'' \<or> jh_kid h = []
          then Inl (ErrText ''forwarded JWS header must be alg=RS256, typ=JWT, and carry kid'')
          else
          (case decode_part ''claims'' claims_step empty_claims p1 of
             Inl e \<Rightarrow> Inl e
           | Inr c \<Rightarrow>
          (case cr_parse_pkix cr spki of
             Inl e \<Rightarrow> Inl (ErrWrap ''parse forwarded SubjectPublicKeyInfo: '' e)
           | Inr (OtherKey t) \<Rightarrow> Inl (ErrText ''forwarded public key is not RSA-2048/F4'')
           | Inr (RSAKey pub) \<Rightarrow>
          if bit_len (rsa_n pub) \<noteq> 2048 \<or> rsa_e pub \<noteq> rsaPublicExponent
          then Inl (ErrText ''forwarded public key is not RSA-2048/F4'')
          else
          (case KeyID cr pub of
             Inl e \<Rightarrow> Inl e
           | Inr kid \<Rightarrow>
          if jh_kid h \<noteq> kid \<or> cl_key_id c \<noteq> kid
          then Inl (ErrText (''forwarded key identity mismatch: header='' @ go_quote (jh_kid h)
            @ '' claims='' @ go_quote (cl_key_id c) @ '' spki='' @ go_quote kid))
          else
          (case b64_decode p2 of
             None \<Rightarrow> Inl (ErrText ''decode forwarded signature'')
           | Some signature \<Rightarrow>
          (case cr_verify cr pub (cr_sha256 cr (p0 @ ''.'' @ p1)) signature of
             Some e \<Rightarrow> Inl (ErrWrap ''verify forwarded RS256 signature: '' e)
           | None \<Rightarrow> Inr \<lparr>vt_header_kid = jh_kid h, vt_claims = c, vt_public = pub\<rparr>))))))
      | _ \<Rightarrow> Inl (ErrText ''forwarded subject token is not a three-part compact JWS''))"

subsection \<open>Claim construction\<close>

lemma unix_of_backdated:
  assumes "clock_ok now" and "ClockSkew \<le> now"
  shows "unix_of (time_add now (- ClockSkew)) = now div second - unix_to_internal - 30"
proof -
  have "dur_ok (- ClockSkew)" by (simp add: dur_ok_def ClockSkew_def)
  with assms have t: "time_add now (- ClockSkew) = now - 30 * second"
    by (simp add: time_add_clock ClockSkew_def)
  have "clock_ok (now - 30 * second)" using assms by (simp add: clock_ok_def ClockSkew_def)
  moreover have "(now - 30 * second) div second = now div second - 30"
    using div_mult_self1 [of second now "- 30"] by simp
  ultimately show ?thesis unfolding t by (simp add: unix_of_exact)
qed

lemma dur_in_seconds_range:
  "DefaultLifetime \<le> d \<Longrightarrow> d \<le> MaxLifetime \<Longrightarrow>
     dur_in_seconds d = d div second \<and> 300 \<le> d div second \<and> d div second \<le> 3600"
  by (auto simp: DefaultLifetime_def MaxLifetime_def dur_in_seconds_def)

lemma expiry_range:
  fixes now q r l :: int
  assumes "now = q * second + r" and "0 \<le> r" and "r < second" and "300 \<le> l" and "l \<le> 3600"
  shows "now + 269 * second \<le> (q - 30 + l) * second \<and> (q - 30 + l) * second \<le> now + 3570 * second"
  using assms by simp

lemma NewClaims_signed:
  assumes "clock_ok now" and "ClockSkew \<le> now"
    and "NewClaims p alias target serial kid jti now lifetime = Inr c"
  shows "c = \<lparr>cl_iss = pv_issuer p, cl_sub = SubjectPrefix @ kid, cl_aud = OIDCAudience p,
      cl_iat = now div second - unix_to_internal - 30, cl_exp = cl_iat c + lifetime div second, cl_jti = jti, cl_alias = alias,
      cl_target = target, cl_serial = fmt_nat (unat serial), cl_key_id = kid\<rparr>"
    and "300 * second \<le> lifetime \<and> lifetime \<le> 3600 * second"
    and "kid \<noteq> [] \<and> jti \<noteq> [] \<and> alias \<noteq> [] \<and> target \<noteq> [] \<and> serial \<noteq> 0"
    and "now + 269 * second \<le> ExpiresAt c \<and> ExpiresAt c \<le> now + 3570 * second"
proof -
  let ?iat = "now div second - unix_to_internal - 30"
  from assms(3) have r: "DefaultLifetime \<le> lifetime" "lifetime \<le> MaxLifetime"
    by (auto simp: NewClaims_def split: if_splits)
  then show "300 * second \<le> lifetime \<and> lifetime \<le> 3600 * second"
    by (simp add: DefaultLifetime_def MaxLifetime_def)
  from dur_in_seconds_range [OF r] have d: "dur_in_seconds lifetime = lifetime div second"
    "300 \<le> lifetime div second" "lifetime div second \<le> 3600" by blast+
  have n: "30 \<le> now div second" "now div second < 2 ^ 62"
    using assms(1,2) by (auto simp: clock_ok_def ClockSkew_def)
  then have w: "wrap64 (?iat + lifetime div second) = ?iat + lifetime div second"
    using d by (intro wrap64_exact) (simp add: in_int64_def)
  have c: "c = \<lparr>cl_iss = pv_issuer p, cl_sub = SubjectPrefix @ kid, cl_aud = OIDCAudience p,
      cl_iat = ?iat, cl_exp = ?iat + lifetime div second, cl_jti = jti, cl_alias = alias,
      cl_target = target, cl_serial = fmt_nat (unat serial), cl_key_id = kid\<rparr>"
    using assms by (auto simp: NewClaims_def Let_def unix_of_backdated d w [simplified] split: if_splits)
  then show "c = \<lparr>cl_iss = pv_issuer p, cl_sub = SubjectPrefix @ kid, cl_aud = OIDCAudience p,
      cl_iat = ?iat, cl_exp = cl_iat c + lifetime div second, cl_jti = jti, cl_alias = alias,
      cl_target = target, cl_serial = fmt_nat (unat serial), cl_key_id = kid\<rparr>" by simp
  have "in_int64 (now div second - 30 + lifetime div second)" using n d by (simp add: in_int64_def)
  then have e: "ExpiresAt c = (now div second - 30 + lifetime div second) * second"
    by (simp add: c ExpiresAt_def time_unix_def wrap64_exact algebra_simps)
  have now: "now = now div second * second + now mod second" "0 \<le> now mod second" "now mod second < second"
    by simp_all
  show "now + 269 * second \<le> ExpiresAt c \<and> ExpiresAt c \<le> now + 3570 * second"
    unfolding e by (rule expiry_range [OF now d(2,3)])
  show "kid \<noteq> [] \<and> jti \<noteq> [] \<and> alias \<noteq> [] \<and> target \<noteq> [] \<and> serial \<noteq> 0"
    using assms(3) by (auto simp: NewClaims_def split: if_splits)
qed

text \<open>What one signature can be made to say. When \<open>NewClaims\<close> returns a claim set its
  identity claims are derived from the arguments alone (issuer and audience from the
  provider, subject from the key ID, serial in decimal), every one of them is nonempty,
  it expires at least 269 and at most 3570 seconds after the signing instant, and it is
  backdated by exactly one clock skew; and it refuses every lifetime outside 300..3600 s.\<close>

lemma NewClaims_bounds:
  assumes "clock_ok now" and "ClockSkew \<le> now"
    and "NewClaims p alias target serial kid jti now lifetime = Inr c"
  shows "cl_iss c = pv_issuer p \<and> cl_aud c = OIDCAudience p \<and> cl_sub c = SubjectPrefix @ kid \<and>
    cl_key_id c = kid \<and> kid \<noteq> [] \<and> cl_jti c = jti \<and> jti \<noteq> [] \<and>
    cl_alias c = alias \<and> alias \<noteq> [] \<and> cl_target c = target \<and> target \<noteq> [] \<and>
    parse_uint 32 (cl_serial c) = Some (unat serial) \<and> serial \<noteq> 0 \<and>
    cl_iat c = now div second - unix_to_internal - 30 \<and>
    cl_exp c - cl_iat c = lifetime div second \<and> 300 * second \<le> lifetime \<and> lifetime \<le> 3600 * second \<and>
    now + 269 * second \<le> ExpiresAt c \<and> ExpiresAt c \<le> now + 3570 * second"
proof -
  note n = NewClaims_signed [OF assms]
  have "unat serial < 2 ^ 32" using unsigned_less [of serial] by simp
  then have "parse_uint 32 (fmt_nat (unat serial)) = Some (unat serial)" by (rule parse_uint_fmt_nat)
  with n(2-4) show ?thesis by (subst (1 2 3 4 5 6 7 8 9 10) n(1)) simp
qed

definition demo_provider :: provider where
  "demo_provider = \<lparr>pv_project = ''1'', pv_pool = ''pool'', pv_provider = ''prov'', pv_issuer = ''https://i''\<rparr>"

subsection \<open>What verification guarantees\<close>

lemma decode_part_Inr:
  "decode_part label step init encoded = Inr s \<longleftrightarrow>
     (\<exists>raw kvs. b64_decode encoded = Some raw \<and> json_document raw = Some kvs \<and>
        decode_fields step init kvs = Some s)"
  by (auto simp: decode_part_def split: option.splits)

lemma split_on_three:
  "split_on c s = [p0, p1, p2] \<longleftrightarrow>
     s = p0 @ c # p1 @ c # p2 \<and> c \<notin> set p0 \<and> c \<notin> set p1 \<and> c \<notin> set p2"
proof
  assume h: "split_on c s = [p0, p1, p2]"
  then have "s = join [c] [p0, p1, p2]" by (metis split_on_join)
  moreover have "c \<notin> set p" if "p \<in> {p0, p1, p2}" for p
    using that h split_on_no_sep [of p c s] by auto
  ultimately show "s = p0 @ c # p1 @ c # p2 \<and> c \<notin> set p0 \<and> c \<notin> set p1 \<and> c \<notin> set p2" by simp
next
  assume "s = p0 @ c # p1 @ c # p2 \<and> c \<notin> set p0 \<and> c \<notin> set p1 \<and> c \<notin> set p2"
  then show "split_on c s = [p0, p1, p2]" by (simp add: split_on_append split_on_plain)
qed

lemma VerifyForwarded_Inr:
  "VerifyForwarded cr token spki = Inr v \<longleftrightarrow>
     (\<exists>p0 p1 p2 signature.
        split_on (CHR ''.'') token = [p0, p1, p2] \<and>
        decode_part ''header'' header_step empty_header p0 =
          Inr \<lparr>jh_alg = ''RS256'', jh_typ = ''JWT'', jh_kid = vt_header_kid v\<rparr> \<and>
        vt_header_kid v \<noteq> [] \<and>
        decode_part ''claims'' claims_step empty_claims p1 = Inr (vt_claims v) \<and>
        cr_parse_pkix cr spki = Inr (RSAKey (vt_public v)) \<and>
        bit_len (rsa_n (vt_public v)) = 2048 \<and> rsa_e (vt_public v) = rsaPublicExponent \<and>
        KeyID cr (vt_public v) = Inr (vt_header_kid v) \<and> cl_key_id (vt_claims v) = vt_header_kid v \<and>
        b64_decode p2 = Some signature \<and>
        cr_verify cr (vt_public v) (cr_sha256 cr (p0 @ ''.'' @ p1)) signature = None)"
proof
  assume "VerifyForwarded cr token spki = Inr v"
  then show "\<exists>p0 p1 p2 signature.
        split_on (CHR ''.'') token = [p0, p1, p2] \<and>
        decode_part ''header'' header_step empty_header p0 =
          Inr \<lparr>jh_alg = ''RS256'', jh_typ = ''JWT'', jh_kid = vt_header_kid v\<rparr> \<and>
        vt_header_kid v \<noteq> [] \<and>
        decode_part ''claims'' claims_step empty_claims p1 = Inr (vt_claims v) \<and>
        cr_parse_pkix cr spki = Inr (RSAKey (vt_public v)) \<and>
        bit_len (rsa_n (vt_public v)) = 2048 \<and> rsa_e (vt_public v) = rsaPublicExponent \<and>
        KeyID cr (vt_public v) = Inr (vt_header_kid v) \<and> cl_key_id (vt_claims v) = vt_header_kid v \<and>
        b64_decode p2 = Some signature \<and>
        cr_verify cr (vt_public v) (cr_sha256 cr (p0 @ ''.'' @ p1)) signature = None"
    by (auto simp: VerifyForwarded_def split: list.splits sum.splits public_key.splits if_splits option.splits)
qed (cases v, auto simp: VerifyForwarded_def)

text \<open>C24: an accepted assertion was signed by the key it names. If \<open>VerifyForwarded\<close> accepts
  a token under a public key, the token is \<open>header.claims.signature\<close>, the key is RSA-2048/F4,
  the key ID in the claims and in the header is the hash of that very key, and the
  signature verifies over the hash of exactly the bytes \<open>header.claims\<close> of the token.\<close>

theorem VerifyForwarded_sound:
  assumes "VerifyForwarded cr token spki = Inr v"
  shows "\<exists>p0 p1 p2 signature der.
    token = p0 @ ''.'' @ p1 @ ''.'' @ p2 \<and> CHR ''.'' \<notin> set p0 \<and> CHR ''.'' \<notin> set p1 \<and>
    cr_parse_pkix cr spki = Inr (RSAKey (vt_public v)) \<and>
    2 ^ 2047 \<le> rsa_n (vt_public v) \<and> rsa_n (vt_public v) < 2 ^ 2048 \<and> rsa_e (vt_public v) = 65537 \<and>
    cr_marshal_pkix cr (vt_public v) = Inr der \<and>
    vt_header_kid v = b64_encode (cr_sha256 cr der) \<and> cl_key_id (vt_claims v) = vt_header_kid v \<and>
    b64_decode p2 = Some signature \<and>
    cr_verify cr (vt_public v) (cr_sha256 cr (p0 @ ''.'' @ p1)) signature = None"
proof -
  from assms obtain p0 p1 p2 signature where
    sp: "split_on (CHR ''.'') token = [p0, p1, p2]" and pk: "cr_parse_pkix cr spki = Inr (RSAKey (vt_public v))"
    and b: "bit_len (rsa_n (vt_public v)) = 2048" "rsa_e (vt_public v) = rsaPublicExponent"
    and k: "KeyID cr (vt_public v) = Inr (vt_header_kid v)" "cl_key_id (vt_claims v) = vt_header_kid v"
    and s: "b64_decode p2 = Some signature"
    and vf: "cr_verify cr (vt_public v) (cr_sha256 cr (p0 @ ''.'' @ p1)) signature = None"
    unfolding VerifyForwarded_Inr by blast
  from k(1) obtain der where "cr_marshal_pkix cr (vt_public v) = Inr der"
    "vt_header_kid v = b64_encode (cr_sha256 cr der)"
    by (auto simp: KeyID_def split: sum.splits)
  moreover have "2 ^ 2047 \<le> rsa_n (vt_public v) \<and> rsa_n (vt_public v) < 2 ^ 2048"
    using b(1) bit_len_bounds [of "rsa_n (vt_public v)" 2047] by (simp del: power_numeral)
  ultimately show ?thesis
    using sp pk b(2) k(2) s vf unfolding split_on_three
    by (intro exI [of _ p0] exI [of _ p1] exI [of _ p2] exI [of _ signature] exI [of _ der])
      (simp add: rsaPublicExponent_def del: power_numeral)
qed

lemma decode_header_fields: "decode_fields header_step empty_header (header_fields kid) =
    Some \<lparr>jh_alg = ''RS256'', jh_typ = ''JWT'', jh_kid = kid\<rparr>"
  by (simp add: header_fields_def header_step_def empty_header_def set_text_def Let_def
      lower_char_def char_defs)

lemma decode_claims_fields: "decode_fields claims_step empty_claims (claims_fields c) = Some c"
  by (cases c) (simp add: claims_fields_def claims_step_def empty_claims_def set_text_def set_number_def
      Let_def lower_char_def char_defs)

definition claims_ascii :: "claims \<Rightarrow> bool" where
  "claims_ascii c \<longleftrightarrow> ascii (cl_iss c) \<and> ascii (cl_sub c) \<and> ascii (cl_aud c) \<and> ascii (cl_jti c) \<and>
     ascii (cl_alias c) \<and> ascii (cl_target c) \<and> ascii (cl_serial c) \<and> ascii (cl_key_id c) \<and>
     in_int64 (cl_iat c) \<and> in_int64 (cl_exp c)"

lemma header_fields_ok:
  "ascii kid \<Longrightarrow> json_document (json_object (header_fields kid)) = Some (header_fields kid)"
  by (rule json_document_object) (simp_all add: header_fields_def)

lemma claims_fields_ok:
  "claims_ascii c \<Longrightarrow> json_document (json_object (claims_fields c)) = Some (claims_fields c)"
  by (rule json_document_object) (simp_all add: claims_fields_def claims_ascii_def)

lemma decode_header_part:
  "ascii kid \<Longrightarrow> decode_part ''header'' header_step empty_header (b64_encode (json_object (header_fields kid)))
     = Inr \<lparr>jh_alg = ''RS256'', jh_typ = ''JWT'', jh_kid = kid\<rparr>"
  by (simp add: decode_part_def b64_decode_encode header_fields_ok decode_header_fields)

lemma decode_claims_part:
  "claims_ascii c \<Longrightarrow>
     decode_part ''claims'' claims_step empty_claims (b64_encode (json_object (claims_fields c))) = Inr c"
  by (simp add: decode_part_def b64_decode_encode claims_fields_ok decode_claims_fields)

lemma VerifyForwarded_signed:
  assumes "claims_ascii c" and "KeyID cr pub = Inr (cl_key_id c)" and "cl_key_id c \<noteq> []"
    and "cr_parse_pkix cr spki = Inr (RSAKey pub)" and "bit_len (rsa_n pub) = 2048"
    and "rsa_e pub = rsaPublicExponent" and "SigningInput c = Inr input"
    and "cr_verify cr pub (SigningDigest cr input) sig = None"
  shows "VerifyForwarded cr (input @ ''.'' @ b64_encode sig) spki =
    Inr \<lparr>vt_header_kid = cl_key_id c, vt_claims = c, vt_public = pub\<rparr>"
proof -
  let ?p0 = "b64_encode (json_object (header_fields (cl_key_id c)))"
  let ?p1 = "b64_encode (json_object (claims_fields c))"
  from assms(7) have i: "input = ?p0 @ ''.'' @ ?p1" by (simp add: SigningInput_def split: if_splits)
  have sp: "split_on (CHR ''.'') (input @ ''.'' @ b64_encode sig) = [?p0, ?p1, b64_encode sig]"
    unfolding split_on_three by (simp add: i b64_encode_no_sep)
  have a: "ascii (cl_key_id c)" using assms(1) by (simp add: claims_ascii_def)
  show ?thesis
    unfolding VerifyForwarded_def sp
    using assms(2-6) assms(8) decode_header_part [OF a] decode_claims_part [OF assms(1)]
    by (simp add: b64_decode_encode SigningDigest_def i)
qed

text \<open>C25: signing and forwarded verification agree. For claims of ASCII text whose key ID is
  the ID of an RSA-2048/F4 key, the compact JWS assembled from the signing input and any
  signature that verifies over its digest is accepted by \<open>VerifyForwarded\<close> under that key,
  and decodes to exactly the claims that were signed.\<close>

theorem Assemble_VerifyForwarded:
  assumes "claims_ascii c" and "KeyID cr pub = Inr (cl_key_id c)" and "cl_key_id c \<noteq> []"
    and "cr_parse_pkix cr spki = Inr (RSAKey pub)" and "RSAPublicKey \<lparr>ct_public = RSAKey pub, ct_raw_spki = spki\<rparr> = Inr pub"
    and "cr_verify cr pub (SigningDigest cr input) sig = None"
    and "SigningInput c = Inr input" and "Assemble input sig = Inr token"
  shows "VerifyForwarded cr token spki = Inr \<lparr>vt_header_kid = cl_key_id c, vt_claims = c, vt_public = pub\<rparr>"
proof -
  have b: "bit_len (rsa_n pub) = 2048" "rsa_e pub = rsaPublicExponent"
    using assms(5) by (auto simp: RSAPublicKey_def split: if_splits)
  from assms(8) have "token = input @ ''.'' @ b64_encode sig" by (simp add: Assemble_def split: if_splits)
  then show ?thesis using VerifyForwarded_signed [OF assms(1-4) b assms(7,6)] by simp
qed

definition demo_claims :: claims where
  "demo_claims = \<lparr>cl_iss = ''https://i'', cl_sub = ''s'', cl_aud = ''a'', cl_iat = 970, cl_exp = 1270,
     cl_jti = ''j'', cl_alias = ''ro'', cl_target = ''sa@p'', cl_serial = ''7'', cl_key_id = demo_kid\<rparr>"

lemma ascii_b64_encode: "ascii (b64_encode b)"
proof -
  have "cp (b64_char v) < 128" if "v < 64" for v using that by (auto simp: b64_char_def)
  then show ?thesis using b64_encode_chars unfolding ascii_def by blast
qed

lemma demo_kid_nonempty: "demo_kid \<noteq> []"
  using length_b64_encode [of "''spki'' @ replicate 28 (CHR 0x00)"] by (auto simp: demo_kid_def)

lemma ascii_demo_kid: "ascii demo_kid"
  unfolding demo_kid_def by (rule ascii_b64_encode)

lemma demo_claims_ascii: "claims_ascii demo_claims"
  by (simp add: claims_ascii_def demo_claims_def ascii_demo_kid in_int64_def)

definition demo_token :: "string \<Rightarrow> string" where
  "demo_token input = input @ ''.'' @ b64_encode (SigningDigest demo_crypto input)"

lemma demo_signature: "cr_verify demo_crypto pub d d = None" "SigningDigest demo_crypto input \<noteq> []"
  by (simp_all add: demo_crypto_def SigningDigest_def)

lemma demo_parse: "cr_parse_pkix demo_crypto spki = Inr (RSAKey demo_pub)"
  by (simp add: demo_crypto_def)

lemma demo_assemble:
  "SigningInput demo_claims = Inr input \<Longrightarrow>
     Assemble input (SigningDigest demo_crypto input) = Inr (demo_token input)"
  by (auto simp: Assemble_def demo_token_def demo_signature SigningInput_def split: if_splits)

theorem Assemble_VerifyForwarded_witness:
  "\<exists>token. VerifyForwarded demo_crypto token ''spki'' =
     Inr \<lparr>vt_header_kid = demo_kid, vt_claims = demo_claims, vt_public = demo_pub\<rparr>"
proof -
  have k: "cl_key_id demo_claims = demo_kid" by (simp add: demo_claims_def)
  then have kid: "KeyID demo_crypto demo_pub = Inr (cl_key_id demo_claims)" "cl_key_id demo_claims \<noteq> []"
    using KeyID_demo demo_kid_nonempty by simp_all
  have r: "RSAPublicKey \<lparr>ct_public = RSAKey demo_pub, ct_raw_spki = ''spki''\<rparr> = Inr demo_pub"
    using RSAPublicKey_demo by (simp add: demo_cert_def)
  obtain input where i: "SigningInput demo_claims = Inr input"
    using kid(2) by (simp add: SigningInput_def)
  from Assemble_VerifyForwarded [OF demo_claims_ascii kid demo_parse r demo_signature(1) i demo_assemble [OF i]]
  show ?thesis by (auto simp: k)
qed

theorem VerifyForwarded_sound_witness:
  "\<exists>token v. VerifyForwarded demo_crypto token ''spki'' = Inr v \<and>
     vt_header_kid v = b64_encode (cr_sha256 demo_crypto ''spki'')"
proof -
  have k: "cl_key_id demo_claims = demo_kid" by (simp add: demo_claims_def)
  then have kid: "KeyID demo_crypto demo_pub = Inr (cl_key_id demo_claims)" "cl_key_id demo_claims \<noteq> []"
    using KeyID_demo demo_kid_nonempty by simp_all
  have b: "bit_len (rsa_n demo_pub) = 2048" "rsa_e demo_pub = rsaPublicExponent"
    using RSAPublicKey_demo by (auto simp: RSAPublicKey_def demo_cert_def split: if_splits)
  obtain input where i: "SigningInput demo_claims = Inr input"
    using kid(2) by (simp add: SigningInput_def)
  note v = VerifyForwarded_signed [OF demo_claims_ascii kid demo_parse b i demo_signature(1)]
  from VerifyForwarded_sound [OF v] have "vt_header_kid \<lparr>vt_header_kid = cl_key_id demo_claims, vt_claims = demo_claims, vt_public = demo_pub\<rparr>
      = b64_encode (cr_sha256 demo_crypto ''spki'')"
    by (auto simp: demo_crypto_def)
  with v show ?thesis by blast
qed

end
