(* ===== verification/Wif_Provider.thy ===== *)
theory Wif_Provider
  imports Wif_Jwt
begin

text \<open>
  \<open>internal/wif/provider.go\<close>: the attribute mapping and the generated attribute condition,
  with what makes the generator safe: for quote-free values, the single-quoted literals of
  the condition are exactly the configured values, in order.
\<close>

definition AttributeMapping :: "string list" where
  "AttributeMapping =
     [''google.subject=assertion.sub'', ''attribute.alias=assertion.alias'',
      ''attribute.target=assertion.target'', ''attribute.serial=assertion.serial'',
      ''attribute.key_id=assertion.key_id'']"

definition AttributeMappingFlag :: string where
  "AttributeMappingFlag = join '','' AttributeMapping"

abbreviation squote :: char where "squote \<equiv> CHR 0x27"
abbreviation newline :: char where "newline \<equiv> CHR 0x0A"

definition condition_pair :: "string \<Rightarrow> string \<Rightarrow> string" where
  "condition_pair name target =
     ''  (assertion.alias == '' @ squote # name @ squote # '' && assertion.target == '' @ squote # target
       @ squote # '')''"

fun condition_pairs :: "(string, string) gomap \<Rightarrow> string list \<Rightarrow> string list res" where
  "condition_pairs m [] = Inr []"
| "condition_pairs m (name # names) =
     (let target = (case map_of m name of Some t \<Rightarrow> t | None \<Rightarrow> []) in
      if target = [] then Inl (ErrText (''alias '' @ go_quote name @ '' has no target''))
      else case condition_pairs m names of
          Inl e \<Rightarrow> Inl e
        | Inr ps \<Rightarrow> Inr (condition_pair name target # ps))"

definition condition_text :: "provider \<Rightarrow> string list \<Rightarrow> string" where
  "condition_text p pairs =
     ''assertion.iss == '' @ squote # pv_issuer p @ squote # '' &&'' @ newline #
     ''assertion.aud == '' @ squote # OIDCAudience p @ squote # '' &&'' @ newline #
     ''assertion.sub.startsWith('' @ squote # SubjectPrefix @ squote # '') &&'' @ newline #
     ''('' @ newline # join ('' ||'' @ [newline]) pairs @ newline # '')''"

definition AttributeCondition :: "provider \<Rightarrow> (string, string) gomap \<Rightarrow> string res" where
  "AttributeCondition p aliasTargets =
     (if aliasTargets = [] then Inl (ErrText ''at least one alias is required'')
      else case condition_pairs aliasTargets (sort (map fst aliasTargets)) of
          Inl e \<Rightarrow> Inl e
        | Inr pairs \<Rightarrow> Inr (condition_text p pairs))"

subsection \<open>The literals of a condition\<close>

fun odd_pieces :: "'a list \<Rightarrow> 'a list" where
  "odd_pieces (a # b # r) = b # odd_pieces r"
| "odd_pieces _ = []"

text \<open>What a CEL lexer takes as the single-quoted literals, when no literal holds an escape.\<close>

definition cel_literals :: "string \<Rightarrow> string list" where
  "cel_literals s = odd_pieces (split_on squote s)"

lemma cel_literals_plain: "squote \<notin> set s \<Longrightarrow> cel_literals s = []"
  by (simp add: cel_literals_def split_on_plain)

lemma cel_literals_char: "c \<noteq> squote \<Longrightarrow> cel_literals (c # s) = cel_literals s"
  by (cases "split_on squote s" rule: odd_pieces.cases) (auto simp: cel_literals_def)

lemma cel_literals_literal:
  "squote \<notin> set v \<Longrightarrow> cel_literals (squote # v @ squote # s) = v # cel_literals s"
  by (simp add: cel_literals_def split_on_append)

lemmas cel_literals_simps = cel_literals_char cel_literals_literal

lemma cel_literals_pair:
  "squote \<notin> set name \<Longrightarrow> squote \<notin> set target \<Longrightarrow>
     cel_literals (condition_pair name target @ s) = name # target # cel_literals s"
  by (simp add: condition_pair_def cel_literals_simps)

lemma condition_pairs_Inr:
  "condition_pairs m names = Inr ps \<longleftrightarrow>
     (\<forall>n\<in>set names. \<exists>t. map_of m n = Some t \<and> t \<noteq> []) \<and>
     ps = map (\<lambda>n. condition_pair n (the (map_of m n))) names"
proof (induction names arbitrary: ps)
  case (Cons n names)
  show ?case
  proof (cases "condition_pairs m names")
    case (Inl e)
    with Cons.IH have "\<not> (\<forall>n\<in>set names. \<exists>t. map_of m n = Some t \<and> t \<noteq> [])" by auto
    with Inl show ?thesis by (auto simp: Let_def)
  next
    case (Inr qs)
    with Cons.IH [of qs] show ?thesis by (auto simp: Let_def split: option.splits)
  qed
qed auto

lemma cel_literals_join:
  assumes "list_all (\<lambda>(n, t). squote \<notin> set n \<and> squote \<notin> set t) nts" and "squote \<notin> set s"
  shows "cel_literals (join ('' ||'' @ [newline]) (map (\<lambda>(n, t). condition_pair n t) nts) @ s)
    = concat (map (\<lambda>(n, t). [n, t]) nts)"
  using assms(1)
proof (induction nts)
  case Nil
  with assms(2) show ?case by (simp add: cel_literals_plain)
next
  case (Cons p nts)
  obtain n t where p: "p = (n, t)" by (cases p)
  show ?case
  proof (cases nts)
    case Nil
    with Cons.prems assms(2) show ?thesis by (simp add: p cel_literals_pair cel_literals_plain)
  next
    case Nts: (Cons q qs)
    have "cel_literals ('' ||'' @ [newline] @ join ('' ||'' @ [newline]) (map (\<lambda>(n, t). condition_pair n t) nts) @ s)
        = concat (map (\<lambda>(n, t). [n, t]) nts)"
      using Cons by (simp add: cel_literals_simps)
    with Cons.prems show ?thesis by (simp add: p Nts cel_literals_pair)
  qed
qed

text \<open>For quote-free values, the quoted literals of a condition are exactly the issuer, the
  audience, the subject prefix, and each alias with its own target in name order.\<close>

lemma AttributeCondition_literals:
  assumes "squote \<notin> set (pv_issuer p)" and "squote \<notin> set (OIDCAudience p)"
    and "\<forall>(n, t)\<in>set m. squote \<notin> set n \<and> squote \<notin> set t"
  shows "(\<forall>cond. AttributeCondition p m = Inr cond \<longrightarrow>
      cel_literals cond = [pv_issuer p, OIDCAudience p, SubjectPrefix] @
        concat (map (\<lambda>n. [n, the (map_of m n)]) (sort (map fst m)))) \<and>
    ((\<exists>cond. AttributeCondition p m = Inr cond) \<longleftrightarrow> m \<noteq> [] \<and> (\<forall>n\<in>fst ` set m. map_of m n \<noteq> Some []))"
proof (intro conjI allI impI)
  let ?ns = "sort (map fst m)"
  let ?nts = "map (\<lambda>n. (n, the (map_of m n))) ?ns"
  have found: "\<exists>t. map_of m n = Some t" if "n \<in> fst ` set m" for n
    using that by (metis map_of_eq_None_iff not_None_eq)
  have q: "list_all (\<lambda>(n, t). squote \<notin> set n \<and> squote \<notin> set t) ?nts"
  proof (unfold list_all_iff, rule ballI)
    fix x assume "x \<in> set ?nts"
    then obtain n where n: "n \<in> fst ` set m" and x: "x = (n, the (map_of m n))" by auto
    from found [OF n] obtain t where t: "map_of m n = Some t" ..
    then have "(n, t) \<in> set m" by (rule map_of_SomeD)
    with assms(3) t x show "case x of (n, t) \<Rightarrow> squote \<notin> set n \<and> squote \<notin> set t" by auto
  qed
  fix cond assume c: "AttributeCondition p m = Inr cond"
  then obtain pairs where ps: "condition_pairs m ?ns = Inr pairs" and cond: "cond = condition_text p pairs"
    by (auto simp: AttributeCondition_def split: if_splits sum.splits)
  have "pairs = map (\<lambda>(n, t). condition_pair n t) ?nts"
    using ps by (simp add: condition_pairs_Inr)
  moreover have "squote \<notin> set (newline # '')'')" by simp
  moreover have "concat (map (\<lambda>(n, t). [n, t]) ?nts) = concat (map (\<lambda>n. [n, the (map_of m n)]) ?ns)"
    by (simp add: comp_def)
  ultimately have j: "cel_literals (join ('' ||'' @ [newline]) pairs @ newline # '')'')
      = concat (map (\<lambda>n. [n, the (map_of m n)]) ?ns)"
    using cel_literals_join [OF q, of "newline # '')''"] by (simp only: not_False_eq_True simp_thms)
  have sp: "squote \<notin> set SubjectPrefix" by (simp add: SubjectPrefix_def)
  have "cel_literals cond = pv_issuer p # OIDCAudience p # SubjectPrefix #
      cel_literals (join ('' ||'' @ [newline]) pairs @ newline # '')'')"
    unfolding cond condition_text_def using assms(1,2) sp by (simp add: cel_literals_simps)
  then have "cel_literals cond = pv_issuer p # OIDCAudience p # SubjectPrefix #
      concat (map (\<lambda>n. [n, the (map_of m n)]) ?ns)"
    unfolding j .
  then show "cel_literals cond = [pv_issuer p, OIDCAudience p, SubjectPrefix] @
      concat (map (\<lambda>n. [n, the (map_of m n)]) ?ns)"
    by simp
next
  have "(\<exists>cond. AttributeCondition p m = Inr cond) \<longleftrightarrow>
      m \<noteq> [] \<and> (\<exists>ps. condition_pairs m (sort (map fst m)) = Inr ps)"
    by (auto simp: AttributeCondition_def split: sum.splits)
  moreover have "\<exists>t. map_of m n = Some t" if "n \<in> fst ` set m" for n
    using that by (metis map_of_eq_None_iff not_None_eq)
  ultimately show "(\<exists>cond. AttributeCondition p m = Inr cond) \<longleftrightarrow>
      m \<noteq> [] \<and> (\<forall>n\<in>fst ` set m. map_of m n \<noteq> Some [])"
    by (auto simp: condition_pairs_Inr) fastforce+
qed

end
