(* ===== verification/Attachment.thy ===== *)
theory Attachment
  imports Go_Error
begin

text \<open>
  \<open>internal/attachment\<close>: the process attachment contract. A context is local-allowed or
  route-required; it is read from three environment variables as a whole, and a partial
  or malformed tuple is refused.
\<close>

record attachment =
  at_mode :: string
  at_protocol :: int
  at_route :: string

definition ModeLocalAllowed :: string where [go_eval]: "ModeLocalAllowed = ''local-allowed''"
definition ModeRouteRequired :: string where [go_eval]: "ModeRouteRequired = ''route-required''"
definition ProtocolEnvironment :: int where [go_eval]: "ProtocolEnvironment = 1"
definition EnvMode :: string where [go_eval]: "EnvMode = ''PIVB_ATTACHMENT_MODE''"
definition EnvRouteSocket :: string where [go_eval]: "EnvRouteSocket = ''PIVB_ROUTE_SOCKET''"
definition EnvProtocol :: string where [go_eval]: "EnvProtocol = ''PIVB_ATTACHMENT_PROTOCOL''"

definition LocalAllowed :: attachment where
  [go_eval]: "LocalAllowed = \<lparr>at_mode = ModeLocalAllowed, at_protocol = ProtocolEnvironment, at_route = []\<rparr>"

definition RouteRequiredCtx :: "int \<Rightarrow> string \<Rightarrow> attachment" where
  [go_eval]: "RouteRequiredCtx protocol route =
     \<lparr>at_mode = ModeRouteRequired, at_protocol = protocol, at_route = route\<rparr>"

definition RouteRequired :: "attachment \<Rightarrow> bool" where
  [go_eval]: "RouteRequired c \<longleftrightarrow> at_mode c = ModeRouteRequired"

subsection \<open>path/filepath\<close>

abbreviation slash :: char where "slash \<equiv> CHR 0x2F"

definition is_abs :: "string \<Rightarrow> bool" where
  "is_abs p \<longleftrightarrow> has_prefix [slash] p"

text \<open>\<open>filepath.Clean\<close>: the elements of the path, with the kept ones in reverse.\<close>

fun clean_elems :: "bool \<Rightarrow> string list \<Rightarrow> string list \<Rightarrow> string list" where
  "clean_elems rooted acc [] = rev acc"
| "clean_elems rooted acc (e # es) =
     (if e = [] \<or> e = ''.'' then clean_elems rooted acc es
      else if e = ''..'' then
        (case acc of
           [] \<Rightarrow> clean_elems rooted (if rooted then [] else [e]) es
         | a # as \<Rightarrow> clean_elems rooted (if a = ''..'' then e # acc else as) es)
      else clean_elems rooted (e # acc) es)"

definition path_clean :: "string \<Rightarrow> string" where
  "path_clean p =
     (if p = [] then ''.''
      else let rooted = is_abs p;
               es = clean_elems rooted [] (split_on slash p);
               body = join [slash] es
           in if rooted then slash # body else if es = [] then ''.'' else body)"

definition plain_elem :: "string \<Rightarrow> bool" where
  "plain_elem e \<longleftrightarrow> e \<noteq> [] \<and> e \<noteq> ''.'' \<and> e \<noteq> ''..'' \<and> slash \<notin> set e"

subsection \<open>The operations\<close>

definition ValidateRoute :: "string \<Rightarrow> gerror option" where
  "ValidateRoute route =
     (if route = [] \<or> \<not> is_abs route \<or> CHR 0x00 \<in> set route
      then Some (PolicyError ''route-required PIVB attachment needs an absolute Unix socket path'')
      else if length route \<ge> 108
      then Some (PolicyError ''route-required PIVB attachment socket path is too long'')
      else if path_clean route \<noteq> route
      then Some (PolicyError ''route-required PIVB attachment socket path is not canonical'')
      else None)"

definition FromEnvironment :: "(string \<Rightarrow> string) \<Rightarrow> attachment res" where
  "FromEnvironment getenv =
     (let mode = getenv EnvMode;
          route = getenv EnvRouteSocket;
          protocolRaw = getenv EnvProtocol
      in if mode = [] \<and> route = [] \<and> protocolRaw = [] then Inr LocalAllowed
         else if mode = [] \<or> protocolRaw = []
         then Inl (PolicyError ''managed PIVB attachment mode and protocol must be provided together'')
         else case parse_int 64 protocolRaw of
             None \<Rightarrow> Inl (PolicyError ''managed PIVB attachment protocol is unsupported'')
           | Some protocol \<Rightarrow>
               if protocol \<noteq> ProtocolEnvironment
               then Inl (PolicyError ''managed PIVB attachment protocol is unsupported'')
               else if mode = ModeLocalAllowed then
                 (if route \<noteq> []
                  then Inl (PolicyError ''local-allowed PIVB attachment must not select a workspace route'')
                  else Inr \<lparr>at_mode = mode, at_protocol = protocol, at_route = []\<rparr>)
               else if mode = ModeRouteRequired then
                 (case ValidateRoute route of
                    Some e \<Rightarrow> Inl e
                  | None \<Rightarrow> Inr \<lparr>at_mode = mode, at_protocol = protocol, at_route = route\<rparr>)
               else Inl (PolicyError ''managed PIVB attachment mode is unsupported''))"

definition WithExplicitRoute :: "attachment \<Rightarrow> string \<Rightarrow> attachment res" where
  "WithExplicitRoute base explicit =
     (case (if explicit \<noteq> [] then ValidateRoute explicit else None) of
        Some e \<Rightarrow> Inl e
      | None \<Rightarrow>
          if RouteRequired base then
            (if explicit \<noteq> [] \<and> explicit \<noteq> at_route base
             then Inl (PolicyError ''explicit PIVB route conflicts with the managed workspace route'')
             else Inr base)
          else if explicit = [] then Inr base
          else Inr (RouteRequiredCtx ProtocolEnvironment explicit))"

definition attachment_Validate :: "attachment \<Rightarrow> gerror option" where
  "attachment_Validate c =
     (if at_mode c = ModeLocalAllowed then
        (if at_protocol c \<noteq> ProtocolEnvironment \<or> at_route c \<noteq> []
         then Some (PolicyError ''invalid local-allowed attachment policy'') else None)
      else if at_mode c = ModeRouteRequired then
        (if at_protocol c \<noteq> ProtocolEnvironment
         then Some (PolicyError ''invalid route-required attachment protocol'')
         else ValidateRoute (at_route c))
      else Some (PolicyError ''attachment policy is required''))"

subsection \<open>Canonical routes\<close>

lemma mode_distinct [simp]: "ModeLocalAllowed \<noteq> ModeRouteRequired" "ModeRouteRequired \<noteq> ModeLocalAllowed"
  by (simp_all add: ModeLocalAllowed_def ModeRouteRequired_def)

lemma clean_elems_plain: "list_all plain_elem es \<Longrightarrow> clean_elems r acc es = rev acc @ es"
  by (induction es arbitrary: acc) (auto simp: plain_elem_def)

lemma clean_elems_result_plain:
  "list_all plain_elem acc \<Longrightarrow> \<forall>e\<in>set es. slash \<notin> set e \<Longrightarrow>
     list_all plain_elem (clean_elems True acc es)"
proof (induction True acc es rule: clean_elems.induct)
  case (1 acc)
  then show ?case by (simp add: list_all_iff)
next
  case (2 acc e es)
  then show ?case by (cases acc) (auto simp: plain_elem_def)
qed

lemma split_on_join_plain:
  "list_all plain_elem (e # es) \<Longrightarrow> split_on slash (join [slash] (e # es)) = e # es"
proof (induction es arbitrary: e)
  case Nil
  then show ?case by (simp add: plain_elem_def split_on_plain)
next
  case (Cons d es)
  then show ?case by (simp add: split_on_append plain_elem_def)
qed

lemma path_clean_rooted:
  "path_clean (slash # s) = slash # join [slash] (clean_elems True [] (split_on slash s))"
  by (simp add: path_clean_def is_abs_def has_prefix_def Let_def)

lemma path_clean_fixpoint_iff:
  "path_clean (slash # s) = slash # s \<longleftrightarrow> (\<exists>es. list_all plain_elem es \<and> s = join [slash] es)"
proof
  assume "path_clean (slash # s) = slash # s"
  then have "s = join [slash] (clean_elems True [] (split_on slash s))"
    by (simp add: path_clean_rooted)
  moreover have "list_all plain_elem (clean_elems True [] (split_on slash s))"
    by (rule clean_elems_result_plain) (auto dest: split_on_no_sep)
  ultimately show "\<exists>es. list_all plain_elem es \<and> s = join [slash] es" by blast
next
  assume "\<exists>es. list_all plain_elem es \<and> s = join [slash] es"
  then obtain es where es: "list_all plain_elem es" "s = join [slash] es" by blast
  show "path_clean (slash # s) = slash # s"
  proof (cases es)
    case Nil
    with es show ?thesis by (simp add: path_clean_rooted)
  next
    case (Cons e es')
    with es have "split_on slash s = es" using split_on_join_plain by blast
    with es show ?thesis by (simp add: path_clean_rooted clean_elems_plain)
  qed
qed

text \<open>\<open>ValidateRoute\<close> accepts exactly the canonical absolute socket paths: a slash
  followed by slash-separated elements none of which is empty, a dot or two dots, without
  a NUL byte, and short enough for \<open>sockaddr_un.sun_path\<close>.\<close>

lemma ValidateRoute_canonical:
  "ValidateRoute route = None \<longleftrightarrow>
     (\<exists>es. list_all plain_elem es \<and> route = slash # join [slash] es) \<and>
     CHR 0x00 \<notin> set route \<and> length route < 108"
proof (cases route)
  case Nil
  then show ?thesis by (simp add: ValidateRoute_def)
next
  case (Cons c s)
  show ?thesis
  proof (cases "c = slash")
    case True
    with Cons have "is_abs route" by (simp add: is_abs_def has_prefix_def)
    moreover have "path_clean route = route \<longleftrightarrow> (\<exists>es. list_all plain_elem es \<and> route = slash # join [slash] es)"
      using path_clean_fixpoint_iff [of s] Cons True by simp
    ultimately show ?thesis
      by (auto simp: ValidateRoute_def Cons not_le)
  next
    case False
    with Cons show ?thesis by (auto simp: ValidateRoute_def is_abs_def has_prefix_def)
  qed
qed

subsection \<open>The environment tuple\<close>

lemma ValidateRoute_nonempty: "ValidateRoute r = None \<Longrightarrow> r \<noteq> []"
  by (auto simp: ValidateRoute_def)

lemma RouteRequired_Validate:
  "RouteRequired c \<Longrightarrow> attachment_Validate c = None \<Longrightarrow>
     at_protocol c = ProtocolEnvironment \<and> ValidateRoute (at_route c) = None"
  by (auto simp: attachment_Validate_def RouteRequired_def split: if_splits)

lemma not_RouteRequired_Validate:
  "\<not> RouteRequired c \<Longrightarrow> attachment_Validate c = None \<Longrightarrow> c = LocalAllowed"
  by (cases c) (auto simp: attachment_Validate_def RouteRequired_def LocalAllowed_def split: if_splits)

lemma attachment_Validate_LocalAllowed [simp]: "attachment_Validate LocalAllowed = None"
  by (simp add: attachment_Validate_def LocalAllowed_def)

lemma not_RouteRequired_LocalAllowed [simp]: "\<not> RouteRequired LocalAllowed"
  by (simp add: RouteRequired_def LocalAllowed_def)

lemma FromEnvironment_Inr:
  "FromEnvironment g = Inr c \<longleftrightarrow>
     (g EnvMode = [] \<and> g EnvRouteSocket = [] \<and> g EnvProtocol = [] \<and> c = LocalAllowed) \<or>
     (parse_int 64 (g EnvProtocol) = Some ProtocolEnvironment \<and> g EnvMode = ModeLocalAllowed
        \<and> g EnvRouteSocket = [] \<and> c = LocalAllowed) \<or>
     (parse_int 64 (g EnvProtocol) = Some ProtocolEnvironment \<and> g EnvMode = ModeRouteRequired
        \<and> ValidateRoute (g EnvRouteSocket) = None
        \<and> c = RouteRequiredCtx ProtocolEnvironment (g EnvRouteSocket))"
proof -
  have [simp]: "parse_int 64 [] = None" by (simp add: parse_int_def)
  have [simp]: "ModeLocalAllowed \<noteq> []" "ModeRouteRequired \<noteq> []"
    by (simp_all add: ModeLocalAllowed_def ModeRouteRequired_def)
  show ?thesis
    by (auto simp: FromEnvironment_def Let_def LocalAllowed_def RouteRequiredCtx_def
        split: option.splits if_splits)
qed

text \<open>The environment is read fail-closed. A context that \<open>FromEnvironment\<close>, possibly
  followed by \<open>WithExplicitRoute\<close>, hands out passes \<open>Validate\<close>; it selects a route only if
  that exact route was given by the environment or on the command line; a managed route is
  never replaced; and any partial tuple (mode without protocol, protocol or route without
  mode) is refused.\<close>

lemma attachment_fail_closed:
  shows "FromEnvironment g = Inr c \<Longrightarrow> WithExplicitRoute c explicit = Inr c' \<Longrightarrow>
      attachment_Validate c = None \<and> attachment_Validate c' = None \<and>
      (RouteRequired c \<longrightarrow> at_route c = g EnvRouteSocket \<and> c' = c) \<and>
      (RouteRequired c' \<longrightarrow> at_route c' = g EnvRouteSocket \<or> at_route c' = explicit) \<and>
      (\<not> RouteRequired c' \<longrightarrow> c' = LocalAllowed \<and> g EnvRouteSocket = [] \<and> explicit = []) \<and>
      (g EnvMode = [] \<longleftrightarrow> g EnvProtocol = []) \<and> (g EnvMode = [] \<longrightarrow> g EnvRouteSocket = [])"
proof -
  assume env: "FromEnvironment g = Inr c" and expl: "WithExplicitRoute c explicit = Inr c'"
  have [simp]: "ModeLocalAllowed \<noteq> []" "ModeRouteRequired \<noteq> []"
    by (simp_all add: ModeLocalAllowed_def ModeRouteRequired_def)
  have [simp]: "parse_int 64 [] = None" by (simp add: parse_int_def)
  show ?thesis
    using env expl unfolding FromEnvironment_Inr
    by (elim disjE; clarsimp simp: WithExplicitRoute_def attachment_Validate_def RouteRequired_def
          LocalAllowed_def RouteRequiredCtx_def split: option.splits if_splits)
       (auto simp: attachment_Validate_def LocalAllowed_def RouteRequiredCtx_def ProtocolEnvironment_def)
qed

definition env_example :: "string \<Rightarrow> string" where
  "env_example v =
     (if v = EnvMode then ModeRouteRequired
      else if v = EnvRouteSocket then ''/run/zka/route.sock''
      else if v = EnvProtocol then ''1'' else [])"

text \<open>A managed workspace route, repeated on the command line.\<close>

end
