(* ===== verification/Go_Regex.thy ===== *)
theory Go_Regex
  imports Prelude
begin

text \<open>
  The regular expressions of the program are anchored at both ends and are built from
  character classes, concatenation, an optional group and bounded repetition. A pattern
  is a value of \<open>rx\<close>; \<open>rx_rests\<close> gives every rest a prefix match can leave, and an
  anchored match leaves the empty one.
\<close>

datatype rx =
    Cls "char \<Rightarrow> bool"
  | Seq rx rx
  | Opt rx
  | Rep rx nat nat

primrec rep_rests :: "(string \<Rightarrow> string list) \<Rightarrow> nat \<Rightarrow> nat \<Rightarrow> string \<Rightarrow> string list" where
  "rep_rests f lo 0 s = (if lo = 0 then [s] else [])"
| "rep_rests f lo (Suc hi) s =
     (if lo = 0 then [s] else []) @ concat (map (rep_rests f (lo - 1) hi) (f s))"

primrec rx_rests :: "rx \<Rightarrow> string \<Rightarrow> string list" where
  "rx_rests (Cls p) s = (case s of [] \<Rightarrow> [] | c # r \<Rightarrow> if p c then [r] else [])"
| "rx_rests (Seq a b) s = concat (map (rx_rests b) (rx_rests a s))"
| "rx_rests (Opt a) s = s # rx_rests a s"
| "rx_rests (Rep a lo hi) s = rep_rests (rx_rests a) lo hi s"

definition rx_match :: "rx \<Rightarrow> string \<Rightarrow> bool" where
  "rx_match r s \<longleftrightarrow> [] \<in> set (rx_rests r s)"

fun rx_lit :: "string \<Rightarrow> rx" where
  "rx_lit [] = Rep (Cls (\<lambda>_. False)) 0 0"
| "rx_lit (c # s) = Seq (Cls (\<lambda>x. x = c)) (rx_lit s)"

text \<open>The language of a pattern, as sets of strings.\<close>

primrec rx_lang :: "rx \<Rightarrow> string \<Rightarrow> bool" where
  "rx_lang (Cls p) w \<longleftrightarrow> (\<exists>c. w = [c] \<and> p c)"
| "rx_lang (Seq a b) w \<longleftrightarrow> (\<exists>u v. w = u @ v \<and> rx_lang a u \<and> rx_lang b v)"
| "rx_lang (Opt a) w \<longleftrightarrow> w = [] \<or> rx_lang a w"
| "rx_lang (Rep a lo hi) w \<longleftrightarrow>
     (\<exists>ws. w = concat ws \<and> list_all (rx_lang a) ws \<and> lo \<le> length ws \<and> length ws \<le> hi)"

lemma rep_rests_lang:
  assumes f: "\<And>s r. r \<in> set (f s) \<longleftrightarrow> (\<exists>u. s = u @ r \<and> L u)"
  shows "r \<in> set (rep_rests f lo hi s) \<longleftrightarrow>
    (\<exists>ws. s = concat ws @ r \<and> list_all L ws \<and> lo \<le> length ws \<and> length ws \<le> hi)"
proof (induction hi arbitrary: lo s)
  case 0
  then show ?case by auto
next
  case (Suc hi)
  have "r \<in> set (rep_rests f lo (Suc hi) s) \<longleftrightarrow>
      (lo = 0 \<and> r = s) \<or> (\<exists>m. (\<exists>u. s = u @ m \<and> L u) \<and> r \<in> set (rep_rests f (lo - 1) hi m))"
    by (auto simp: f)
  also have "\<dots> \<longleftrightarrow> (lo = 0 \<and> r = s) \<or>
      (\<exists>u ws. s = u @ concat ws @ r \<and> L u \<and> list_all L ws \<and> lo - 1 \<le> length ws \<and> length ws \<le> hi)"
    by (auto simp: Suc)
  also have "\<dots> \<longleftrightarrow>
      (\<exists>ws. s = concat ws @ r \<and> list_all L ws \<and> lo \<le> length ws \<and> length ws \<le> Suc hi)" (is "?l \<longleftrightarrow> ?r")
  proof
    assume ?l
    then consider "lo = 0" "r = s"
      | u ws where "s = u @ concat ws @ r" "L u" "list_all L ws" "lo - 1 \<le> length ws" "length ws \<le> hi"
      by blast
    then show ?r
    proof cases
      case 1
      then show ?thesis by (intro exI [of _ "[]"]) simp
    next
      case (2 u ws)
      then show ?thesis by (intro exI [of _ "u # ws"]) auto
    qed
  next
    assume ?r
    then obtain ws where ws: "s = concat ws @ r" "list_all L ws" "lo \<le> length ws" "length ws \<le> Suc hi"
      by blast
    then show ?l by (cases ws) auto
  qed
  finally show ?case .
qed

lemma rx_rests_lang: "r \<in> set (rx_rests e s) \<longleftrightarrow> (\<exists>u. s = u @ r \<and> rx_lang e u)"
proof (induction e arbitrary: s r)
  case (Cls p)
  then show ?case by (cases s) auto
next
  case (Seq a b)
  then show ?case by (auto simp: Seq) (metis append_assoc)+
next
  case (Opt a)
  then show ?case by auto
next
  case (Rep a lo hi)
  from rep_rests_lang [of "rx_rests a" "rx_lang a", OF Rep.IH]
  show ?case by auto
qed

lemma rx_match_lang: "rx_match e s \<longleftrightarrow> rx_lang e s"
  by (simp add: rx_match_def rx_rests_lang)

subsection \<open>Readable forms of the languages\<close>

lemma list_all_singletons:
  "list_all (rx_lang (Cls P)) ws \<Longrightarrow> list_all P (concat ws) \<and> length (concat ws) = length ws"
  by (induction ws) auto

lemma rx_lang_Rep_Cls:
  "rx_lang (Rep (Cls p) lo hi) w \<longleftrightarrow> list_all p w \<and> lo \<le> length w \<and> length w \<le> hi"
proof
  assume "rx_lang (Rep (Cls p) lo hi) w"
  then obtain ws where "w = concat ws" and ws: "list_all (rx_lang (Cls p)) ws"
    and "lo \<le> length ws" "length ws \<le> hi"
    by auto
  with list_all_singletons [OF ws] show "list_all p w \<and> lo \<le> length w \<and> length w \<le> hi"
    by simp
next
  assume h: "list_all p w \<and> lo \<le> length w \<and> length w \<le> hi"
  have "w = concat (map (\<lambda>c. [c]) w)" by simp
  moreover from h have "list_all (rx_lang (Cls p)) (map (\<lambda>c. [c]) w)"
    by (auto simp: list_all_iff)
  ultimately show "rx_lang (Rep (Cls p) lo hi) w"
    using h by (auto intro!: exI [of _ "map (\<lambda>c. [c]) w"])
qed

lemma rx_lang_Seq_Cls:
  "rx_lang (Seq (Cls p) b) w \<longleftrightarrow> (\<exists>c v. w = c # v \<and> p c \<and> rx_lang b v)"
  by auto (metis append_Cons append_Nil)

lemma rx_lang_Opt: "rx_lang (Opt a) w \<longleftrightarrow> w = [] \<or> rx_lang a w"
  by simp

lemma rx_lang_Seq_Rep_Cls:
  "rx_lang (Seq (Rep (Cls p) lo hi) (Cls q)) w \<longleftrightarrow>
     (\<exists>v c. w = v @ [c] \<and> list_all p v \<and> lo \<le> length v \<and> length v \<le> hi \<and> q c)"
proof -
  have "rx_lang (Seq (Rep (Cls p) lo hi) (Cls q)) w \<longleftrightarrow>
      (\<exists>u v. w = u @ v \<and> rx_lang (Rep (Cls p) lo hi) u \<and> rx_lang (Cls q) v)"
    by (rule rx_lang.simps)
  then show ?thesis unfolding rx_lang_Rep_Cls by auto
qed

lemmas rx_readable = rx_match_lang rx_lang_Rep_Cls rx_lang_Seq_Rep_Cls rx_lang_Seq_Cls rx_lang_Opt

lemma rx_lang_lit: "rx_lang (rx_lit l) w \<longleftrightarrow> w = l"
  by (induction l arbitrary: w) auto

text \<open>Every character of a matched string belongs to some class of the pattern.\<close>

primrec rx_chars :: "rx \<Rightarrow> char \<Rightarrow> bool" where
  "rx_chars (Cls p) c \<longleftrightarrow> p c"
| "rx_chars (Seq a b) c \<longleftrightarrow> rx_chars a c \<or> rx_chars b c"
| "rx_chars (Opt a) c \<longleftrightarrow> rx_chars a c"
| "rx_chars (Rep a lo hi) c \<longleftrightarrow> rx_chars a c"

lemma rx_lang_chars: "rx_lang e w \<Longrightarrow> c \<in> set w \<Longrightarrow> rx_chars e c"
proof (induction e arbitrary: w)
  case (Seq e1 e2)
  from Seq.prems obtain u v where "w = u @ v" "rx_lang e1 u" "rx_lang e2 v" by auto
  with Seq show ?case by (metis Un_iff rx_chars.simps(2) set_append)
next
  case (Rep e lo hi)
  from Rep.prems obtain ws x where "w = concat ws" "list_all (rx_lang e) ws" "x \<in> set ws" "c \<in> set x"
    by auto
  then have "rx_lang e x" by (auto simp: list_all_iff)
  with Rep.IH \<open>c \<in> set x\<close> show ?case by simp
qed auto

lemma rx_match_chars: "rx_match e w \<Longrightarrow> c \<in> set w \<Longrightarrow> rx_chars e c"
  by (simp add: rx_match_lang rx_lang_chars)

lemma rx_chars_lit: "rx_chars (rx_lit l) c \<longleftrightarrow> c \<in> set l"
  by (induction l) auto

end
