(* ===== verification/Go_Map.thy ===== *)
theory Go_Map
  imports Prelude
begin

text \<open>
  Go's built-in map: the interface \<open>go_map\<close> (lookup, assignment, \<open>delete\<close>, \<open>len\<close>) with
  the laws the components rely on, the lemmas that follow from the laws alone, and its
  interpretation on association lists with distinct keys. A \<open>for range\<close> loop visits the
  list in order; since the list's order is arbitrary, so is the order of the loop.
\<close>

locale go_map =
  fixes get :: "'m \<Rightarrow> 'k \<Rightarrow> 'v option"
    and put :: "'k \<Rightarrow> 'v \<Rightarrow> 'm \<Rightarrow> 'm"
    and del :: "'k \<Rightarrow> 'm \<Rightarrow> 'm"
    and count :: "'m \<Rightarrow> nat"
    and wf :: "'m \<Rightarrow> bool"
  assumes get_put: "get (put k v m) = (get m)(k \<mapsto> v)"
    and get_del: "wf m \<Longrightarrow> get (del k m) = (get m)(k := None)"
    and wf_put: "wf m \<Longrightarrow> wf (put k v m)"
    and wf_del: "wf m \<Longrightarrow> wf (del k m)"
    and count_put: "count (put k v m) = (if get m k = None then Suc (count m) else count m)"
    and count_del: "wf m \<Longrightarrow> count (del k m) = (if get m k = None then count m else count m - 1)"
    and count_get: "get m k \<noteq> None \<Longrightarrow> 0 < count m"
begin

lemma get_put_same: "get (put k v m) k = Some v"
  by (simp add: get_put)

lemma get_put_other: "j \<noteq> k \<Longrightarrow> get (put k v m) j = get m j"
  by (simp add: get_put)

lemma count_put_le: "count (put k v m) \<le> Suc (count m)"
  by (simp add: count_put)

lemma count_del_less: "wf m \<Longrightarrow> get m k \<noteq> None \<Longrightarrow> count (del k m) < count m"
  using count_get [of m k] by (simp add: count_del)

lemma count_del_le: "wf m \<Longrightarrow> count (del k m) \<le> count m"
  by (simp add: count_del)

lemma put_then_del:
  "wf m \<Longrightarrow> get m k = None \<Longrightarrow> get (del k (put k v m)) = get m"
  by (rule ext) (simp add: get_del wf_put get_put)

lemma bounded_put_del:
  assumes "wf m" and "count m \<le> n" and "get (put k v m) j \<noteq> None"
  shows "count (del j (put k v m)) \<le> n"
proof -
  have "count (del j (put k v m)) < count (put k v m)"
    using assms by (intro count_del_less wf_put)
  with count_put_le [of k v m] assms(2) show ?thesis by simp
qed

end

abbreviation keys_distinct :: "('k, 'v) gomap \<Rightarrow> bool" where
  "keys_distinct m \<equiv> distinct (map fst m)"

lemma length_update_alist:
  "length (AList.update k v m) = (if map_of m k = None then Suc (length m) else length m)"
  by (induction m) auto

lemma length_delete_alist:
  "keys_distinct m \<Longrightarrow>
     length (AList.delete k m) = (if map_of m k = None then length m else length m - 1)"
proof (induction m)
  case Nil
  then show ?case by simp
next
  case (Cons p m)
  show ?case
  proof (cases "fst p = k")
    case True
    with Cons.prems have "k \<notin> fst ` set m" by auto
    then show ?thesis using True by simp
  next
    case False
    have "map_of m k \<noteq> None \<Longrightarrow> 0 < length m" by (cases m) auto
    with False Cons show ?thesis by auto
  qed
qed

interpretation alist: go_map map_of AList.update AList.delete length keys_distinct
proof unfold_locales
  show "map_of (AList.update k v m) = (map_of m)(k \<mapsto> v)" for k v m
    by (rule update_conv')
  show "map_of (AList.delete k m) = (map_of m)(k := None)" for k m
    by (rule delete_conv')
  show "keys_distinct (AList.update k v m)" if "keys_distinct m" for k v m
    using that by (rule distinct_update)
  show "keys_distinct (AList.delete k m)" if "keys_distinct m" for k m
    using that by (rule distinct_delete)
  show "0 < length m" if "map_of m k \<noteq> None" for m k
    using that by (cases m) auto
qed (simp_all add: length_update_alist length_delete_alist)

subsection \<open>Loops that delete\<close>

lemma keys_distinct_filter: "keys_distinct m \<Longrightarrow> keys_distinct (filter P m)"
  by (simp add: distinct_map_filter)

lemma map_of_filter_entries:
  "keys_distinct m \<Longrightarrow>
     map_of (filter (\<lambda>(k, v). P k v) m) k =
       (case map_of m k of Some v \<Rightarrow> (if P k v then Some v else None) | None \<Rightarrow> None)"
proof (induction m)
  case Nil
  then show ?case by simp
next
  case (Cons p m)
  have "k \<notin> fst ` set m \<Longrightarrow> map_of (filter (\<lambda>(k, v). P k v) m) k = None"
    by (auto simp: map_of_eq_None_iff)
  with Cons show ?case by (cases p) (auto split: option.splits)
qed

lemma delete_filter: "AList.delete k m = filter (\<lambda>(j, _). j \<noteq> k) m"
  by (induction m) auto

lemma set_update_alist:
  "set (AList.update k v m) \<subseteq> insert (k, v) (set m)"
  by (induction m) auto

lemma in_update_alist: "(k, v) \<in> set (AList.update k v m)"
  by (induction m) auto

lemma set_update_distinct:
  "keys_distinct m \<Longrightarrow> set (AList.update k v m) = insert (k, v) {p \<in> set m. fst p \<noteq> k}"
  by (induction m) force+

lemma map_of_distinct_iff: "keys_distinct m \<Longrightarrow> map_of m k = Some v \<longleftrightarrow> (k, v) \<in> set m"
  by (rule map_of_eq_Some_iff)

end
