(* ===== verification/Config.thy ===== *)
theory Config
  imports Wif_Provider Attachment Go_Regex Go_Map
begin

text \<open>
  \<open>internal/config\<close>: the closed configuration schema, its defaults, its validation as the
  list of error messages \<open>errors.Join\<close> joins, the issuer URI check, \<open>Load\<close> over a decoded
  document, and the views of the configuration the daemon uses. TOML decoding belongs to a
  third-party package, so \<open>Load\<close> takes its result (the struct and the undecoded keys).
\<close>

subsection \<open>The schema\<close>

definition defaultLifetimeS :: int where [go_eval]: "defaultLifetimeS = 3600"
definition minLifetimeS :: int where [go_eval]: "minLifetimeS = 600"
definition maxLifetimeS :: int where [go_eval]: "maxLifetimeS = 3600"
definition defaultAssertionLifetimeS :: int where
  [go_eval]: "defaultAssertionLifetimeS = DefaultLifetime div second"
definition minAssertionLifetimeS :: int where
  [go_eval]: "minAssertionLifetimeS = defaultAssertionLifetimeS"
definition maxAssertionLifetimeS :: int where [go_eval]: "maxAssertionLifetimeS = MaxLifetime div second"
definition minRemainingValidityS :: int where [go_eval]: "minRemainingValidityS = 60"
definition maxGrantWindowCeilingS :: int where [go_eval]: "maxGrantWindowCeilingS = 43200"

definition CardLocal :: string where [go_eval]: "CardLocal = ''local''"
definition CardNone :: string where [go_eval]: "CardNone = ''none''"

record wif_config =
  wc_project :: string
  wc_pool :: string
  wc_provider :: string
  wc_issuer :: string

record key_config =
  kc_jwk_kid :: string

record alias_config =
  al_cloud :: string
  al_target :: string
  al_lifetime_s :: int
  al_reuse_s :: int
  al_assertion_lifetime_s :: int

record config =
  cf_piv_slot :: string
  cf_pin_cache :: string
  cf_notify :: "string list option"
  cf_gnupg_home :: string
  cf_card :: string
  cf_max_grant :: int
  cf_wif :: wif_config
  cf_keys :: "(string, key_config) gomap"
  cf_aliases :: "(string, alias_config) gomap"

definition lower_digit :: "char \<Rightarrow> bool" where
  [char_defs]: "lower_digit c \<longleftrightarrow> is_lower c \<or> is_digit c"
definition lower_digit_hyphen :: "char \<Rightarrow> bool" where
  [char_defs]: "lower_digit_hyphen c \<longleftrightarrow> is_lower c \<or> is_digit c \<or> c = CHR ''-''"
definition b64_class :: "char \<Rightarrow> bool" where
  [char_defs]: "b64_class c \<longleftrightarrow> is_upper c \<or> is_lower c \<or> is_digit c \<or> c = CHR ''_'' \<or> c = CHR ''-''"

definition projectNumberRE :: rx where
  "projectNumberRE = Seq (Cls (\<lambda>c. is_digit c \<and> c \<noteq> CHR ''0'')) (Rep (Cls is_digit) 0 29)"
definition poolProviderRE :: rx where
  "poolProviderRE = Seq (Cls is_lower) (Seq (Rep (Cls lower_digit_hyphen) 2 30) (Cls lower_digit))"
definition aliasNameRE :: rx where
  "aliasNameRE = Seq (Cls is_lower) (Opt (Seq (Rep (Cls lower_digit_hyphen) 0 30) (Cls lower_digit)))"
definition jwkKidRE :: rx where
  "jwkKidRE = Rep (Cls b64_class) 43 43"
definition targetEmailRE :: rx where
  "targetEmailRE =
     Seq (Cls is_lower) (Seq (Opt (Seq (Rep (Cls lower_digit_hyphen) 4 28) (Cls lower_digit)))
     (Seq (rx_lit ''@'') (Seq (Cls is_lower) (Seq (Rep (Cls lower_digit_hyphen) 4 28)
     (Seq (Cls lower_digit) (rx_lit ''.iam.gserviceaccount.com''))))))"

definition retiredTopLevelKeys :: "string list" where
  "retiredTopLevelKeys = [''listen_metadata'', ''default_alias'', ''remote_allowed_aliases'',
     ''broker_sa'', ''key_id'', ''yubikey_serials'']"

definition retiredSuffixes :: "string list" where
  "retiredSuffixes = [''.broker_sa'', ''.key_id'', ''.project_id'', ''.numeric_project_id'']"

definition isRetiredKey :: "string \<Rightarrow> bool" where
  "isRetiredKey name \<longleftrightarrow>
     name \<in> set retiredTopLevelKeys \<or> (\<exists>suffix\<in>set retiredSuffixes. has_suffix suffix name)"

subsection \<open>Derived values\<close>

definition aliasAssertionLifetimeS :: "alias_config \<Rightarrow> int" where
  "aliasAssertionLifetimeS a =
     (if al_assertion_lifetime_s a \<le> 0 then defaultAssertionLifetimeS else al_assertion_lifetime_s a)"

definition maxAssertionLifetimeSFor :: "alias_config \<Rightarrow> int" where
  "maxAssertionLifetimeSFor a =
     (if al_lifetime_s a \<ge> minLifetimeS \<and> al_lifetime_s a < maxAssertionLifetimeS
      then al_lifetime_s a else maxAssertionLifetimeS)"

definition maxAssertionReuseS :: "alias_config \<Rightarrow> int" where
  "maxAssertionReuseS a = aliasAssertionLifetimeS a - ClockSkew div second - minRemainingValidityS"

definition default_alias :: "alias_config \<Rightarrow> alias_config" where
  "default_alias a =
     (let a1 = (if al_cloud a = [] then a\<lparr>al_cloud := ''gcp''\<rparr> else a);
          a2 = (if al_lifetime_s a1 = 0 then a1\<lparr>al_lifetime_s := defaultLifetimeS\<rparr> else a1);
          a3 = (if al_assertion_lifetime_s a2 = 0
                then a2\<lparr>al_assertion_lifetime_s := defaultAssertionLifetimeS\<rparr> else a2)
      in a3)"

definition applyDefaults :: "config \<Rightarrow> config" where
  "applyDefaults c =
     c\<lparr>cf_piv_slot := (if cf_piv_slot c = [] then ''9c'' else cf_piv_slot c),
       cf_pin_cache := (if cf_pin_cache c = [] then ''session'' else cf_pin_cache c),
       cf_card := (if cf_card c = [] then CardLocal else cf_card c),
       cf_notify := (if cf_notify c = None then Some [''notify-send'', ''pivb''] else cf_notify c),
       cf_aliases := map (\<lambda>(name, a). (name, default_alias a)) (cf_aliases c)\<rparr>"

definition CardFree :: "config \<Rightarrow> bool" where
  "CardFree c \<longleftrightarrow> cf_card c = CardNone"

definition Provider :: "config \<Rightarrow> provider" where
  "Provider c = \<lparr>pv_project = wc_project (cf_wif c), pv_pool = wc_pool (cf_wif c),
     pv_provider = wc_provider (cf_wif c), pv_issuer = wc_issuer (cf_wif c)\<rparr>"

definition AliasTargets :: "config \<Rightarrow> (string, string) gomap" where
  "AliasTargets c = map (\<lambda>(name, a). (name, al_target a)) (cf_aliases c)"

fun keys_by_serial :: "(string, key_config) gomap \<Rightarrow> (u32, key_config) gomap \<Rightarrow> (u32, key_config) gomap" where
  "keys_by_serial [] acc = acc"
| "keys_by_serial ((name, key) # ks) acc =
     (case parse_uint 32 name of
        Some serial \<Rightarrow>
          if serial \<noteq> 0
          then keys_by_serial ks (AList.update (of_nat serial) \<lparr>kc_jwk_kid = trim_space (kc_jwk_kid key)\<rparr> acc)
          else keys_by_serial ks acc
      | None \<Rightarrow> keys_by_serial ks acc)"

definition KeysBySerial :: "config \<Rightarrow> (u32, key_config) gomap" where
  "KeysBySerial c = keys_by_serial (cf_keys c) []"

definition YubiKeySerials :: "config \<Rightarrow> u32 list" where
  "YubiKeySerials c = sort (map fst (KeysBySerial c))"

subsection \<open>The issuer URI\<close>

text \<open>\<open>net/url.Parse\<close>, as far as the check reads its result. A percent sign, a bracket, a
  control character or a non-ASCII byte is treated as an ordinary character: a string
  holding one is refused by the check's own allowlist in any case, and only which of the
  refusals it gets is not modelled.\<close>

record url =
  ul_scheme :: string
  ul_user :: bool
  ul_host :: string
  ul_raw_query :: string
  ul_force_query :: bool
  ul_fragment :: string

fun get_scheme :: "string \<Rightarrow> string \<Rightarrow> string \<Rightarrow> (string \<times> string) option" where
  "get_scheme raw acc [] = Some ([], raw)"
| "get_scheme raw acc (c # s) =
     (if is_lower c \<or> is_upper c then get_scheme raw (c # acc) s
      else if is_digit c \<or> c \<in> {CHR ''+'', CHR ''-'', CHR ''.''}
        then (if acc = [] then Some ([], raw) else get_scheme raw (c # acc) s)
      else if c = CHR '':'' then (if acc = [] then None else Some (rev acc, s))
      else Some ([], raw))"

definition cut_or_all :: "char \<Rightarrow> string \<Rightarrow> string \<times> string" where
  "cut_or_all c s = (case cut c s of Some (a, b) \<Rightarrow> (a, b) | None \<Rightarrow> (s, []))"

definition last_index :: "char \<Rightarrow> string \<Rightarrow> (string \<times> string) option" where
  "last_index c s = (case cut c (rev s) of Some (a, b) \<Rightarrow> Some (rev b, c # rev a) | None \<Rightarrow> None)"

definition valid_optional_port :: "string \<Rightarrow> bool" where
  "valid_optional_port p \<longleftrightarrow> p = [] \<or> (hd p = CHR '':'' \<and> list_all is_digit (tl p))"

definition parse_authority :: "string \<Rightarrow> (bool \<times> string) option" where
  "parse_authority authority =
     (let (user, host) = (case last_index (CHR ''@'') authority of
                            Some (_, h) \<Rightarrow> (True, tl h) | None \<Rightarrow> (False, authority))
      in case last_index (CHR '':'') host of
           Some (_, port) \<Rightarrow> if valid_optional_port port then Some (user, host) else None
         | None \<Rightarrow> Some (user, host))"

definition url_rest :: "string \<Rightarrow> bool \<Rightarrow> string \<Rightarrow> string \<Rightarrow> string \<Rightarrow> url option" where
  "url_rest scheme force query fragment rest =
     (let u = \<lparr>ul_scheme = to_lower scheme, ul_user = False, ul_host = [], ul_raw_query = query,
               ul_force_query = force, ul_fragment = fragment\<rparr> in
      if \<not> has_prefix [slash] rest \<and> scheme \<noteq> [] then Some u
      else if \<not> has_prefix [slash] rest \<and> CHR '':'' \<in> set (fst (cut_or_all slash rest)) then None
      else if (scheme \<noteq> [] \<or> \<not> has_prefix [slash, slash, slash] rest) \<and> has_prefix [slash, slash] rest
      then (case parse_authority (takeWhile (\<lambda>c. c \<noteq> slash) (drop 2 rest)) of
              None \<Rightarrow> None
            | Some (user, host) \<Rightarrow> Some (u\<lparr>ul_user := user, ul_host := host\<rparr>))
      else Some u)"

definition url_parse :: "string \<Rightarrow> url option" where
  "url_parse raw =
     (let (before, fragment) = cut_or_all (CHR ''#'') raw in
      case get_scheme before [] before of
        None \<Rightarrow> None
      | Some (scheme, rest) \<Rightarrow>
          if has_suffix ''?'' rest \<and> CHR ''?'' \<notin> set (butlast rest)
          then url_rest scheme True [] fragment (butlast rest)
          else let (r, query) = cut_or_all (CHR ''?'') rest in url_rest scheme False query fragment r)"

definition url_hostname :: "url \<Rightarrow> string" where
  "url_hostname u =
     (case last_index (CHR '':'') (ul_host u) of
        Some (host, port) \<Rightarrow> if valid_optional_port port then host else ul_host u
      | None \<Rightarrow> ul_host u)"

definition issuer_char :: "char \<Rightarrow> bool" where
  [char_defs]: "issuer_char c \<longleftrightarrow> is_lower c \<or> is_upper c \<or> is_digit c \<or>
     c = CHR ''.'' \<or> c = CHR ''_'' \<or> c = CHR ''~'' \<or> c = CHR '':'' \<or> c = slash \<or> c = CHR ''-''"

definition bannedHosts :: "string list" where
  "bannedHosts = [''google.com'', ''googleapis.com'', ''googleusercontent.com'', ''gstatic.com'']"

text \<open>\<open>None\<close> is the nil error; otherwise the message.\<close>

definition validateIssuerURI :: "string \<Rightarrow> string option" where
  "validateIssuerURI raw =
     (if trim_space raw = [] then Some ''is required''
      else case url_parse raw of
          None \<Rightarrow> Some ''must be a valid URL''
        | Some u \<Rightarrow>
            if ul_scheme u \<noteq> ''https'' then Some ''must use https''
            else if ul_host u = [] \<or> url_hostname u = [] then Some ''must include a host''
            else if ul_user u then Some ''must not include user info''
            else if ul_raw_query u \<noteq> [] \<or> ul_force_query u \<or> ul_fragment u \<noteq> []
            then Some ''must not include a query or fragment''
            else case filter (\<lambda>c. \<not> issuer_char c) raw of
                c # _ \<Rightarrow> Some (''must contain only letters, digits, and '' @ go_quote ''.-_~:/''
                            @ '' (found '' @ [squote, c, squote] @ '')'')
              | [] \<Rightarrow>
                  (let host = trim_suffix ''.'' (to_lower (url_hostname u)) in
                   if \<exists>banned\<in>set bannedHosts. host = banned \<or> has_suffix (CHR ''.'' # banned) host
                   then Some ''must not be a Google-owned issuer'' else None))"

subsection \<open>Validation\<close>

definition complain :: "bool \<Rightarrow> string \<Rightarrow> string list" where
  "complain bad message = (if bad then [message] else [])"

lemma complain_Nil [simp]: "complain b m = [] \<longleftrightarrow> \<not> b"
  by (simp add: complain_def)

definition top_errors :: "config \<Rightarrow> string list" where
  "top_errors c =
     complain (cf_piv_slot c \<noteq> ''9c'')
       (''config key '' @ go_quote ''piv_slot'' @ '' must be '' @ go_quote ''9c'' @ '', got '' @ go_quote (cf_piv_slot c)) @
     complain (cf_pin_cache c \<noteq> ''session'' \<and> cf_pin_cache c \<noteq> ''never'')
       (''config key '' @ go_quote ''pin_cache'' @ '' must be '' @ go_quote ''session'' @ '' or '' @ go_quote ''never''
         @ '', got '' @ go_quote (cf_pin_cache c)) @
     complain (cf_card c \<noteq> CardLocal \<and> cf_card c \<noteq> CardNone)
       (''config key '' @ go_quote ''card'' @ '' must be '' @ go_quote CardLocal @ '' or '' @ go_quote CardNone
         @ '' ('' @ go_quote ''none'' @ '' declares a card-free ZKA origin), got '' @ go_quote (cf_card c)) @
     complain (cf_gnupg_home c \<noteq> [] \<and> \<not> is_abs (cf_gnupg_home c))
       (''config key '' @ go_quote ''gnupg_home'' @ '' must be an absolute path when set, got '' @ go_quote (cf_gnupg_home c)) @
     complain (cf_max_grant c < 0 \<or> cf_max_grant c > maxGrantWindowCeilingS)
       (''config key '' @ go_quote ''max_grant_window_s'' @ '' must be between 0 and '' @ fmt_int maxGrantWindowCeilingS
         @ '' seconds (0 refuses every claim that asks to be covered by an authorisation window), got '' @ fmt_int (cf_max_grant c))"

definition wif_errors :: "wif_config \<Rightarrow> string list" where
  "wif_errors w =
     complain (\<not> rx_match projectNumberRE (wc_project w))
       (''config key '' @ go_quote ''wif.project_number''
         @ '' must be the nonzero decimal project number (not the project ID), got '' @ go_quote (wc_project w)) @
     complain (\<not> rx_match poolProviderRE (wc_pool w) \<or> has_prefix ''gcp-'' (wc_pool w))
       (''config key '' @ go_quote ''wif.pool_id'' @ '' must be 4-32 lowercase letters, digits, or hyphens, start with a letter, end with a letter or digit, and not start with ''
         @ go_quote ''gcp-'' @ '', got '' @ go_quote (wc_pool w)) @
     complain (\<not> rx_match poolProviderRE (wc_provider w) \<or> has_prefix ''gcp-'' (wc_provider w))
       (''config key '' @ go_quote ''wif.provider_id'' @ '' must be 4-32 lowercase letters, digits, or hyphens, start with a letter, end with a letter or digit, and not start with ''
         @ go_quote ''gcp-'' @ '', got '' @ go_quote (wc_provider w)) @
     (case validateIssuerURI (wc_issuer w) of
        None \<Rightarrow> []
      | Some message \<Rightarrow>
          [''config key '' @ go_quote ''wif.issuer_uri'' @ '' '' @ message @ '', got '' @ go_quote (wc_issuer w)])"

text \<open>The loop over \<open>c.Keys\<close>, with the serials and the key IDs already seen.\<close>

fun key_errors :: "(u32, string) gomap \<Rightarrow> (string, string) gomap \<Rightarrow> (string, key_config) gomap \<Rightarrow> string list" where
  "key_errors serialNames kids [] = []"
| "key_errors serialNames kids ((name, key) # ks) =
     (case parse_uint 32 name of
        None \<Rightarrow>
          (''config key '' @ go_quote (''keys.'' @ name) @ '' must use a positive integer YubiKey serial'')
            # key_errors serialNames kids ks
      | Some value \<Rightarrow>
          if value = 0
          then (''config key '' @ go_quote (''keys.'' @ name) @ '' must use a positive integer YubiKey serial'')
            # key_errors serialNames kids ks
          else
            let serial = (of_nat value :: u32);
                kid = trim_space (kc_jwk_kid key);
                dup = (case map_of serialNames serial of
                         Some previous \<Rightarrow> [''config keys '' @ go_quote (''keys.'' @ previous) @ '' and ''
                           @ go_quote (''keys.'' @ name) @ '' name the same YubiKey serial'']
                       | None \<Rightarrow> []);
                names = (case map_of serialNames serial of
                           Some _ \<Rightarrow> serialNames | None \<Rightarrow> AList.update serial name serialNames)
            in if \<not> rx_match jwkKidRE kid
               then dup @ [''config key '' @ go_quote (''keys.'' @ name @ ''.jwk_kid'') @ '' must be the ''
                   @ fmt_nat KeyIDLength @ ''-character unpadded base64url SHA-256 of the key's SubjectPublicKeyInfo (derive it with `pivb wif jwks`)'']
                 @ key_errors names kids ks
               else (case map_of kids kid of
                   Some previous \<Rightarrow>
                     dup @ [''config keys '' @ go_quote (''keys.'' @ previous @ ''.jwk_kid'') @ '' and ''
                       @ go_quote (''keys.'' @ name @ ''.jwk_kid'') @ '' contain duplicate jwk_kid '' @ go_quote kid]
                     @ key_errors names kids ks
                 | None \<Rightarrow> dup @ key_errors names (AList.update kid name kids) ks))"

definition minus_sign :: string where
  "minus_sign = [CHR 0xE2, CHR 0x88, CHR 0x92]"

definition alias_bounds_errors :: "string \<Rightarrow> alias_config \<Rightarrow> string list" where
  "alias_bounds_errors prefix a =
     complain (al_lifetime_s a < minLifetimeS \<or> al_lifetime_s a > maxLifetimeS)
       (''config key '' @ go_quote (prefix @ ''.lifetime_s'') @ '' must be between '' @ fmt_int minLifetimeS
         @ '' and '' @ fmt_int maxLifetimeS @ '' seconds'') @
     complain (aliasAssertionLifetimeS a < minAssertionLifetimeS \<or> aliasAssertionLifetimeS a > maxAssertionLifetimeSFor a)
       (''config key '' @ go_quote (prefix @ ''.assertion_lifetime_s'') @ '' must be between ''
         @ fmt_int minAssertionLifetimeS @ '' and '' @ fmt_int (maxAssertionLifetimeSFor a)
         @ '' seconds (the lesser of the '' @ fmt_int maxAssertionLifetimeS @ ''s ceiling and config key ''
         @ go_quote (prefix @ ''.lifetime_s'') @ '', so one touch's assertion never outlives the access token it buys), got ''
         @ fmt_int (aliasAssertionLifetimeS a)) @
     complain (al_reuse_s a < 0 \<or> al_reuse_s a > maxAssertionReuseS a)
       (''config key '' @ go_quote (prefix @ ''.assertion_reuse_s'') @ '' must be between 0 and ''
         @ fmt_int (maxAssertionReuseS a) @ '' seconds ('' @ fmt_int (aliasAssertionLifetimeS a) @ ''s assertion lifetime ''
         @ minus_sign @ '' '' @ fmt_int (ClockSkew div second) @ ''s iat backdating '' @ minus_sign @ '' ''
         @ fmt_int minRemainingValidityS @ ''s minimum remaining validity), got '' @ fmt_int (al_reuse_s a))"

fun alias_errors :: "(string, string) gomap \<Rightarrow> (string, alias_config) gomap \<Rightarrow> string list" where
  "alias_errors targets [] = []"
| "alias_errors targets ((name, a) # as) =
     (let prefix = ''aliases.'' @ name;
          e1 = complain (\<not> rx_match aliasNameRE name)
            (''config alias name '' @ go_quote name @ '' must be 1-32 lowercase letters, digits, or hyphens, starting with a letter and ending with a letter or digit'');
          e2 = complain (al_cloud a \<noteq> ''gcp'')
            (''config key '' @ go_quote (prefix @ ''.cloud'') @ '' uses unsupported cloud '' @ go_quote (al_cloud a)
              @ '' (only '' @ go_quote ''gcp'' @ '' is implemented)'');
          (e3, targets') =
            (if \<not> rx_match targetEmailRE (al_target a)
             then ([''config key '' @ go_quote (prefix @ ''.target'')
                 @ '' must be a service-account email of the form <name>@<project-id>.iam.gserviceaccount.com, got ''
                 @ go_quote (al_target a)], targets)
             else case map_of targets (al_target a) of
                 Some previous \<Rightarrow>
                   ([''config keys '' @ go_quote (''aliases.'' @ previous @ ''.target'') @ '' and ''
                      @ go_quote (prefix @ ''.target'') @ '' share target '' @ go_quote (al_target a)
                      @ ''; give each alias a dedicated target service account''], targets)
               | None \<Rightarrow> ([], AList.update (al_target a) name targets))
      in e1 @ e2 @ e3 @ alias_bounds_errors prefix a @ alias_errors targets' as)"

definition config_Validate :: "config \<Rightarrow> string list" where
  "config_Validate c =
     top_errors c @ wif_errors (cf_wif c) @
     complain (cf_keys c = []) (''config key '' @ go_quote ''keys'' @ '' must contain at least one [keys.<serial>] table'') @
     complain (length (cf_keys c) > MaxJWKSKeys)
       (''config key '' @ go_quote ''keys'' @ '' contains '' @ fmt_nat (length (cf_keys c))
         @ '' keys; Google accepts at most '' @ fmt_nat MaxJWKSKeys @ '' uploaded JWKs per OIDC provider'') @
     key_errors [] [] (cf_keys c) @
     complain (cf_aliases c = []) (''config key '' @ go_quote ''aliases'' @ '' must contain at least one alias'') @
     alias_errors [] (cf_aliases c)"

text \<open>\<open>Load\<close> after \<open>toml.Decode\<close>: the decoded struct and the names of the undecoded keys.\<close>

definition config_Load :: "config \<Rightarrow> string list \<Rightarrow> config res" where
  "config_Load decoded undecoded =
     (if undecoded \<noteq> [] then
        (let retired = filter isRetiredKey undecoded in
         if retired \<noteq> []
         then Inl (ErrText (''config key(s) '' @ join '', '' (sort retired)
           @ '' belong to the retired metadata/broker architecture and are no longer supported; migrate to the Workload Identity Federation schema described in README.md''))
         else Inl (ErrText (''unknown config key(s): '' @ join '', '' (sort undecoded))))
      else
        let c = applyDefaults decoded in
        if config_Validate c \<noteq> [] then Inl (ErrText (join [newline] (config_Validate c))) else Inr c)"

subsection \<open>What a valid configuration is\<close>

definition issuer_ok :: "string \<Rightarrow> bool" where
  "issuer_ok raw \<longleftrightarrow> validateIssuerURI raw = None"

definition alias_ok :: "alias_config \<Rightarrow> bool" where
  "alias_ok a \<longleftrightarrow> al_cloud a = ''gcp'' \<and> rx_match targetEmailRE (al_target a) \<and>
     600 \<le> al_lifetime_s a \<and> al_lifetime_s a \<le> 3600 \<and>
     300 \<le> aliasAssertionLifetimeS a \<and> aliasAssertionLifetimeS a \<le> al_lifetime_s a \<and>
     0 \<le> al_reuse_s a \<and> al_reuse_s a + 90 \<le> aliasAssertionLifetimeS a"

definition key_ok :: "string \<times> key_config \<Rightarrow> bool" where
  "key_ok nk \<longleftrightarrow> (\<exists>v. parse_uint 32 (fst nk) = Some v \<and> v \<noteq> 0) \<and> rx_match jwkKidRE (trim_space (kc_jwk_kid (snd nk)))"

definition serial_of :: "string \<times> key_config \<Rightarrow> nat" where
  "serial_of nk = the (parse_uint 32 (fst nk))"

definition kid_of :: "string \<times> key_config \<Rightarrow> string" where
  "kid_of nk = trim_space (kc_jwk_kid (snd nk))"

definition config_ok :: "config \<Rightarrow> bool" where
  "config_ok c \<longleftrightarrow>
     cf_piv_slot c = ''9c'' \<and> cf_pin_cache c \<in> {''session'', ''never''} \<and> cf_card c \<in> {''local'', ''none''} \<and>
     (cf_gnupg_home c = [] \<or> is_abs (cf_gnupg_home c)) \<and> 0 \<le> cf_max_grant c \<and> cf_max_grant c \<le> 43200 \<and>
     rx_match projectNumberRE (wc_project (cf_wif c)) \<and>
     rx_match poolProviderRE (wc_pool (cf_wif c)) \<and> \<not> has_prefix ''gcp-'' (wc_pool (cf_wif c)) \<and>
     rx_match poolProviderRE (wc_provider (cf_wif c)) \<and> \<not> has_prefix ''gcp-'' (wc_provider (cf_wif c)) \<and>
     issuer_ok (wc_issuer (cf_wif c)) \<and>
     1 \<le> length (cf_keys c) \<and> length (cf_keys c) \<le> 8 \<and> list_all key_ok (cf_keys c) \<and>
     distinct (map serial_of (cf_keys c)) \<and> distinct (map kid_of (cf_keys c)) \<and>
     cf_aliases c \<noteq> [] \<and>
     list_all (\<lambda>(name, a). rx_match aliasNameRE name \<and> alias_ok a) (cf_aliases c) \<and>
     distinct (map (\<lambda>p. al_target (snd p)) (cf_aliases c))"

lemma alias_bounds_Nil:
  "alias_bounds_errors p a = [] \<and> al_cloud a = ''gcp'' \<and> rx_match targetEmailRE (al_target a) \<longleftrightarrow> alias_ok a"
proof -
  have m: "maxAssertionLifetimeSFor a = (if 600 \<le> al_lifetime_s a \<and> al_lifetime_s a < 3600 then al_lifetime_s a else 3600)"
    by (simp add: maxAssertionLifetimeSFor_def go_eval)
  have r: "maxAssertionReuseS a = aliasAssertionLifetimeS a - 90"
    by (simp add: maxAssertionReuseS_def go_eval)
  show ?thesis
    by (auto simp: alias_bounds_errors_def alias_ok_def m r minLifetimeS_def maxLifetimeS_def
        minAssertionLifetimeS_def defaultAssertionLifetimeS_def DefaultLifetime_def)
qed

lemma alias_errors_Nil:
  "alias_errors targets as = [] \<longleftrightarrow>
     list_all (\<lambda>(name, a). rx_match aliasNameRE name \<and> alias_ok a) as \<and>
     distinct (map (\<lambda>p. al_target (snd p)) as) \<and>
     (\<forall>p\<in>set as. map_of targets (al_target (snd p)) = None)"
proof (induction as arbitrary: targets)
  case (Cons p as)
  obtain name a where p: "p = (name, a)" by (cases p)
  note b = alias_bounds_Nil [of "''aliases.'' @ name" a]
  have d: "(\<forall>q\<in>set as. map_of (AList.update (al_target a) name targets) (al_target (snd q)) = None) \<longleftrightarrow>
      al_target a \<notin> (\<lambda>q. al_target (snd q)) ` set as \<and> (\<forall>q\<in>set as. map_of targets (al_target (snd q)) = None)"
    unfolding update_conv' fun_upd_apply image_iff by (metis option.distinct(1))
  show ?case
    using b d Cons.IH by (auto simp: p Let_def split: option.splits)
qed simp

lemma of_nat_u32_inject: "m < 2 ^ 32 \<Longrightarrow> n < 2 ^ 32 \<Longrightarrow> (of_nat m :: u32) = of_nat n \<longleftrightarrow> m = n"
proof
  assume b: "m < 2 ^ 32" "n < 2 ^ 32" and e: "(of_nat m :: u32) = of_nat n"
  from e have "unat (of_nat m :: u32) = unat (of_nat n :: u32)" by simp
  with b show "m = n" by (simp add: unat_of_nat take_bit_eq_mod)
qed simp

lemma distinct_step:
  assumes "P p" and "A p" and "B p"
  shows "list_all P ks \<and> distinct (map f ks) \<and> distinct (map g ks) \<and>
      (\<forall>q\<in>set ks. f q \<noteq> f p \<and> g q \<noteq> g p \<and> A q \<and> B q) \<longleftrightarrow>
    list_all P (p # ks) \<and> distinct (map f (p # ks)) \<and> distinct (map g (p # ks)) \<and>
      (\<forall>q\<in>set (p # ks). A q \<and> B q)"
  using assms by auto (metis image_eqI)+

lemma key_errors_Nil:
  "key_errors serials kids ks = [] \<longleftrightarrow>
     list_all key_ok ks \<and> distinct (map serial_of ks) \<and> distinct (map kid_of ks) \<and>
     (\<forall>k\<in>set ks. map_of serials (of_nat (serial_of k)) = None \<and> map_of kids (kid_of k) = None)"
proof (induction ks arbitrary: serials kids)
  case (Cons p ks)
  obtain name key where p: "p = (name, key)" by (cases p)
  show ?case
  proof (cases "key_ok p \<and> map_of serials (of_nat (serial_of p)) = None \<and> map_of kids (kid_of p) = None")
    case False
    then show ?thesis
      by (auto simp: p key_ok_def serial_of_def kid_of_def Let_def split: option.splits)
  next
    case True
    then obtain v where v: "parse_uint 32 name = Some v" "v \<noteq> 0" by (auto simp: p key_ok_def)
    let ?s = "AList.update (of_nat v) name serials" and ?k = "AList.update (kid_of p) name kids"
    have e: "key_errors serials kids (p # ks) = key_errors ?s ?k ks"
      using True v by (simp add: p key_ok_def serial_of_def kid_of_def Let_def)
    have s: "(of_nat (serial_of q) :: u32) = of_nat v \<longleftrightarrow> serial_of q = serial_of p" if "key_ok q" for q
    proof -
      from that obtain w where w: "parse_uint 32 (fst q) = Some w" by (auto simp: key_ok_def)
      show ?thesis
        using of_nat_u32_inject [OF parse_uint_bound [OF w] parse_uint_bound [OF v(1)]] v w
        by (simp add: p serial_of_def)
    qed
    have "key_errors serials kids (p # ks) = [] \<longleftrightarrow>
        list_all key_ok ks \<and> distinct (map serial_of ks) \<and> distinct (map kid_of ks) \<and>
        (\<forall>q\<in>set ks. map_of ?s (of_nat (serial_of q)) = None \<and> map_of ?k (kid_of q) = None)"
      unfolding e by (rule Cons.IH)
    also have "\<dots> \<longleftrightarrow> list_all key_ok ks \<and> distinct (map serial_of ks) \<and> distinct (map kid_of ks) \<and>
        (\<forall>q\<in>set ks. serial_of q \<noteq> serial_of p \<and> kid_of q \<noteq> kid_of p \<and>
           map_of serials (of_nat (serial_of q)) = None \<and> map_of kids (kid_of q) = None)"
    proof -
      have "(map_of ?s (of_nat (serial_of q)) = None \<and> map_of ?k (kid_of q) = None) \<longleftrightarrow>
          serial_of q \<noteq> serial_of p \<and> kid_of q \<noteq> kid_of p \<and>
           map_of serials (of_nat (serial_of q)) = None \<and> map_of kids (kid_of q) = None" if "key_ok q" for q
        using s [OF that] by (simp add: update_conv')
      then show ?thesis unfolding list_all_iff by blast
    qed
    also have "\<dots> \<longleftrightarrow> list_all key_ok (p # ks) \<and> distinct (map serial_of (p # ks)) \<and> distinct (map kid_of (p # ks)) \<and>
        (\<forall>k\<in>set (p # ks). map_of serials (of_nat (serial_of k)) = None \<and> map_of kids (kid_of k) = None)"
      by (rule distinct_step) (use True in simp_all)
    finally show ?thesis .
  qed
qed simp

lemma top_errors_Nil:
  "top_errors c = [] \<longleftrightarrow>
     cf_piv_slot c = ''9c'' \<and> cf_pin_cache c \<in> {''session'', ''never''} \<and> cf_card c \<in> {''local'', ''none''} \<and>
     (cf_gnupg_home c = [] \<or> is_abs (cf_gnupg_home c)) \<and> 0 \<le> cf_max_grant c \<and> cf_max_grant c \<le> 43200"
  unfolding top_errors_def append_is_Nil_conv complain_Nil CardLocal_def CardNone_def maxGrantWindowCeilingS_def
  by auto

lemma wif_errors_Nil:
  "wif_errors w = [] \<longleftrightarrow>
     rx_match projectNumberRE (wc_project w) \<and>
     rx_match poolProviderRE (wc_pool w) \<and> \<not> has_prefix ''gcp-'' (wc_pool w) \<and>
     rx_match poolProviderRE (wc_provider w) \<and> \<not> has_prefix ''gcp-'' (wc_provider w) \<and>
     issuer_ok (wc_issuer w)"
  unfolding wif_errors_def append_is_Nil_conv complain_Nil issuer_ok_def by (auto split: option.splits)

lemma Validate_Nil: "config_Validate c = [] \<longleftrightarrow> config_ok c"
  unfolding config_Validate_def append_is_Nil_conv complain_Nil top_errors_Nil wif_errors_Nil
    key_errors_Nil alias_errors_Nil config_ok_def MaxJWKSKeys_def
  by (cases "cf_keys c") auto


subsection \<open>Consequences of validity\<close>

lemma issuer_ok_chars: "issuer_ok raw \<Longrightarrow> list_all issuer_char raw"
  by (auto simp: issuer_ok_def validateIssuerURI_def list_all_iff filter_empty_conv
      split: if_splits option.splits list.splits)

lemma no_squote_issuer: "issuer_ok raw \<Longrightarrow> squote \<notin> set raw"
  using issuer_ok_chars by (fastforce simp: list_all_iff char_defs)

lemma no_squote_rx:
  "rx_match projectNumberRE s \<Longrightarrow> squote \<notin> set s" "rx_match poolProviderRE s \<Longrightarrow> squote \<notin> set s"
  "rx_match aliasNameRE s \<Longrightarrow> squote \<notin> set s" "rx_match targetEmailRE s \<Longrightarrow> squote \<notin> set s"
  by (auto dest!: rx_match_chars simp: projectNumberRE_def poolProviderRE_def aliasNameRE_def
      targetEmailRE_def rx_chars_lit char_defs)

lemma target_nonempty: "rx_match targetEmailRE t \<Longrightarrow> t \<noteq> []"
  by (auto simp: targetEmailRE_def rx_match_def)

lemma config_ok_alias:
  "config_ok c \<Longrightarrow> (n, a) \<in> set (cf_aliases c) \<Longrightarrow> rx_match aliasNameRE n \<and> alias_ok a"
  by (auto simp: config_ok_def list_all_iff)

lemma map_of_AliasTargets: "map_of (AliasTargets c) n = map_option al_target (map_of (cf_aliases c) n)"
  by (simp add: AliasTargets_def map_of_map)

text \<open>The attribute condition generated from a valid configuration cannot be injected
  into. Generation succeeds, and the single-quoted literals of the condition are exactly the
  issuer, the audience, the subject prefix and then every alias followed by its own target,
  in name order: no configured value can close its literal, add a clause, or be paired with
  another alias's target.\<close>

lemma valid_config_condition:
  assumes "config_ok c"
  shows "\<exists>cond. AttributeCondition (Provider c) (AliasTargets c) = Inr cond \<and>
    cel_literals cond = [wc_issuer (cf_wif c), OIDCAudience (Provider c), SubjectPrefix] @
      concat (map (\<lambda>n. [n, al_target (the (map_of (cf_aliases c) n))]) (sort (map fst (cf_aliases c))))"
proof -
  let ?m = "AliasTargets c"
  have keys: "map fst ?m = map fst (cf_aliases c)" by (auto simp: AliasTargets_def)
  have i: "squote \<notin> set (pv_issuer (Provider c))"
    using assms no_squote_issuer by (simp add: config_ok_def Provider_def)
  have a: "squote \<notin> set (OIDCAudience (Provider c))"
    using assms no_squote_rx(1,2) by (auto simp: OIDCAudience_def Resource_def Provider_def config_ok_def)
  have v: "\<forall>(n, t)\<in>set ?m. squote \<notin> set n \<and> squote \<notin> set t"
    using config_ok_alias [OF assms] no_squote_rx(3,4) by (fastforce simp: AliasTargets_def alias_ok_def)
  have t: "\<forall>n\<in>fst ` set ?m. map_of ?m n \<noteq> Some []"
    using config_ok_alias [OF assms] target_nonempty
    by (fastforce simp: map_of_AliasTargets alias_ok_def dest: map_of_SomeD)
  have "?m \<noteq> []" using assms by (simp add: AliasTargets_def config_ok_def)
  with t AttributeCondition_literals [OF i a v] obtain cond where
    c: "AttributeCondition (Provider c) ?m = Inr cond"
    and l: "cel_literals cond = [pv_issuer (Provider c), OIDCAudience (Provider c), SubjectPrefix] @
        concat (map (\<lambda>n. [n, the (map_of ?m n)]) (sort (map fst ?m)))"
    by blast
  have "the (map_of ?m n) = al_target (the (map_of (cf_aliases c) n))" if "n \<in> fst ` set (cf_aliases c)" for n
    using that by (auto simp: map_of_AliasTargets) (metis map_of_eq_None_iff fst_conv image_eqI option.collapse option.map_sel)
  then have "map (\<lambda>n. [n, the (map_of ?m n)]) (sort (map fst ?m))
      = map (\<lambda>n. [n, al_target (the (map_of (cf_aliases c) n))]) (sort (map fst (cf_aliases c)))"
    unfolding keys by (intro map_cong) auto
  with c l show ?thesis by (auto simp: Provider_def)
qed

text \<open>Loading is all or nothing. For a decoded document, \<open>Load\<close> returns a configuration
  exactly when no key of the document was left undecoded and the defaulted document is
  valid, and what it returns is that defaulted document; in it every alias has the explicit
  cloud, lifetimes and reuse bound validation demands, and loading it again changes nothing.\<close>

lemma config_Load_iff:
  "config_Load d undecoded = Inr c \<longleftrightarrow>
     undecoded = [] \<and> c = applyDefaults d \<and> config_ok c \<and> config_Load c [] = Inr c"
proof -
  have "applyDefaults (applyDefaults d) = applyDefaults d"
    by (auto simp: applyDefaults_def default_alias_def Let_def defaultLifetimeS_def CardLocal_def
        defaultAssertionLifetimeS_def DefaultLifetime_def split: prod.splits)
  then show ?thesis
    by (auto simp: config_Load_def Let_def Validate_Nil)
qed

definition demo_alias :: alias_config where
  "demo_alias = \<lparr>al_cloud = ''gcp'', al_target = ''a@aproject.iam.gserviceaccount.com'', al_lifetime_s = 3600,
     al_reuse_s = 0, al_assertion_lifetime_s = 300\<rparr>"

definition demo_config :: config where
  "demo_config = \<lparr>cf_piv_slot = ''9c'', cf_pin_cache = ''session'', cf_notify = None, cf_gnupg_home = [],
     cf_card = ''local'', cf_max_grant = 600,
     cf_wif = \<lparr>wc_project = ''1'', wc_pool = ''pool'', wc_provider = ''prov'', wc_issuer = ''https://i.x''\<rparr>,
     cf_keys = [(''7'', \<lparr>kc_jwk_kid = demo_kid\<rparr>)], cf_aliases = [(''ro'', demo_alias)]\<rparr>"

lemma demo_kid_matches: "rx_match jwkKidRE demo_kid \<and> trim_space demo_kid = demo_kid"
proof -
  have c: "b64_class c \<and> \<not> is_space c \<and> cp c < 128" if "c \<in> set demo_kid" for c
  proof -
    from that obtain v where "v < 64" "c = b64_char v"
      unfolding demo_kid_def using b64_encode_chars by blast
    then show ?thesis by (auto simp: b64_char_def char_defs)
  qed
  have "length demo_kid = 43" unfolding demo_kid_def length_b64_encode by simp
  with c show ?thesis
    unfolding jwkKidRE_def rx_match_lang rx_lang_Rep_Cls list_all_iff by (simp add: trim_space_id)
qed

lemma demo_target_matches: "rx_match targetEmailRE ''a@aproject.iam.gserviceaccount.com''"
  by (simp add: targetEmailRE_def rx_match_def char_defs numeral_eq_Suc)

lemma demo_issuer_ok: "issuer_ok ''https://i.x''"
proof -
  have t: "trim_space ''https://i.x'' = ''https://i.x''" by (rule trim_space_id) (simp add: char_defs)
  have p: "url_parse ''https://i.x'' = Some \<lparr>ul_scheme = ''https'', ul_user = False, ul_host = ''i.x'',
      ul_raw_query = [], ul_force_query = False, ul_fragment = []\<rparr>"
    by (simp add: url_parse_def cut_or_all_def cut_def char_defs has_suffix_def has_prefix_def url_rest_def
        parse_authority_def last_index_def to_lower_def lower_char_def Let_def)
  show ?thesis
    unfolding issuer_ok_def validateIssuerURI_def t p
    by (simp add: url_hostname_def last_index_def cut_def char_defs Let_def to_lower_def lower_char_def
        trim_suffix_def has_suffix_def bannedHosts_def)
qed

lemma demo_identity_matches:
  "rx_match projectNumberRE ''1''" "rx_match poolProviderRE ''pool''" "rx_match poolProviderRE ''prov''"
  "rx_match aliasNameRE ''ro''"
  by (simp_all add: projectNumberRE_def poolProviderRE_def aliasNameRE_def rx_match_def char_defs numeral_eq_Suc)

lemma demo_serial: "parse_uint 32 ''7'' = Some 7"
  by (simp add: parse_uint_def digits_value_def char_defs)

lemma demo_config_ok: "config_ok demo_config"
  by (simp add: config_ok_def demo_config_def demo_alias_def key_ok_def demo_serial demo_identity_matches
      demo_kid_matches demo_target_matches demo_issuer_ok alias_ok_def aliasAssertionLifetimeS_def has_prefix_def)

end
