(* ===== verification/Jsonhttp.thy ===== *)
theory Jsonhttp
  imports Go_Error
begin

text \<open>
  \<open>internal/jsonhttp\<close> and the HTTP exchange the Unix-socket APIs share. The bytes on the
  wire and \<open>encoding/json\<close>'s reading of a nested document are inputs: a request carries
  what reading and decoding its body gave, a response what the client read. A reply is what
  a handler writes, exactly one JSON document with a status.
\<close>

datatype 'r reply = Reply int 'r | ErrorReply int error_response

record 'q request_body =
  rb_read :: "gerror option"
  rb_peek :: "int option"
  rb_value :: "gerror + 'q"
  rb_more :: bool

definition error_response_of :: "api_error \<Rightarrow> error_response" where
  "error_response_of e = \<lparr>er_error = ae_message e, er_code = ae_code e, er_remedy = ae_remedy e\<rparr>"

text \<open>\<open>jsonhttp.Decode\<close> and \<open>decodeStrict\<close>: one document without unknown fields, and nothing
  after it.\<close>

definition decode_strict :: "'q request_body \<Rightarrow> 'q res" where
  "decode_strict b =
     (case rb_value b of
        Inl e \<Rightarrow> Inl (ErrWrap ''invalid JSON body: '' e)
      | Inr v \<Rightarrow> if rb_more b then Inl (ErrText ''invalid JSON body: multiple values'') else Inr v)"

definition jsonhttp_Decode :: "'q request_body \<Rightarrow> 'q res" where
  "jsonhttp_Decode b =
     (case rb_read b of
        Some e \<Rightarrow> Inl (ErrWrap ''invalid JSON body: '' e)
      | None \<Rightarrow> decode_strict b)"

text \<open>What a client's \<open>Do\<close> and \<open>ReadAll\<close> gave: a failure to reach or to read the endpoint,
  or a status and a body with the decodings the client may ask for.\<close>

record 'r response_body =
  rs_status :: int
  rs_bytes :: bytes
  rs_error :: "error_response option"
  rs_value :: "gerror + 'r"
  rs_more :: bool

datatype 'r exchange = NoConnection gerror | NoBody gerror | Answer "'r response_body"

definition MaxResponseBody :: nat where [go_eval]: "MaxResponseBody = 65536"

end
