(* ===== verification/AgentSource.thy ===== *)
theory AgentSource
  imports Go_Error Go_Regex
begin

text \<open>
  \<open>internal/agentsource\<close>: the operator context attached to a request. A source is
  local, or names an agent session by a label \<open>agent:project/role\<close> and a session id;
  \<open>Validate\<close> is applied before either reaches a prompt, a log or a notification.
\<close>

record source =
  src_kind :: string
  src_label :: string
  src_session :: string

record source_label =
  lb_agent :: string
  lb_project :: string
  lb_role :: string

definition KindLocal :: string where [go_eval]: "KindLocal = ''local-wif''"
definition KindAgentSession :: string where [go_eval]: "KindAgentSession = ''agent-session''"
definition SessionIDLength :: nat where [go_eval]: "SessionIDLength = 32"
definition componentMaxLen :: nat where [go_eval]: "componentMaxLen = 32"

definition zero_source :: source where
  [go_eval]: "zero_source = \<lparr>src_kind = [], src_label = [], src_session = []\<rparr>"

definition zero_label :: source_label where
  [go_eval]: "zero_label = \<lparr>lb_agent = [], lb_project = [], lb_role = []\<rparr>"

definition Local :: source where
  [go_eval]: "Local = \<lparr>src_kind = KindLocal, src_label = [], src_session = []\<rparr>"

definition Agent :: "string \<Rightarrow> string \<Rightarrow> source" where
  [go_eval]: "Agent label sessionID =
     \<lparr>src_kind = KindAgentSession, src_label = label, src_session = sessionID\<rparr>"

definition component_char :: "char \<Rightarrow> bool" where
  [char_defs]: "component_char c \<longleftrightarrow> is_lower c \<or> is_digit c \<or> cp c = 46 \<or> cp c = 95 \<or> cp c = 45"

definition hex_char :: "char \<Rightarrow> bool" where
  [char_defs]: "hex_char c \<longleftrightarrow> is_digit c \<or> (97 \<le> cp c \<and> cp c \<le> 102)"

definition componentRE :: rx where
  "componentRE = Seq (Cls is_lower) (Rep (Cls component_char) 0 31)"

definition sessionIDRE :: rx where
  "sessionIDRE = Rep (Cls hex_char) 32 32"

definition label_form_error :: gerror where
  "label_form_error = ErrText ''source label must have the form <agent>:<project>/<role>''"

definition component_error :: "string \<Rightarrow> gerror" where
  "component_error name = ErrText (''source label '' @ name @ '' must be 1-'' @ fmt_nat componentMaxLen
     @ '' lowercase ASCII letters, digits, dots, underscores, or hyphens and start with a letter'')"

fun first_bad_part :: "(string \<times> string) list \<Rightarrow> gerror option" where
  "first_bad_part [] = None"
| "first_bad_part ((name, part) # ps) =
     (if \<not> rx_match componentRE part then Some (component_error name) else first_bad_part ps)"

definition ParseLabel :: "string \<Rightarrow> source_label res" where
  "ParseLabel raw =
     (case cut (CHR '':'') raw of
        None \<Rightarrow> Inl label_form_error
      | Some (agent, rest) \<Rightarrow>
          (case cut (CHR 0x2F) rest of
             None \<Rightarrow> Inl label_form_error
           | Some (project, role) \<Rightarrow>
               if CHR 0x2F \<in> set role then Inl label_form_error
               else case first_bad_part [(''agent'', agent), (''project'', project), (''role'', role)] of
                   Some e \<Rightarrow> Inl e
                 | None \<Rightarrow> Inr \<lparr>lb_agent = agent, lb_project = project, lb_role = role\<rparr>))"

definition ValidateSessionID :: "string \<Rightarrow> gerror option" where
  "ValidateSessionID i =
     (if \<not> rx_match sessionIDRE i
      then Some (ErrText (''session ID must be exactly '' @ fmt_nat SessionIDLength
                          @ '' lowercase hexadecimal characters''))
      else None)"

definition source_Validate :: "source \<Rightarrow> string \<Rightarrow> (source \<times> source_label) res" where
  "source_Validate source0 alias =
     (let source = (if source0 = zero_source then Local else source0) in
      if src_kind source = KindLocal then
        (if src_label source \<noteq> [] \<or> src_session source \<noteq> []
         then Inl (ErrText ''local-wif request source must not carry a label or session ID'')
         else Inr (source, zero_label))
      else if src_kind source \<noteq> KindAgentSession
      then Inl (ErrText (''unsupported request source kind '' @ go_quote (src_kind source)))
      else case ParseLabel (src_label source) of
          Inl e \<Rightarrow> Inl e
        | Inr label \<Rightarrow>
            if lb_role label \<noteq> alias
            then Inl (ErrText (''source label role '' @ go_quote (lb_role label)
                        @ '' does not match alias '' @ go_quote alias))
            else case ValidateSessionID (src_session source) of
                Some e \<Rightarrow> Inl e
              | None \<Rightarrow> Inr (source, label))"

text \<open>The prompt text; the arrow and the middle dot are UTF-8.\<close>

definition SigningLabel :: "source \<Rightarrow> string \<Rightarrow> string \<Rightarrow> string" where
  "SigningLabel source alias target =
     (let local_text = alias @ '' '' @ [CHR 0xE2, CHR 0x86, CHR 0x92] @ '' '' @ target @ '' (local-wif)'' in
      case source_Validate source alias of
        Inl _ \<Rightarrow> local_text
      | Inr (normalized, label) \<Rightarrow>
          if src_kind normalized = KindLocal then local_text
          else ''agent '' @ lb_agent label @ '' '' @ [CHR 0xC2, CHR 0xB7] @ '' project '' @ lb_project label
             @ '' '' @ [CHR 0xC2, CHR 0xB7] @ '' role '' @ lb_role label @ [CHR 0x0A] @ ''session ''
             @ take 12 (src_session normalized) @ [CHR 0x0A] @ ''target '' @ target)"

subsection \<open>What the grammar accepts\<close>

lemma componentRE_iff:
  "rx_match componentRE s \<longleftrightarrow>
     (\<exists>c r. s = c # r \<and> is_lower c \<and> list_all component_char r \<and> length r \<le> 31)"
  by (simp only: componentRE_def rx_readable) auto

lemma sessionIDRE_iff: "rx_match sessionIDRE s \<longleftrightarrow> list_all hex_char s \<and> length s = 32"
  by (simp only: sessionIDRE_def rx_readable) auto

lemma component_chars: "rx_match componentRE s \<Longrightarrow> c \<in> set s \<Longrightarrow> component_char c"
  by (auto simp: componentRE_iff list_all_iff char_defs)

lemma component_no_sep:
  "rx_match componentRE s \<Longrightarrow> CHR '':'' \<notin> set s \<and> CHR 0x2F \<notin> set s \<and> CHR 0x0A \<notin> set s"
  using component_chars [of s "CHR '':''"] component_chars [of s "CHR 0x2F"]
    component_chars [of s "CHR 0x0A"]
  by (auto simp: char_defs)

lemma first_bad_part_None:
  "first_bad_part ps = None \<longleftrightarrow> (\<forall>(n, p)\<in>set ps. rx_match componentRE p)"
  by (induction ps rule: first_bad_part.induct) auto

lemma ParseLabel_Inr:
  "ParseLabel raw = Inr l \<longleftrightarrow>
     raw = lb_agent l @ CHR '':'' # lb_project l @ CHR 0x2F # lb_role l \<and>
     rx_match componentRE (lb_agent l) \<and> rx_match componentRE (lb_project l) \<and>
     rx_match componentRE (lb_role l)"
proof
  assume "ParseLabel raw = Inr l"
  then show "raw = lb_agent l @ CHR '':'' # lb_project l @ CHR 0x2F # lb_role l \<and>
     rx_match componentRE (lb_agent l) \<and> rx_match componentRE (lb_project l) \<and>
     rx_match componentRE (lb_role l)"
    by (auto simp: ParseLabel_def cut_Some first_bad_part_None split: option.splits if_splits)
next
  assume h: "raw = lb_agent l @ CHR '':'' # lb_project l @ CHR 0x2F # lb_role l \<and>
     rx_match componentRE (lb_agent l) \<and> rx_match componentRE (lb_project l) \<and>
     rx_match componentRE (lb_role l)"
  then have "cut (CHR '':'') raw = Some (lb_agent l, lb_project l @ CHR 0x2F # lb_role l)"
    and "cut (CHR 0x2F) (lb_project l @ CHR 0x2F # lb_role l) = Some (lb_project l, lb_role l)"
    and "CHR 0x2F \<notin> set (lb_role l)"
    by (auto simp: cut_Some dest: component_no_sep)
  with h show "ParseLabel raw = Inr l"
    by (simp add: ParseLabel_def)
qed

lemma source_Validate_Inr:
  "source_Validate s alias = Inr (s', l) \<Longrightarrow>
     s' = (if s = zero_source then Local else s) \<and>
     (src_kind s' = KindLocal \<and> s' = Local \<and> l = zero_label \<or>
      src_kind s' = KindAgentSession \<and> src_kind s' \<noteq> KindLocal \<and>
      ParseLabel (src_label s') = Inr l \<and> lb_role l = alias \<and>
      rx_match sessionIDRE (src_session s'))"
  by (cases s)
     (auto simp: source_Validate_def Let_def ValidateSessionID_def Local_def zero_source_def
        KindLocal_def KindAgentSession_def split: if_splits sum.splits)

lemma source_Validate_idem:
  "source_Validate s alias = Inr (s', l) \<Longrightarrow> source_Validate s' alias = Inr (s', l)"
proof -
  assume h: "source_Validate s alias = Inr (s', l)"
  from source_Validate_Inr [OF h] have s': "s' = (if s = zero_source then Local else s)" by blast
  have "Local \<noteq> zero_source" by (simp add: go_eval)
  with s' have "(if s' = zero_source then Local else s') = (if s = zero_source then Local else s)"
    by auto
  with h show ?thesis unfolding source_Validate_def by (simp only: )
qed

definition label_text :: "source_label \<Rightarrow> string" where
  "label_text l = lb_agent l @ CHR '':'' # lb_project l @ CHR 0x2F # lb_role l"

text \<open>The closed source contract. \<open>Validate\<close> accepts exactly two kinds of source: the
  local one with nothing else in it (the zero source stands for it), and an agent session
  whose label is the rendering of three components of the grammar with the alias as its role
  and whose session id is 32 lower-case hexadecimal digits; it returns those components.\<close>

lemma source_Validate_iff:
  "source_Validate s alias = Inr (s', l) \<longleftrightarrow>
     s' = (if s = zero_source then Local else s) \<and>
     (s' = Local \<and> l = zero_label \<or>
      src_kind s' = KindAgentSession \<and> src_label s' = label_text l \<and> lb_role l = alias \<and>
      rx_match componentRE (lb_agent l) \<and> rx_match componentRE (lb_project l) \<and> rx_match componentRE (lb_role l) \<and>
      list_all hex_char (src_session s') \<and> length (src_session s') = 32)"
  (is "?L = ?R")
proof
  assume ?L
  note i = source_Validate_Inr [OF this, unfolded ParseLabel_Inr, folded label_text_def, unfolded sessionIDRE_iff]
  from i have "s' = (if s = zero_source then Local else s)" by (rule conjunct1)
  moreover from i [THEN conjunct2] have "s' = Local \<and> l = zero_label \<or>
      src_kind s' = KindAgentSession \<and> src_label s' = label_text l \<and> lb_role l = alias \<and>
      rx_match componentRE (lb_agent l) \<and> rx_match componentRE (lb_project l) \<and> rx_match componentRE (lb_role l) \<and>
      list_all hex_char (src_session s') \<and> length (src_session s') = 32"
    by (elim disjE conjE) simp_all
  ultimately show ?R by (rule conjI)
next
  assume r: ?R
  have zl: "Local \<noteq> zero_source" by (simp add: go_eval)
  have kl: "KindAgentSession \<noteq> KindLocal" by (simp add: go_eval)
  from r show ?L
  proof (elim conjE disjE)
    assume "s' = (if s = zero_source then Local else s)" and "s' = Local" and "l = zero_label"
    then have "(if s = zero_source then Local else s) = Local" and "s' = Local" and "l = zero_label" by (auto split: if_splits)
    moreover have "src_kind Local = KindLocal" "src_label Local = []" "src_session Local = []" by (simp_all add: Local_def)
    ultimately show ?L unfolding source_Validate_def Let_def by simp
  next
    assume s': "s' = (if s = zero_source then Local else s)" and k: "src_kind s' = KindAgentSession"
      and t: "src_label s' = label_text l" and role: "lb_role l = alias"
      and c: "rx_match componentRE (lb_agent l)" "rx_match componentRE (lb_project l)" "rx_match componentRE (lb_role l)"
      and i: "list_all hex_char (src_session s')" "length (src_session s') = 32"
    from t c have "ParseLabel (src_label s') = Inr l" by (simp add: ParseLabel_Inr label_text_def)
    moreover from i have "ValidateSessionID (src_session s') = None" by (simp add: ValidateSessionID_def sessionIDRE_iff)
    ultimately show ?L using k kl role unfolding source_Validate_def Let_def s' [symmetric] by simp
  qed
qed

abbreviation newlines :: "string \<Rightarrow> nat" where
  "newlines s \<equiv> length (filter (\<lambda>c. c = CHR 0x0A) s)"

lemma newlines_0: "CHR 0x0A \<notin> set s \<Longrightarrow> newlines s = 0"
  by (induction s) auto

lemma newlines_lits [simp]:
  "newlines ''agent '' = 0" "newlines '' project '' = 0" "newlines '' role '' = 0"
  "newlines ''session '' = 0" "newlines ''target '' = 0" "newlines '' (local-wif)'' = 0"
  "newlines '' '' = 0"
  by simp_all

text \<open>The context a caller asserts cannot forge the prompt. For an alias and a target
  without newlines the rendered label is one line for a local source (or a source that does
  not validate) and exactly three lines for an agent session, whatever strings the caller
  put into the source.\<close>

lemma SigningLabel_lines:
  assumes "CHR 0x0A \<notin> set alias" and "CHR 0x0A \<notin> set target"
  shows "newlines (SigningLabel s alias target) =
    (case source_Validate s alias of Inr (s', _) \<Rightarrow> (if src_kind s' = KindLocal then 0 else 2) | _ \<Rightarrow> 0)"
proof (cases "source_Validate s alias")
  case (Inl e)
  with assms show ?thesis by (simp add: SigningLabel_def newlines_0)
next
  case (Inr p)
  obtain s' l where p: "p = (s', l)" by (cases p)
  show ?thesis
  proof (cases "src_kind s' = KindLocal")
    case True
    with Inr p assms show ?thesis by (simp add: SigningLabel_def newlines_0)
  next
    case False
    from source_Validate_Inr [OF Inr [unfolded p]] False
    have l: "ParseLabel (src_label s') = Inr l" and i: "rx_match sessionIDRE (src_session s')"
      by auto
    from l [unfolded ParseLabel_Inr] have "CHR 0x0A \<notin> set (lb_agent l)"
      "CHR 0x0A \<notin> set (lb_project l)" "CHR 0x0A \<notin> set (lb_role l)"
      using component_no_sep by blast+
    then have n: "newlines (lb_agent l) = 0" "newlines (lb_project l) = 0" "newlines (lb_role l) = 0"
      by - (rule newlines_0, assumption)+
    from i have "CHR 0x0A \<notin> set (src_session s')"
      by (auto simp: sessionIDRE_iff list_all_iff char_defs)
    then have "newlines (take 12 (src_session s')) = 0"
      by (intro newlines_0) (meson in_set_takeD)
    with n False Inr p assms show ?thesis
      by (simp add: SigningLabel_def newlines_0)
  qed
qed

end
