(* ===== verification/Forward_Api.thy ===== *)
theory Forward_Api
  imports Jsonhttp AgentSource Go_Map
begin

text \<open>
  \<open>internal/forwardapi\<close>: the constrained credential-provider protocol behind the daemon.
  Its wire types, the server's handlers (which answer a version skew before a shape
  complaint and call the backend only for the current version), and the client's checks on
  what it reads. A handler threads the backend's state: \<open>'s\<close> is whatever the backend
  keeps.
\<close>

definition ProtocolVersion :: int where [go_eval]: "ProtocolVersion = 3"
definition maxRequestBody :: nat where [go_eval]: "maxRequestBody = 16384"
definition forwardClientTimeout :: duration where [go_eval]: "forwardClientTimeout = 25 * second"

record card_identity =
  ci_serial :: u32
  ci_key_id :: string
  ci_spki :: bytes

record alias_binding =
  ab_target :: string
  ab_assertion_lifetime_s :: int

record enrolled_key =
  ek_serial :: u32
  ek_key_id :: string

record policy =
  po_version :: int
  po_resource :: string
  po_issuer :: string
  po_aliases :: "(string, alias_binding) gomap"
  po_keys :: "enrolled_key list"
  po_max_grant :: int

record description =
  de_version :: int
  de_resource :: string
  de_issuer :: string
  de_aliases :: "(string, alias_binding) gomap"
  de_card :: card_identity
  de_max_grant :: int

record forward_context =
  fc_origin :: string
  fc_workspace :: string
  fc_bundle :: string
  fc_generation :: u64
  fc_provider :: string
  fc_attach :: string
  fc_operation :: string
  fc_window_s :: int
  fc_window_deadline :: int

record mint_request =
  mq_version :: int
  mq_alias :: string
  mq_audience :: string
  mq_email :: string
  mq_source :: "source option"
  mq_expected_card :: card_identity
  mq_context :: forward_context

record mint_response =
  mp_version :: int
  mp_id_token :: string
  mp_expiration :: int
  mp_card :: card_identity
  mp_expected_card :: card_identity
  mp_context :: forward_context
  mp_granted_s :: int
  mp_granted_deadline :: int

record invalidate_request =
  iq_version :: int
  iq_workspace :: string
  iq_generation :: u64

record invalidate_response =
  ip_version :: int
  ip_purged :: int

definition no_card :: card_identity where
  "no_card = \<lparr>ci_serial = 0, ci_key_id = [], ci_spki = []\<rparr>"

definition no_context :: forward_context where
  "no_context = \<lparr>fc_origin = [], fc_workspace = [], fc_bundle = [], fc_generation = 0, fc_provider = [],
     fc_attach = [], fc_operation = [], fc_window_s = 0, fc_window_deadline = 0\<rparr>"

text \<open>The interface \<open>Backend\<close>.\<close>

record 's backend =
  be_policy :: "'s \<Rightarrow> (api_error + policy) \<times> 's"
  be_describe :: "'s \<Rightarrow> (api_error + description) \<times> 's"
  be_mint :: "mint_request \<Rightarrow> 's \<Rightarrow> (api_error + mint_response) \<times> 's"
  be_invalidate :: "invalidate_request \<Rightarrow> 's \<Rightarrow> (api_error + invalidate_response) \<times> 's"

subsection \<open>The server\<close>

definition badRequestShape :: "gerror \<Rightarrow> api_error" where
  "badRequestShape e = \<lparr>ae_status = 400, ae_code = CodeConfig, ae_message = err_text e,
     ae_remedy = ''send the fixed PIVB forwarding request shape'', ae_security = False\<rparr>"

definition versionSkewError :: "int \<Rightarrow> api_error" where
  "versionSkewError version = \<lparr>ae_status = 400, ae_code = CodeConfig,
     ae_message = ''unsupported PIVB forwarding protocol '' @ fmt_int version,
     ae_remedy = ''upgrade PIVB and ZKA together'', ae_security = False\<rparr>"

definition writeAPIError :: "api_error \<Rightarrow> 'r reply" where
  "writeAPIError e = ErrorReply (if ae_status e = 0 then 502 else ae_status e) (error_response_of e)"

text \<open>\<open>rb_peek\<close> is the version of the tolerant peek: \<open>None\<close> when the body does not
  unmarshal or carries no version.\<close>

definition decodeVersionedRequest :: "'q request_body \<Rightarrow> api_error + 'q" where
  "decodeVersionedRequest b =
     (case rb_read b of
        Some e \<Rightarrow> Inl (badRequestShape e)
      | None \<Rightarrow>
          (case rb_peek b of
             Some v \<Rightarrow> if v \<noteq> ProtocolVersion then Inl (versionSkewError v)
               else (case decode_strict b of Inl e \<Rightarrow> Inl (badRequestShape e) | Inr q \<Rightarrow> Inr q)
           | None \<Rightarrow> (case decode_strict b of Inl e \<Rightarrow> Inl (badRequestShape e) | Inr q \<Rightarrow> Inr q)))"

definition handle_policy :: "'s backend \<Rightarrow> 's \<Rightarrow> policy reply \<times> 's" where
  "handle_policy be s =
     (case be_policy be s of
        (Inl e, s') \<Rightarrow> (writeAPIError e, s')
      | (Inr result, s') \<Rightarrow> (Reply 200 (result\<lparr>po_version := ProtocolVersion\<rparr>), s'))"

definition handle_describe :: "'s backend \<Rightarrow> 's \<Rightarrow> description reply \<times> 's" where
  "handle_describe be s =
     (case be_describe be s of
        (Inl e, s') \<Rightarrow> (writeAPIError e, s')
      | (Inr result, s') \<Rightarrow> (Reply 200 (result\<lparr>de_version := ProtocolVersion\<rparr>), s'))"

definition handle_mint :: "'s backend \<Rightarrow> mint_request request_body \<Rightarrow> 's \<Rightarrow> mint_response reply \<times> 's" where
  "handle_mint be b s =
     (case decodeVersionedRequest b of
        Inl e \<Rightarrow> (writeAPIError e, s)
      | Inr req \<Rightarrow>
          if mq_version req \<noteq> ProtocolVersion then (writeAPIError (versionSkewError (mq_version req)), s)
          else case be_mint be req s of
              (Inl e, s') \<Rightarrow> (writeAPIError e, s')
            | (Inr result, s') \<Rightarrow> (Reply 200 (result\<lparr>mp_version := ProtocolVersion\<rparr>), s'))"

definition handle_invalidate ::
    "'s backend \<Rightarrow> invalidate_request request_body \<Rightarrow> 's \<Rightarrow> invalidate_response reply \<times> 's" where
  "handle_invalidate be b s =
     (case decodeVersionedRequest b of
        Inl e \<Rightarrow> (writeAPIError e, s)
      | Inr req \<Rightarrow>
          if iq_version req \<noteq> ProtocolVersion then (writeAPIError (versionSkewError (iq_version req)), s)
          else case be_invalidate be req s of
              (Inl e, s') \<Rightarrow> (writeAPIError e, s')
            | (Inr result, s') \<Rightarrow> (Reply 200 (result\<lparr>ip_version := ProtocolVersion\<rparr>), s'))"

subsection \<open>The client\<close>

definition client_do :: "'r exchange \<Rightarrow> 'r res" where
  "client_do x =
     (case x of
        NoConnection e \<Rightarrow> Inl (TransportError (ErrWrap ''call PIVB forwarding socket: '' e))
      | NoBody e \<Rightarrow> Inl (TransportError (ErrWrap ''read PIVB forwarding response: '' e))
      | Answer r \<Rightarrow>
          if length (rs_bytes r) > MaxResponseBody
          then Inl (ProtocolError (ErrText ''PIVB forwarding response is too large''))
          else if rs_status r < 200 \<or> rs_status r \<ge> 300 then
            (let invalid = Inl (ProtocolError (ErrText (''PIVB forwarding endpoint returned an invalid error response (status ''
                   @ fmt_int (rs_status r) @ '')''))) in
             case rs_error r of
               None \<Rightarrow> invalid
             | Some er \<Rightarrow>
                 let message = (if er_error er = [] then trim_space (rs_bytes r) else er_error er) in
                 if er_code er = [] \<or> message = [] then invalid
                 else Inl (APIErr \<lparr>ae_status = rs_status r, ae_code = er_code er, ae_message = message,
                     ae_remedy = er_remedy er, ae_security = False\<rparr>))
          else case rs_value r of
              Inl e \<Rightarrow> Inl (ProtocolError (ErrWrap ''decode PIVB forwarding response: '' e))
            | Inr v \<Rightarrow>
                if rs_more r
                then Inl (ProtocolError (ErrText ''decode PIVB forwarding response: multiple values''))
                else Inr v)"

definition card_complete :: "card_identity \<Rightarrow> bool" where
  "card_complete c \<longleftrightarrow> ci_serial c \<noteq> 0 \<and> ci_key_id c \<noteq> [] \<and> ci_spki c \<noteq> []"

definition client_Describe :: "description exchange \<Rightarrow> description res" where
  "client_Describe x =
     (case client_do x of
        Inl e \<Rightarrow> Inl e
      | Inr out \<Rightarrow>
          if de_version out \<noteq> ProtocolVersion \<or> de_resource out = [] \<or> de_issuer out = []
             \<or> ci_serial (de_card out) = 0 \<or> ci_key_id (de_card out) = [] \<or> ci_spki (de_card out) = []
          then Inl (ProtocolError (ErrText ''PIVB forwarding description is incomplete'')) else Inr out)"

definition client_Policy :: "policy exchange \<Rightarrow> policy res" where
  "client_Policy x =
     (case client_do x of
        Inl e \<Rightarrow> Inl e
      | Inr out \<Rightarrow>
          if po_version out \<noteq> ProtocolVersion \<or> po_resource out = [] \<or> po_issuer out = [] \<or> po_keys out = []
          then Inl (ProtocolError (ErrText ''PIVB forwarding policy is incomplete'')) else Inr out)"

text \<open>\<open>Mint\<close> stamps the version before it sends; \<open>mint_wire\<close> is what goes on the wire.\<close>

definition mint_wire :: "mint_request \<Rightarrow> mint_request" where
  "mint_wire req = req\<lparr>mq_version := ProtocolVersion\<rparr>"

definition client_Mint :: "mint_response exchange \<Rightarrow> mint_response res" where
  "client_Mint x =
     (case client_do x of
        Inl e \<Rightarrow> Inl e
      | Inr out \<Rightarrow>
          if mp_version out \<noteq> ProtocolVersion \<or> mp_id_token out = [] \<or> mp_expiration out \<le> 0
             \<or> ci_serial (mp_card out) = 0 \<or> ci_key_id (mp_card out) = [] \<or> ci_spki (mp_card out) = []
             \<or> ci_serial (mp_expected_card out) = 0 \<or> ci_key_id (mp_expected_card out) = []
             \<or> ci_spki (mp_expected_card out) = []
             \<or> fc_origin (mp_context out) = [] \<or> fc_workspace (mp_context out) = []
             \<or> fc_operation (mp_context out) = []
          then Inl (ProtocolError (ErrText ''PIVB forwarding response is incomplete'')) else Inr out)"

definition invalidate_wire :: "invalidate_request \<Rightarrow> invalidate_request" where
  "invalidate_wire req = req\<lparr>iq_version := ProtocolVersion\<rparr>"

definition client_Invalidate :: "invalidate_response exchange \<Rightarrow> invalidate_response res" where
  "client_Invalidate x =
     (case client_do x of
        Inl e \<Rightarrow> Inl e
      | Inr out \<Rightarrow>
          if ip_version out \<noteq> ProtocolVersion \<or> ip_purged out < 0
          then Inl (ProtocolError (ErrText ''PIVB forwarding invalidation response is incomplete'')) else Inr out)"

subsection \<open>Lemmas\<close>

lemma decodeVersionedRequest_Inr:
  "decodeVersionedRequest b = Inr q \<longleftrightarrow>
     rb_read b = None \<and> rb_value b = Inr q \<and> \<not> rb_more b \<and> rb_peek b \<in> {None, Some ProtocolVersion}"
  by (auto simp: decodeVersionedRequest_def decode_strict_def split: option.splits sum.splits if_splits)

text \<open>A protocol skew is told apart from a malformed request, and neither reaches the
  backend. A readable mint body whose version peeks to something other than 3 is answered
  with the version-skew error whatever else is wrong with it; and in every case the reply is
  either an error that left the backend's state alone, or the backend's own answer to a
  strictly decoded version 3 request, with the version stamped.\<close>

lemma handle_mint_version_gate:
  "(rb_read b = None \<and> rb_peek b = Some v \<and> v \<noteq> ProtocolVersion \<longrightarrow>
      handle_mint be b s = (writeAPIError (versionSkewError v), s)) \<and>
   ((\<exists>e. handle_mint be b s = (writeAPIError e, s)) \<or>
    (\<exists>q. rb_value b = Inr q \<and> \<not> rb_more b \<and> mq_version q = ProtocolVersion \<and>
       handle_mint be b s =
         (case fst (be_mint be q s) of Inl e \<Rightarrow> writeAPIError e
            | Inr r \<Rightarrow> Reply 200 (r\<lparr>mp_version := ProtocolVersion\<rparr>), snd (be_mint be q s))))"
proof (intro conjI impI)
  assume "rb_read b = None \<and> rb_peek b = Some v \<and> v \<noteq> ProtocolVersion"
  then show "handle_mint be b s = (writeAPIError (versionSkewError v), s)"
    by (simp add: handle_mint_def decodeVersionedRequest_def)
next
  show "(\<exists>e. handle_mint be b s = (writeAPIError e, s)) \<or>
    (\<exists>q. rb_value b = Inr q \<and> \<not> rb_more b \<and> mq_version q = ProtocolVersion \<and>
       handle_mint be b s =
         (case fst (be_mint be q s) of Inl e \<Rightarrow> writeAPIError e
            | Inr r \<Rightarrow> Reply 200 (r\<lparr>mp_version := ProtocolVersion\<rparr>), snd (be_mint be q s)))"
  proof (cases "decodeVersionedRequest b")
    case (Inl e)
    then show ?thesis by (auto simp: handle_mint_def)
  next
    case (Inr q)
    then show ?thesis
      by (auto simp: handle_mint_def decodeVersionedRequest_Inr split: prod.splits sum.splits)
  qed
qed

lemma client_Mint_Inr:
  "client_Mint x = Inr out \<Longrightarrow>
     mp_version out = ProtocolVersion \<and> mp_id_token out \<noteq> [] \<and> 0 < mp_expiration out \<and>
     card_complete (mp_card out) \<and> card_complete (mp_expected_card out) \<and> fc_operation (mp_context out) \<noteq> []"
  by (auto simp: client_Mint_def card_complete_def split: sum.splits if_splits)

end
