(* ===== verification/Core_State.thy ===== *)
theory Core_State
  imports Config Forward_Api
begin

text \<open>
  The state of \<open>internal/core\<close> and the operations on its reuse cache (\<open>core.go\<close>, \<open>reuse.go\<close>).
  Secrets live in a heap of byte buffers: \<open>c_pin\<close> and an entry's \<open>ce_token\<close> are the address
  of a buffer, \<open>make\<close>/\<open>append\<close> allocate a fresh one and \<open>zero\<close> overwrites one in place, so
  what a dropped secret leaves behind is visible. A token address also stands for the
  identity of the \<open>*cacheEntry\<close> that owns it. The cache is a map from the request tuple; its
  list order is Go's arbitrary iteration order.
\<close>

subsection \<open>Types\<close>

record request =
  rq_alias :: string
  rq_audience :: string
  rq_email :: string
  rq_source :: source
  rq_attachment :: attachment
  rq_route_socket :: string
  rq_card :: card_identity
  rq_context :: forward_context

record token_result =
  st_token :: string
  st_expires :: gotime
  st_serial :: u32
  st_key_id :: string
  st_spki :: bytes
  st_context :: forward_context
  st_reused :: bool
  st_granted_s :: int
  st_granted_deadline :: int

record sign_event =
  se_alias :: string
  se_target :: string
  se_serial :: u32
  se_key_id :: string
  se_at :: gotime
  se_route :: string
  se_context :: forward_context

record mint_record =
  mr_at :: gotime
  mr_alias :: string
  mr_session :: string
  mr_reused :: bool
  mr_forwarded :: bool

definition mintRingWindow :: duration where [go_eval]: "mintRingWindow = hour"
definition mintRingCap :: nat where [go_eval]: "mintRingCap = 4096"
definition mintWarnThreshold :: nat where [go_eval]: "mintWarnThreshold = 30"
definition mintWarnWindow :: duration where [go_eval]: "mintWarnWindow = 5 * minute"
definition defaultSingleFlight :: bool where [go_eval]: "defaultSingleFlight = True"
definition reuseValidityFloor :: duration where [go_eval]: "reuseValidityFloor = 60 * second"
definition reuseCacheCap :: nat where [go_eval]: "reuseCacheCap = 64"
definition reuseNotifyLead :: duration where [go_eval]: "reuseNotifyLead = 60 * second"
definition readerPollInterval :: duration where [go_eval]: "readerPollInterval = 2 * second"
definition invalidatedCap :: nat where [go_eval]: "invalidatedCap = 256"

record reuse_key =
  rk_alias :: string
  rk_target :: string
  rk_audience :: string
  rk_kind :: string
  rk_label :: string
  rk_session :: string
  rk_mode :: string
  rk_protocol :: int
  rk_route :: string
  rk_serial :: u32
  rk_kid :: string
  rk_spki :: bytes
  rk_origin :: string
  rk_workspace :: string
  rk_bundle :: string
  rk_generation :: u64

type_synonym addr = nat

record cache_entry =
  ce_key :: reuse_key
  ce_token :: addr
  ce_completed :: gotime
  ce_expires :: gotime
  ce_serial :: u32
  ce_key_id :: string
  ce_spki :: bytes
  ce_readers :: "string list"
  ce_window_ends :: gotime
  ce_notified_pre :: bool
  ce_notified_expired :: bool

datatype log_line = RateWarning string string nat

record core =
  c_cfg :: config
  c_version :: string
  c_bufs :: "bytes list"
  c_pin :: "addr option"
  c_pin_serial :: u32
  c_last :: "sign_event option"
  c_ring :: "mint_record list"
  c_warned :: "(string, gotime) gomap"
  c_cache :: "(reuse_key, cache_entry) gomap"
  c_single :: bool
  c_invalidated :: "(string, u64) gomap"
  c_pending :: "string \<times> u64"
  c_wake :: bool
  c_log :: "log_line list"

definition New :: "config \<Rightarrow> string \<Rightarrow> core" where
  "New cfg version = \<lparr>c_cfg = cfg, c_version = version, c_bufs = [], c_pin = None, c_pin_serial = 0,
     c_last = None, c_ring = [], c_warned = [], c_cache = [], c_single = defaultSingleFlight,
     c_invalidated = [], c_pending = ([], 0), c_wake = False, c_log = []\<rparr>"

subsection \<open>Buffers\<close>

definition buffer :: "core \<Rightarrow> addr \<Rightarrow> bytes" where
  "buffer c a = (if a < length (c_bufs c) then c_bufs c ! a else [])"

definition alloc :: "bytes \<Rightarrow> core \<Rightarrow> addr \<times> core" where
  "alloc b c = (length (c_bufs c), c\<lparr>c_bufs := c_bufs c @ [b]\<rparr>)"

definition zero :: "addr \<Rightarrow> core \<Rightarrow> core" where
  "zero a c = c\<lparr>c_bufs := (c_bufs c)[a := zero_bytes (buffer c a)]\<rparr>"

definition zero_all :: "addr list \<Rightarrow> core \<Rightarrow> core" where
  "zero_all as c = fold zero as c"

definition wakeNotifier :: "core \<Rightarrow> core" where
  "wakeNotifier c = c\<lparr>c_wake := True\<rparr>"

definition clearPIN :: "core \<Rightarrow> core" where
  "clearPIN c = (case c_pin c of Some a \<Rightarrow> zero a c | None \<Rightarrow> c)\<lparr>c_pin := None, c_pin_serial := 0\<rparr>"

subsection \<open>Dropping entries\<close>

text \<open>The body every purge loop shares: zeroize the token of each selected entry and delete it.\<close>

definition drop_where :: "(reuse_key \<Rightarrow> cache_entry \<Rightarrow> bool) \<Rightarrow> core \<Rightarrow> nat \<times> core" where
  "drop_where P c =
     (let dead = filter (\<lambda>(k, e). P k e) (c_cache c) in
      (length dead,
       (zero_all (map (\<lambda>(k, e). ce_token e) dead) c)
         \<lparr>c_cache := filter (\<lambda>(k, e). \<not> P k e) (c_cache c)\<rparr>))"

definition purge_where :: "(reuse_key \<Rightarrow> cache_entry \<Rightarrow> bool) \<Rightarrow> core \<Rightarrow> nat \<times> core" where
  "purge_where P c =
     (case drop_where P c of (n, c') \<Rightarrow> (n, if n \<noteq> 0 then wakeNotifier c' else c'))"

definition purgeAll :: "core \<Rightarrow> nat \<times> core" where
  "purgeAll c = purge_where (\<lambda>k e. True) c"

definition purgeOtherSerials :: "u32 \<Rightarrow> core \<Rightarrow> nat \<times> core" where
  "purgeOtherSerials serial c = purge_where (\<lambda>k e. ce_serial e \<noteq> serial) c"

definition dropEntry :: "reuse_key \<Rightarrow> core \<Rightarrow> core" where
  "dropEntry key c =
     (case map_of (c_cache c) key of
        None \<Rightarrow> c
      | Some e \<Rightarrow> wakeNotifier ((zero (ce_token e) c)\<lparr>c_cache := AList.delete key (c_cache c)\<rparr>))"

subsection \<open>Invalidation\<close>

fun lowest_watermark :: "string \<times> u64 \<Rightarrow> (string, u64) gomap \<Rightarrow> string \<times> u64" where
  "lowest_watermark acc [] = acc"
| "lowest_watermark (lowest, gen) ((workspace, seen) # m) =
     lowest_watermark (if lowest = [] \<or> seen < gen then (workspace, seen) else (lowest, gen)) m"

fun bound_watermarks :: "nat \<Rightarrow> (string, u64) gomap \<Rightarrow> (string, u64) gomap" where
  "bound_watermarks 0 m = m"
| "bound_watermarks (Suc n) m =
     (if length m > invalidatedCap
      then bound_watermarks n (AList.delete (fst (lowest_watermark ([], 0) m)) m)
      else m)"

definition recordWatermark :: "string \<Rightarrow> u64 \<Rightarrow> core \<Rightarrow> core" where
  "recordWatermark workspace generation c =
     (case map_of (c_invalidated c) workspace of
        Some current \<Rightarrow>
          if current \<ge> generation then c
          else (let m = AList.update workspace generation (c_invalidated c)
                in c\<lparr>c_invalidated := bound_watermarks (length m) m\<rparr>)
      | None \<Rightarrow>
          (let m = AList.update workspace generation (c_invalidated c)
           in c\<lparr>c_invalidated := bound_watermarks (length m) m\<rparr>))"

definition claim_covered :: "string \<Rightarrow> u64 \<Rightarrow> reuse_key \<Rightarrow> bool" where
  "claim_covered workspace maxGeneration k \<longleftrightarrow>
     rk_workspace k = workspace \<and> \<not> (maxGeneration \<noteq> 0 \<and> rk_generation k > maxGeneration)"

definition highest_generation :: "(reuse_key \<times> cache_entry) list \<Rightarrow> u64" where
  "highest_generation ps = fold (\<lambda>(k, e) h. if rk_generation k > h then rk_generation k else h) ps 0"

definition InvalidateWorkspace :: "string \<Rightarrow> u64 \<Rightarrow> core \<Rightarrow> nat \<times> core" where
  "InvalidateWorkspace workspace maxGeneration c =
     (if workspace = [] then (0, c)
      else
        let highest = highest_generation (filter (\<lambda>(k, e). claim_covered workspace maxGeneration k) (c_cache c));
            (purged, c1) = drop_where (\<lambda>k e. claim_covered workspace maxGeneration k) c;
            watermark =
              (if maxGeneration = 0
               then (if fst (c_pending c) = workspace \<and> snd (c_pending c) > highest then snd (c_pending c) else highest)
               else maxGeneration);
            c2 = (if watermark \<noteq> 0 then recordWatermark workspace watermark c1 else c1)
        in (purged, if purged \<noteq> 0 then wakeNotifier c2 else c2))"

subsection \<open>Inserting\<close>

fun oldest_entry :: "(reuse_key \<times> cache_entry) option \<Rightarrow> (reuse_key, cache_entry) gomap \<Rightarrow>
    (reuse_key \<times> cache_entry) option" where
  "oldest_entry acc [] = acc"
| "oldest_entry acc ((k, e) # m) =
     oldest_entry (case acc of None \<Rightarrow> Some (k, e)
                   | Some (k', e') \<Rightarrow> if ce_completed e < ce_completed e' then Some (k, e) else acc) m"

fun evict_loop :: "nat \<Rightarrow> core \<Rightarrow> core" where
  "evict_loop 0 c = c"
| "evict_loop (Suc n) c =
     (if length (c_cache c) > reuseCacheCap then
        (case oldest_entry None (c_cache c) of
           None \<Rightarrow> c
         | Some (k, e) \<Rightarrow>
             evict_loop n ((zero (ce_token e) c)\<lparr>c_cache := AList.delete k (c_cache c)\<rparr>))
      else c)"

text \<open>Each round deletes an entry, so as many rounds as there are entries are enough
  (\<open>evict_bound\<close>).\<close>

definition evict :: "core \<Rightarrow> core" where
  "evict c = evict_loop (length (c_cache c)) c"

definition watermarked :: "reuse_key \<Rightarrow> core \<Rightarrow> bool" where
  "watermarked k c \<longleftrightarrow>
     (case map_of (c_invalidated c) (rk_workspace k) of
        Some watermark \<Rightarrow> rk_workspace k \<noteq> [] \<and> rk_generation k \<le> watermark
      | None \<Rightarrow> False)"

definition insert_entry :: "cache_entry option \<Rightarrow> core \<Rightarrow> bool \<times> core" where
  "insert_entry entry c =
     (case entry of
        None \<Rightarrow> (False, c)
      | Some e \<Rightarrow>
          if watermarked (ce_key e) c then (False, zero (ce_token e) c)
          else
            let c1 = (case map_of (c_cache c) (ce_key e) of Some previous \<Rightarrow> zero (ce_token previous) c | None \<Rightarrow> c)
            in (True, evict (c1\<lparr>c_cache := AList.update (ce_key e) e (c_cache c1)\<rparr>)))"

definition beginPendingMint :: "reuse_key \<Rightarrow> core \<Rightarrow> core" where
  "beginPendingMint key c = c\<lparr>c_pending := (rk_workspace key, rk_generation key)\<rparr>"

definition endPendingMint :: "core \<Rightarrow> core" where
  "endPendingMint c = c\<lparr>c_pending := ([], 0)\<rparr>"

subsection \<open>Buffers: what zeroization does\<close>

lemma zero_frame [simp]:
  "c_cfg (zero a c) = c_cfg c" "c_version (zero a c) = c_version c" "c_pin (zero a c) = c_pin c"
  "c_pin_serial (zero a c) = c_pin_serial c" "c_last (zero a c) = c_last c" "c_ring (zero a c) = c_ring c"
  "c_warned (zero a c) = c_warned c" "c_cache (zero a c) = c_cache c" "c_single (zero a c) = c_single c"
  "c_invalidated (zero a c) = c_invalidated c" "c_pending (zero a c) = c_pending c"
  "c_wake (zero a c) = c_wake c" "c_log (zero a c) = c_log c" "length (c_bufs (zero a c)) = length (c_bufs c)"
  by (simp_all add: zero_def)

lemma zero_all_Nil [simp]: "zero_all [] c = c"
  and zero_all_Cons: "zero_all (a # as) c = zero_all as (zero a c)"
  by (simp_all add: zero_all_def)

lemma zero_all_eq: "\<exists>bs. length bs = length (c_bufs c) \<and> zero_all as c = c\<lparr>c_bufs := bs\<rparr>"
proof (induction as arbitrary: c)
  case Nil
  show ?case by (intro exI [of _ "c_bufs c"]) simp
next
  case (Cons a as)
  from Cons [of "zero a c"] show ?case by (auto simp: zero_all_Cons zero_def)
qed

lemma zero_all_frame [simp]:
  "c_cfg (zero_all as c) = c_cfg c" "c_version (zero_all as c) = c_version c" "c_pin (zero_all as c) = c_pin c"
  "c_pin_serial (zero_all as c) = c_pin_serial c" "c_last (zero_all as c) = c_last c" "c_ring (zero_all as c) = c_ring c"
  "c_warned (zero_all as c) = c_warned c" "c_cache (zero_all as c) = c_cache c" "c_single (zero_all as c) = c_single c"
  "c_invalidated (zero_all as c) = c_invalidated c" "c_pending (zero_all as c) = c_pending c"
  "c_wake (zero_all as c) = c_wake c" "c_log (zero_all as c) = c_log c" "length (c_bufs (zero_all as c)) = length (c_bufs c)"
  using zero_all_eq [of c as] by auto

lemma buffer_zero [simp]: "buffer (zero a c) b = (if a = b then zero_bytes (buffer c a) else buffer c b)"
  by (auto simp: buffer_def zero_def zero_bytes_def)

lemma zero_bytes_idem [simp]: "zero_bytes (zero_bytes b) = zero_bytes b"
  by (simp add: zero_bytes_def)

lemma buffer_zero_all: "buffer (zero_all as c) b = (if b \<in> set as then zero_bytes (buffer c b) else buffer c b)"
  by (induction as arbitrary: c) (auto simp: zero_all_Cons)

lemma buffer_update [simp]:
  "buffer (c\<lparr>c_cache := m\<rparr>) = buffer c" "buffer (c\<lparr>c_pin := p\<rparr>) = buffer c"
  "buffer (c\<lparr>c_pin_serial := n\<rparr>) = buffer c" "buffer (c\<lparr>c_last := l\<rparr>) = buffer c"
  "buffer (c\<lparr>c_ring := r\<rparr>) = buffer c" "buffer (c\<lparr>c_warned := w\<rparr>) = buffer c"
  "buffer (c\<lparr>c_invalidated := i\<rparr>) = buffer c" "buffer (c\<lparr>c_pending := q\<rparr>) = buffer c"
  "buffer (c\<lparr>c_wake := b\<rparr>) = buffer c" "buffer (c\<lparr>c_log := g\<rparr>) = buffer c"
  by (rule ext, simp add: buffer_def)+

text \<open>No two live secrets share a buffer, every reference is in the heap, the map's keys are
  the entries' own, and the bounds hold.\<close>

definition tokens :: "core \<Rightarrow> addr list" where
  "tokens c = map (\<lambda>(k, e). ce_token e) (c_cache c)"

definition core_shape :: "core \<Rightarrow> bool" where
  "core_shape c \<longleftrightarrow>
     keys_distinct (c_cache c) \<and> (\<forall>(k, e)\<in>set (c_cache c). ce_key e = k \<and> ce_token e < length (c_bufs c)) \<and>
     distinct (tokens c) \<and> (\<forall>a. c_pin c = Some a \<longrightarrow> a < length (c_bufs c) \<and> a \<notin> set (tokens c))"

definition core_bounds :: "core \<Rightarrow> bool" where
  "core_bounds c \<longleftrightarrow> length (c_cache c) \<le> reuseCacheCap \<and> keys_distinct (c_invalidated c) \<and>
     length (c_invalidated c) \<le> invalidatedCap \<and> length (c_ring c) \<le> mintRingCap"

definition core_wf :: "core \<Rightarrow> bool" where
  "core_wf c \<longleftrightarrow> core_shape c \<and> core_bounds c"

text \<open>Every buffer that is neither the cached PIN, nor a cached token, nor among the buffers
  \<open>live\<close> a mint in progress still holds, has been overwritten with zeros.\<close>

definition zeroized :: "addr set \<Rightarrow> core \<Rightarrow> bool" where
  "zeroized live c \<longleftrightarrow>
     (\<forall>a. c_pin c \<noteq> Some a \<and> a \<notin> set (tokens c) \<and> a \<notin> live \<longrightarrow> all_zero (buffer c a))"

lemma all_zero_Nil [simp]: "all_zero []"
  by (simp add: all_zero_def)

lemma zero_bytes_all_zero: "all_zero b \<Longrightarrow> zero_bytes b = b"
  by (induction b) (auto simp: all_zero_def zero_bytes_def)

lemma wf_New: "core_wf (New cfg version)" "zeroized {} (New cfg version)"
  by (simp_all add: core_wf_def core_shape_def core_bounds_def zeroized_def New_def tokens_def buffer_def)

subsection \<open>Dropping entries keeps the invariants\<close>

lemma distinct_map_filter_fst: "distinct (map f xs) \<Longrightarrow> distinct (map f (filter P xs))"
  by (simp add: distinct_map_filter)

lemma core_shape_shrink:
  assumes "core_shape c" and "set m \<subseteq> set (c_cache c)" and "keys_distinct m" and "distinct (map (\<lambda>(k, e). ce_token e) m)"
    and "length bs = length (c_bufs c)"
  shows "core_shape (c\<lparr>c_cache := m, c_bufs := bs\<rparr>)"
proof -
  have t: "set (map (\<lambda>(k, e). ce_token e) m) \<subseteq> set (tokens c)"
    using assms(2) by (auto simp: tokens_def)
  from assms(1) have p: "\<forall>a. c_pin c = Some a \<longrightarrow> a < length (c_bufs c) \<and> a \<notin> set (tokens c)"
    by (simp add: core_shape_def)
  with t have "\<forall>a. c_pin c = Some a \<longrightarrow> a < length (c_bufs c) \<and> a \<notin> set (map (\<lambda>(k, e). ce_token e) m)"
    by blast
  with assms show ?thesis unfolding core_shape_def tokens_def by auto
qed

lemma drop_where_eq:
  "drop_where P c = (length (filter (\<lambda>(k, e). P k e) (c_cache c)),
     c\<lparr>c_cache := filter (\<lambda>(k, e). \<not> P k e) (c_cache c),
       c_bufs := c_bufs (zero_all (map (\<lambda>(k, e). ce_token e) (filter (\<lambda>(k, e). P k e) (c_cache c))) c)\<rparr>)"
  using zero_all_eq [of c "map (\<lambda>(k, e). ce_token e) (filter (\<lambda>(k, e). P k e) (c_cache c))"]
  by (auto simp: drop_where_def Let_def)

lemma drop_where_frame [simp]:
  "c_cfg (snd (drop_where P c)) = c_cfg c" "c_version (snd (drop_where P c)) = c_version c" "c_pin (snd (drop_where P c)) = c_pin c"
  "c_pin_serial (snd (drop_where P c)) = c_pin_serial c" "c_last (snd (drop_where P c)) = c_last c"
  "c_ring (snd (drop_where P c)) = c_ring c" "c_warned (snd (drop_where P c)) = c_warned c"
  "c_single (snd (drop_where P c)) = c_single c" "c_invalidated (snd (drop_where P c)) = c_invalidated c"
  "c_pending (snd (drop_where P c)) = c_pending c" "c_wake (snd (drop_where P c)) = c_wake c"
  "c_log (snd (drop_where P c)) = c_log c" "length (c_bufs (snd (drop_where P c))) = length (c_bufs c)"
  "c_cache (snd (drop_where P c)) = filter (\<lambda>(k, e). \<not> P k e) (c_cache c)"
  "fst (drop_where P c) = length (filter (\<lambda>(k, e). P k e) (c_cache c))"
  by (simp_all add: drop_where_eq)

lemma core_shape_drop_where: "core_shape c \<Longrightarrow> core_shape (snd (drop_where P c))"
  unfolding drop_where_eq snd_conv
  by (rule core_shape_shrink)
    (auto simp: core_shape_def tokens_def keys_distinct_filter distinct_map_filter)

lemma core_bounds_drop_where: "core_bounds c \<Longrightarrow> core_bounds (snd (drop_where P c))"
  by (auto simp: core_bounds_def intro: le_trans [OF length_filter_le])

lemma core_wf_drop_where: "core_wf c \<Longrightarrow> core_wf (snd (drop_where P c))"
  by (simp add: core_wf_def core_shape_drop_where core_bounds_drop_where)

lemma buffer_drop_where:
  "buffer (snd (drop_where P c)) b =
     (if \<exists>(k, e)\<in>set (c_cache c). P k e \<and> ce_token e = b then zero_bytes (buffer c b) else buffer c b)"
proof -
  have "buffer (snd (drop_where P c)) b =
      buffer (zero_all (map (\<lambda>(k, e). ce_token e) (filter (\<lambda>(k, e). P k e) (c_cache c))) c) b"
    by (simp add: drop_where_eq buffer_def)
  then show ?thesis by (auto simp: buffer_zero_all)
qed

lemma zeroized_drop_where: "zeroized L c \<Longrightarrow> zeroized L (snd (drop_where P c))"
proof -
  assume z: "zeroized L c"
  show ?thesis
    unfolding zeroized_def
  proof (intro allI impI)
    fix a assume a: "c_pin (snd (drop_where P c)) \<noteq> Some a \<and> a \<notin> set (tokens (snd (drop_where P c))) \<and> a \<notin> L"
    show "all_zero (buffer (snd (drop_where P c)) a)"
    proof (cases "\<exists>(k, e)\<in>set (c_cache c). P k e \<and> ce_token e = a")
      case True
      then show ?thesis by (simp add: buffer_drop_where)
    next
      case False
      with a have "a \<notin> set (tokens c)" by (fastforce simp: tokens_def)
      with a z False show ?thesis by (simp add: buffer_drop_where zeroized_def)
    qed
  qed
qed

lemma wake_frame [simp]:
  "c_cfg (wakeNotifier c) = c_cfg c" "c_version (wakeNotifier c) = c_version c" "c_bufs (wakeNotifier c) = c_bufs c" "c_pin (wakeNotifier c) = c_pin c"
  "c_pin_serial (wakeNotifier c) = c_pin_serial c" "c_last (wakeNotifier c) = c_last c"
  "c_ring (wakeNotifier c) = c_ring c" "c_warned (wakeNotifier c) = c_warned c"
  "c_cache (wakeNotifier c) = c_cache c" "c_single (wakeNotifier c) = c_single c"
  "c_invalidated (wakeNotifier c) = c_invalidated c" "c_pending (wakeNotifier c) = c_pending c"
  "c_log (wakeNotifier c) = c_log c" "buffer (wakeNotifier c) = buffer c" "tokens (wakeNotifier c) = tokens c"
  "core_shape (wakeNotifier c) = core_shape c" "core_bounds (wakeNotifier c) = core_bounds c"
  "core_wf (wakeNotifier c) = core_wf c" "zeroized L (wakeNotifier c) = zeroized L c"
  by (simp_all add: wakeNotifier_def core_wf_def core_shape_def core_bounds_def zeroized_def tokens_def)

lemma purge_where_eq:
  "purge_where P c = (let n = length (filter (\<lambda>(k, e). P k e) (c_cache c)); c' = snd (drop_where P c) in
     (n, if n \<noteq> 0 then wakeNotifier c' else c'))"
  by (simp add: purge_where_def drop_where_eq Let_def)

lemma purge_where_frame [simp]:
  "c_cfg (snd (purge_where P c)) = c_cfg c" "c_version (snd (purge_where P c)) = c_version c" "c_pin (snd (purge_where P c)) = c_pin c"
  "c_pin_serial (snd (purge_where P c)) = c_pin_serial c" "c_last (snd (purge_where P c)) = c_last c"
  "c_ring (snd (purge_where P c)) = c_ring c" "c_warned (snd (purge_where P c)) = c_warned c"
  "c_invalidated (snd (purge_where P c)) = c_invalidated c" "c_pending (snd (purge_where P c)) = c_pending c"
  "c_log (snd (purge_where P c)) = c_log c" "c_single (snd (purge_where P c)) = c_single c"
  "length (c_bufs (snd (purge_where P c))) = length (c_bufs c)"
  "c_cache (snd (purge_where P c)) = filter (\<lambda>(k, e). \<not> P k e) (c_cache c)"
  "buffer (snd (purge_where P c)) = buffer (snd (drop_where P c))"
  by (simp_all add: purge_where_eq Let_def)

lemma core_wf_purge_where: "core_wf c \<Longrightarrow> core_wf (snd (purge_where P c))"
  by (simp add: purge_where_eq Let_def core_wf_drop_where)

lemma zeroized_purge_where: "zeroized L c \<Longrightarrow> zeroized L (snd (purge_where P c))"
  by (simp add: purge_where_eq Let_def zeroized_drop_where)

text \<open>Deleting one entry and zeroizing its token is dropping the entries with its key.\<close>

lemma filter_key: "keys_distinct m \<Longrightarrow> map_of m k = Some e \<Longrightarrow> filter (\<lambda>(j, _). j = k) m = [(k, e)]"
proof (induction m)
  case (Cons p m)
  have "k \<notin> fst ` set m \<Longrightarrow> filter (\<lambda>(j, _). j = k) m = []"
    by (force simp: filter_empty_conv)
  with Cons show ?case by (cases p) (auto split: if_splits)
qed simp

lemma delete_one:
  assumes "keys_distinct (c_cache c)" and "map_of (c_cache c) k = Some e"
  shows "(zero (ce_token e) c)\<lparr>c_cache := AList.delete k (c_cache c)\<rparr> = snd (drop_where (\<lambda>j _. j = k) c)"
  using filter_key [OF assms] by (simp add: drop_where_def Let_def zero_all_Cons delete_filter)

lemma dropEntry_eq:
  "keys_distinct (c_cache c) \<Longrightarrow>
     dropEntry key c = (if map_of (c_cache c) key = None then c else wakeNotifier (snd (drop_where (\<lambda>j _. j = key) c)))"
  by (auto simp: dropEntry_def delete_one split: option.splits)

lemma shape_keys: "core_shape c \<Longrightarrow> keys_distinct (c_cache c)"
  and wf_keys: "core_wf c \<Longrightarrow> keys_distinct (c_cache c)"
  and wf_shape: "core_wf c \<Longrightarrow> core_shape c"
  by (simp_all add: core_wf_def core_shape_def)

lemma core_wf_dropEntry: "core_wf c \<Longrightarrow> core_wf (dropEntry key c)"
  by (simp add: dropEntry_eq wf_keys core_wf_drop_where)

lemma zeroized_dropEntry: "core_wf c \<Longrightarrow> zeroized L c \<Longrightarrow> zeroized L (dropEntry key c)"
  by (simp add: dropEntry_eq wf_keys zeroized_drop_where)

lemma token_owner:
  assumes "core_shape c" and "(k, e) \<in> set (c_cache c)" and "(k', e') \<in> set (c_cache c)" and "ce_token e = ce_token e'"
  shows "k = k' \<and> e = e'"
proof -
  from assms(1) have "inj_on (\<lambda>(k, e). ce_token e) (set (c_cache c))"
    by (simp add: core_shape_def tokens_def distinct_map)
  from inj_onD [OF this, of "(k, e)" "(k', e')"] assms(2-4) show ?thesis by simp
qed

lemma buffer_drop_where_kept:
  "core_shape c \<Longrightarrow> (k, e) \<in> set (c_cache c) \<Longrightarrow> \<not> P k e \<Longrightarrow>
     buffer (snd (drop_where P c)) (ce_token e) = buffer c (ce_token e)"
  by (auto simp: buffer_drop_where dest: token_owner)

subsection \<open>Eviction\<close>

lemma oldest_entry_acc:
  "(\<And>k e. acc = Some (k, e) \<Longrightarrow> Q (k, e)) \<Longrightarrow> (\<forall>p\<in>set m. Q p) \<Longrightarrow> oldest_entry acc m = Some r \<Longrightarrow> Q r"
proof (induction acc m rule: oldest_entry.induct)
  case (2 acc k e m)
  show ?case
    by (rule "2.IH") (use "2.prems" in \<open>auto split: option.splits if_splits prod.splits\<close>)
qed (cases r, auto)

lemma oldest_entry_least:
  "oldest_entry acc m = Some (k, e) \<Longrightarrow>
     (\<forall>(k', e')\<in>set m. ce_completed e \<le> ce_completed e') \<and>
     (\<forall>k' e'. acc = Some (k', e') \<longrightarrow> ce_completed e \<le> ce_completed e')"
proof (induction acc m rule: oldest_entry.induct)
  case (2 acc k' e' m)
  let ?acc = "case acc of None \<Rightarrow> Some (k', e') | Some (k2, e2) \<Rightarrow> if ce_completed e' < ce_completed e2 then Some (k', e') else acc"
  from "2.prems" have "oldest_entry ?acc m = Some (k, e)" by simp
  note IH = "2.IH" [OF this]
  show ?case
  proof (cases acc)
    case None
    with IH show ?thesis by auto
  next
    case (Some a)
    obtain k2 e2 where a: "a = (k2, e2)" by (cases a)
    from IH show ?thesis by (cases "ce_completed e' < ce_completed e2") (auto simp: Some a)
  qed
qed auto

lemma oldest_entry_some: "m \<noteq> [] \<or> acc \<noteq> None \<Longrightarrow> \<exists>r. oldest_entry acc m = Some r"
  by (induction acc m rule: oldest_entry.induct) (auto split: option.splits)

lemma oldest_entry_None:
  assumes "m \<noteq> []"
  obtains k e where "oldest_entry None m = Some (k, e)" "(k, e) \<in> set m"
    "\<forall>(k', e')\<in>set m. ce_completed e \<le> ce_completed e'"
proof -
  obtain k e where o: "oldest_entry None m = Some (k, e)" using oldest_entry_some [of m None] assms by auto
  moreover have "(k, e) \<in> set m" using oldest_entry_acc [of None "\<lambda>p. p \<in> set m" m] o by auto
  moreover from oldest_entry_least [OF o] have "\<forall>(k', e')\<in>set m. ce_completed e \<le> ce_completed e'" by blast
  ultimately show ?thesis by (rule that)
qed

lemma evict_loop_step:
  assumes "core_shape c" and "length (c_cache c) > reuseCacheCap"
  obtains k e where "(k, e) \<in> set (c_cache c)" "\<forall>(k', e')\<in>set (c_cache c). ce_completed e \<le> ce_completed e'"
    "evict_loop (Suc n) c = evict_loop n (snd (drop_where (\<lambda>j _. j = k) c))"
    "length (c_cache (snd (drop_where (\<lambda>j _. j = k) c))) = length (c_cache c) - 1"
proof -
  have d: "keys_distinct (c_cache c)" using assms(1) by (simp add: core_shape_def)
  have "c_cache c \<noteq> []" using assms(2) by auto
  then obtain k e where o: "oldest_entry None (c_cache c) = Some (k, e)" and i: "(k, e) \<in> set (c_cache c)"
    and l: "\<forall>(k', e')\<in>set (c_cache c). ce_completed e \<le> ce_completed e'"
    by (rule oldest_entry_None)
  from i d have m: "map_of (c_cache c) k = Some e" by simp
  have "length (AList.delete k (c_cache c)) = length (c_cache c) - 1"
    using length_delete_alist [OF d, of k] m by simp
  then have "length (c_cache (snd (drop_where (\<lambda>j _. j = k) c))) = length (c_cache c) - 1"
    by (simp add: delete_filter)
  with o i l m d assms(2) show ?thesis by (intro that) (auto simp: delete_one)
qed

text \<open>Eviction drops entries only while the cache is over its cap, ends within it, and never
  drops an entry that is newer than one it keeps.\<close>

definition evicted_to :: "core \<Rightarrow> core \<Rightarrow> bool" where
  "evicted_to c c' \<longleftrightarrow>
     c_pin c' = c_pin c \<and> c_invalidated c' = c_invalidated c \<and> c_ring c' = c_ring c \<and> c_pending c' = c_pending c \<and>
     c_cfg c' = c_cfg c \<and> c_last c' = c_last c \<and> c_log c' = c_log c \<and> c_single c' = c_single c \<and>
     c_pin_serial c' = c_pin_serial c \<and> c_warned c' = c_warned c \<and> c_version c' = c_version c \<and>
     length (c_bufs c') = length (c_bufs c) \<and> set (c_cache c') \<subseteq> set (c_cache c) \<and>
     (\<forall>(k, e)\<in>set (c_cache c) - set (c_cache c'). \<forall>(k', e')\<in>set (c_cache c'). ce_completed e \<le> ce_completed e') \<and>
     (\<forall>(k, e)\<in>set (c_cache c'). buffer c' (ce_token e) = buffer c (ce_token e))"

lemma evict_loop_spec:
  "core_shape c \<Longrightarrow> zeroized L c \<Longrightarrow> length (c_cache c) \<le> reuseCacheCap + n \<Longrightarrow>
     core_shape (evict_loop n c) \<and> zeroized L (evict_loop n c) \<and>
     length (c_cache (evict_loop n c)) = min (length (c_cache c)) reuseCacheCap \<and> evicted_to c (evict_loop n c)"
proof (induction n arbitrary: c)
  case 0
  then show ?case by (auto simp: evicted_to_def)
next
  case (Suc n)
  show ?case
  proof (cases "length (c_cache c) > reuseCacheCap")
    case False
    with Suc.prems show ?thesis by (auto simp: evicted_to_def)
  next
    case True
    obtain k e where i: "(k, e) \<in> set (c_cache c)"
      and least: "\<forall>(k', e')\<in>set (c_cache c). ce_completed e \<le> ce_completed e'"
      and step: "evict_loop (Suc n) c = evict_loop n (snd (drop_where (\<lambda>j _. j = k) c))"
      and len: "length (c_cache (snd (drop_where (\<lambda>j _. j = k) c))) = length (c_cache c) - 1"
      by (rule evict_loop_step [OF Suc.prems(1) True])
    let ?c = "snd (drop_where (\<lambda>j _. j = k) c)" and ?r = "evict_loop n (snd (drop_where (\<lambda>j _. j = k) c))"
    have IH: "core_shape ?r \<and> zeroized L ?r \<and> length (c_cache ?r) = min (length (c_cache ?c)) reuseCacheCap \<and> evicted_to ?c ?r"
      by (rule Suc.IH) (use Suc.prems len in \<open>auto intro: core_shape_drop_where zeroized_drop_where\<close>)
    have only: "p = (k, e)" if "p \<in> set (c_cache c)" "fst p = k" for p
    proof -
      from shape_keys [OF Suc.prems(1)] that(1) have "map_of (c_cache c) (fst p) = Some (snd p)"
        by (intro map_of_is_SomeI) simp_all
      moreover from i shape_keys [OF Suc.prems(1)] have "map_of (c_cache c) k = Some e" by simp
      ultimately show ?thesis using that(2) prod.collapse [of p] by simp
    qed
    have "evicted_to c ?r"
      unfolding evicted_to_def
    proof (intro conjI)
      show "\<forall>(k', e')\<in>set (c_cache ?r). buffer ?r (ce_token e') = buffer c (ce_token e')"
      proof clarify
        fix k' e' assume r: "(k', e') \<in> set (c_cache ?r)"
        with IH have "(k', e') \<in> set (c_cache ?c)" and b: "buffer ?r (ce_token e') = buffer ?c (ce_token e')"
          unfolding evicted_to_def by blast+
        then have "(k', e') \<in> set (c_cache c)" "k' \<noteq> k" by auto
        then have "buffer ?c (ce_token e') = buffer c (ce_token e')"
          by (intro buffer_drop_where_kept [OF Suc.prems(1), of k'])
        with b show "buffer ?r (ce_token e') = buffer c (ce_token e')" by simp
      qed
      show "\<forall>(k', e')\<in>set (c_cache c) - set (c_cache ?r). \<forall>(k2, e2)\<in>set (c_cache ?r). ce_completed e' \<le> ce_completed e2"
      proof clarify
        fix k' e' k2 e2
        assume n: "(k', e') \<in> set (c_cache c)" "(k', e') \<notin> set (c_cache ?r)" and r: "(k2, e2) \<in> set (c_cache ?r)"
        from IH have o: "\<forall>(k', e')\<in>set (c_cache ?c) - set (c_cache ?r). \<forall>(k2, e2)\<in>set (c_cache ?r). ce_completed e' \<le> ce_completed e2"
          and sub: "set (c_cache ?r) \<subseteq> set (c_cache ?c)"
          unfolding evicted_to_def by blast+
        show "ce_completed e' \<le> ce_completed e2"
        proof (cases "k' = k")
          case True
          with only [of "(k', e')"] n(1) have "e' = e" by simp
          moreover from sub r have "(k2, e2) \<in> set (c_cache c)" by auto
          ultimately show ?thesis using least by auto
        next
          case False
          with n have "(k', e') \<in> set (c_cache ?c) - set (c_cache ?r)" by simp
          with o r show ?thesis by blast
        qed
      qed
    qed (use IH in \<open>auto simp: evicted_to_def\<close>)
    with IH step len True show ?thesis by simp
  qed
qed

lemma evict_spec:
  "core_shape c \<Longrightarrow> zeroized L c \<Longrightarrow>
     core_shape (evict c) \<and> zeroized L (evict c) \<and>
     length (c_cache (evict c)) = min (length (c_cache c)) reuseCacheCap \<and> evicted_to c (evict c)"
  unfolding evict_def by (rule evict_loop_spec) simp_all

subsection \<open>Insertion\<close>

text \<open>A refused entry leaves no cached trace; an accepted one replaces its predecessor (whose
  token is zeroized) and the cache is then evicted back within its cap.\<close>

lemma insert_shape:
  assumes "core_wf c" and "zeroized (insert (ce_token e) L) c" and "ce_token e < length (c_bufs c)"
    and "ce_token e \<notin> set (tokens c)" and "c_pin c \<noteq> Some (ce_token e)" and "\<not> watermarked (ce_key e) c"
  defines "c' \<equiv> (snd (drop_where (\<lambda>j _. j = ce_key e) c))\<lparr>c_cache := AList.update (ce_key e) e (c_cache c)\<rparr>"
  shows "insert_entry (Some e) c = (True, evict c')" and "core_shape c'" and "zeroized L c'"
    and "length (c_cache c') \<le> Suc reuseCacheCap"
proof -
  have d: "keys_distinct (c_cache c)" using assms(1) by (rule wf_keys)
  have upd: "set (AList.update (ce_key e) e (c_cache c)) = insert (ce_key e, e) {p \<in> set (c_cache c). fst p \<noteq> ce_key e}"
    by (rule set_update_distinct [OF d])
  have dw: "(case map_of (c_cache c) (ce_key e) of Some previous \<Rightarrow> zero (ce_token previous) c | None \<Rightarrow> c)
      \<lparr>c_cache := AList.update (ce_key e) e (c_cache c)\<rparr> = c'"
  proof (cases "map_of (c_cache c) (ce_key e)")
    case None
    then have "filter (\<lambda>(j, _). j = ce_key e) (c_cache c) = []"
      by (force simp: filter_empty_conv map_of_eq_None_iff)
    then show ?thesis by (simp add: None c'_def drop_where_def Let_def)
  next
    case (Some p)
    from filter_key [OF d Some] show ?thesis
      by (simp add: Some c'_def drop_where_def Let_def zero_all_Cons)
  qed
  have cc: "c_cache (case map_of (c_cache c) (ce_key e) of Some previous \<Rightarrow> zero (ce_token previous) c | None \<Rightarrow> c) = c_cache c"
    by (simp split: option.splits)
  show "insert_entry (Some e) c = (True, evict c')"
    using assms(6) unfolding insert_entry_def by (simp add: Let_def cc dw)
  have tok: "set (tokens c') \<subseteq> insert (ce_token e) (set (tokens c))" "ce_token e \<in> set (tokens c')"
    by (auto simp: tokens_def c'_def upd)
  have inj: "inj_on (\<lambda>(k, x). ce_token x) (set (c_cache c))"
    using wf_shape [OF assms(1)] by (simp add: core_shape_def tokens_def distinct_map)
  have "inj_on (\<lambda>(k, x). ce_token x) (set (c_cache c'))"
  proof (rule inj_onI)
    fix p q assume p: "p \<in> set (c_cache c')" and q: "q \<in> set (c_cache c')" and e: "(\<lambda>(k, x). ce_token x) p = (\<lambda>(k, x). ce_token x) q"
    have n: "(\<lambda>(k, x). ce_token x) r \<noteq> ce_token e" if "r \<in> set (c_cache c)" for r
      using that assms(4) unfolding tokens_def set_map by (metis imageI)
    from p q have "p = (ce_key e, e) \<or> p \<in> set (c_cache c)" "q = (ce_key e, e) \<or> q \<in> set (c_cache c)"
      by (auto simp: c'_def upd)
    then show "p = q"
    proof (elim disjE)
      assume "p \<in> set (c_cache c)" "q \<in> set (c_cache c)"
      from inj_onD [OF inj e this] show ?thesis .
    next
      assume "p = (ce_key e, e)" "q \<in> set (c_cache c)"
      with e n [of q] show ?thesis by simp
    next
      assume "p \<in> set (c_cache c)" "q = (ce_key e, e)"
      with e n [of p] show ?thesis by simp
    qed simp
  qed
  moreover have "distinct (c_cache c')"
    using distinct_update [OF d] by (auto simp: c'_def distinct_map)
  ultimately have dt: "distinct (tokens c')" by (simp add: tokens_def distinct_map)
  have ent: "\<forall>(k, x)\<in>set (c_cache c'). ce_key x = k \<and> ce_token x < length (c_bufs c')"
    using wf_shape [OF assms(1)] assms(3) by (auto simp: c'_def upd core_shape_def)
  show "core_shape c'"
    unfolding core_shape_def
  proof (intro conjI)
    show "keys_distinct (c_cache c')" using distinct_update [OF d] by (simp add: c'_def)
    show "\<forall>a. c_pin c' = Some a \<longrightarrow> a < length (c_bufs c') \<and> a \<notin> set (tokens c')"
      using wf_shape [OF assms(1)] assms(5) tok(1) by (auto simp: c'_def core_shape_def)
  qed (rule ent, rule dt)
  show "zeroized L c'"
    unfolding zeroized_def
  proof (intro allI impI)
    fix a assume a: "c_pin c' \<noteq> Some a \<and> a \<notin> set (tokens c') \<and> a \<notin> L"
    have "zeroized (insert (ce_token e) L) (snd (drop_where (\<lambda>j _. j = ce_key e) c))"
      by (rule zeroized_drop_where [OF assms(2)])
    moreover have "a \<notin> set (tokens (snd (drop_where (\<lambda>j _. j = ce_key e) c)))" "a \<noteq> ce_token e"
      using a tok(2) by (auto simp: tokens_def c'_def upd)
    ultimately show "all_zero (buffer c' a)"
      using a by (simp add: zeroized_def c'_def)
  qed
  have "length (c_cache c) \<le> reuseCacheCap" using assms(1) by (simp add: core_wf_def core_bounds_def)
  then show "length (c_cache c') \<le> Suc reuseCacheCap" by (simp add: c'_def length_update_alist)
qed

lemma core_wf_insert:
  assumes "core_wf c" and "zeroized (insert (ce_token e) L) c" and "ce_token e < length (c_bufs c)"
    and "ce_token e \<notin> set (tokens c)" and "c_pin c \<noteq> Some (ce_token e)"
  shows "core_wf (snd (insert_entry (Some e) c)) \<and> zeroized L (snd (insert_entry (Some e) c))"
proof (cases "watermarked (ce_key e) c")
  case True
  then have i: "insert_entry (Some e) c = (False, zero (ce_token e) c)" by (simp add: insert_entry_def)
  have t: "tokens (zero (ce_token e) c) = tokens c" by (simp add: tokens_def)
  have "core_wf (zero (ce_token e) c)"
    using assms(1) by (simp add: core_wf_def core_shape_def core_bounds_def t)
  moreover have "zeroized L (zero (ce_token e) c)"
    using assms(2) by (auto simp: zeroized_def t)
  ultimately show ?thesis by (simp add: i)
next
  case False
  note i = insert_shape [OF assms False]
  from evict_spec [OF i(2,3)] i(4) assms(1) show ?thesis
    by (auto simp: i(1) core_wf_def core_bounds_def evicted_to_def)
qed

subsection \<open>Watermarks\<close>

lemma bound_watermarks_id: "length m \<le> invalidatedCap \<Longrightarrow> bound_watermarks n m = m"
  by (cases n) simp_all

lemma bound_watermarks_length: "length (bound_watermarks n m) \<le> length m"
proof (induction n m rule: bound_watermarks.induct)
  case (2 n m)
  then show ?case
    using length_delete_le [of "fst (lowest_watermark ([], 0) m)" m] by (auto intro: le_trans)
qed simp

lemma lowest_watermark_in:
  "\<forall>(w, g)\<in>set m. w \<noteq> [] \<Longrightarrow> fst acc \<noteq> [] \<or> m \<noteq> [] \<Longrightarrow>
     lowest_watermark acc m \<in> insert acc (set m) \<and> (fst acc = [] \<longrightarrow> lowest_watermark acc m \<in> set m)"
proof (induction acc m rule: lowest_watermark.induct)
  case (2 lowest gen workspace seen m)
  let ?acc = "if lowest = [] \<or> seen < gen then (workspace, seen) else (lowest, gen)"
  have "fst ?acc \<noteq> []" using "2.prems"(1) by auto
  with "2.IH" "2.prems"(1) have "lowest_watermark ?acc m \<in> insert ?acc (set m)" by simp
  then show ?case by (auto split: if_splits)
qed simp

lemma keys_distinct_bound: "keys_distinct m \<Longrightarrow> keys_distinct (bound_watermarks n m)"
  by (induction n m rule: bound_watermarks.induct) (simp_all add: distinct_delete)

lemma bound_watermarks_cap:
  "keys_distinct m \<Longrightarrow> \<forall>(w, g)\<in>set m. w \<noteq> [] \<Longrightarrow> length m \<le> invalidatedCap + n \<Longrightarrow>
     length (bound_watermarks n m) \<le> invalidatedCap"
proof (induction n m rule: bound_watermarks.induct)
  case (2 n m)
  show ?case
  proof (cases "length m > invalidatedCap")
    case True
    then have "m \<noteq> []" by auto
    with "2.prems"(2) have i: "lowest_watermark ([], 0) m \<in> set m"
      using lowest_watermark_in [of m "([], 0)"] by auto
    let ?k = "fst (lowest_watermark ([], 0) m)"
    from i have "map_of m ?k \<noteq> None" by (simp add: map_of_eq_None_iff)
    with length_delete_alist [OF "2.prems"(1), of ?k] "2.prems"(3) True
    have "length (AList.delete ?k m) \<le> invalidatedCap + n" by simp
    moreover have "\<forall>(w, g)\<in>set (AList.delete ?k m). w \<noteq> []" using "2.prems"(2) by (auto simp: delete_filter)
    ultimately show ?thesis using "2.IH" [OF True distinct_delete [OF "2.prems"(1)]] True by simp
  qed simp
qed simp

lemma recordWatermark_frame [simp]:
  "c_cfg (recordWatermark w g c) = c_cfg c" "c_bufs (recordWatermark w g c) = c_bufs c"
  "c_pin (recordWatermark w g c) = c_pin c" "c_cache (recordWatermark w g c) = c_cache c"
  "c_pending (recordWatermark w g c) = c_pending c" "c_ring (recordWatermark w g c) = c_ring c"
  "c_single (recordWatermark w g c) = c_single c" "c_log (recordWatermark w g c) = c_log c"
  "c_last (recordWatermark w g c) = c_last c" "c_pin_serial (recordWatermark w g c) = c_pin_serial c"
  "buffer (recordWatermark w g c) = buffer c" "tokens (recordWatermark w g c) = tokens c"
  by (simp_all add: recordWatermark_def Let_def tokens_def split: option.splits)

definition marks_ok :: "core \<Rightarrow> bool" where
  "marks_ok c \<longleftrightarrow> (\<forall>(w, g)\<in>set (c_invalidated c). w \<noteq> [])"

lemma recordWatermark_bounds:
  "core_bounds c \<Longrightarrow> marks_ok c \<Longrightarrow> w \<noteq> [] \<Longrightarrow> core_bounds (recordWatermark w g c)"
proof -
  assume b: "core_bounds c" and m: "marks_ok c" and w: "w \<noteq> []"
  let ?m = "AList.update w g (c_invalidated c)"
  have d: "keys_distinct ?m" using b by (auto simp: core_bounds_def intro: distinct_update)
  have n: "\<forall>(w, g)\<in>set ?m. w \<noteq> []"
    using m w set_update_alist [of w g "c_invalidated c"] by (auto simp: marks_ok_def)
  have "length (bound_watermarks (length ?m) ?m) \<le> invalidatedCap"
    by (rule bound_watermarks_cap [OF d n]) simp
  moreover have "keys_distinct (bound_watermarks (length ?m) ?m)" by (rule keys_distinct_bound [OF d])
  ultimately show ?thesis
    using b by (auto simp: recordWatermark_def Let_def core_bounds_def split: option.splits)
qed

lemma set_bound_watermarks: "set (bound_watermarks n m) \<subseteq> set m"
proof (induction n m rule: bound_watermarks.induct)
  case (2 n m)
  have "set (AList.delete k m) \<subseteq> set m" for k by (auto simp: delete_filter)
  with 2 show ?case by auto
qed simp

lemma marks_ok_record: "marks_ok c \<Longrightarrow> w \<noteq> [] \<Longrightarrow> marks_ok (recordWatermark w g c)"
proof -
  assume "marks_ok c" "w \<noteq> []"
  then have "\<forall>(w', g')\<in>set (AList.update w g (c_invalidated c)). w' \<noteq> []"
    using set_update_alist [of w g "c_invalidated c"] by (auto simp: marks_ok_def)
  then have "\<forall>(w', g')\<in>set (bound_watermarks n (AList.update w g (c_invalidated c))). w' \<noteq> []" for n
    using set_bound_watermarks by blast
  with \<open>marks_ok c\<close> show ?thesis
    by (simp add: recordWatermark_def marks_ok_def Let_def split: option.split)
qed

text \<open>While there is room for the workspace, its watermark is at least what was recorded.\<close>

lemma recordWatermark_kept:
  assumes "length (c_invalidated c) < invalidatedCap \<or>
      map_of (c_invalidated c) w \<noteq> None \<and> length (c_invalidated c) \<le> invalidatedCap"
  shows "\<exists>g'. map_of (c_invalidated (recordWatermark w g c)) w = Some g' \<and> g \<le> g'"
proof -
  let ?m = "AList.update w g (c_invalidated c)"
  have "length ?m \<le> invalidatedCap" using assms by (auto simp: length_update_alist)
  then have "bound_watermarks (length ?m) ?m = ?m" by (cases "length ?m") simp_all
  then show ?thesis
    by (auto simp: recordWatermark_def Let_def update_conv' split: option.splits)
qed

subsection \<open>Invalidation\<close>

lemma InvalidateWorkspace_eq:
  assumes "w \<noteq> []"
  shows "InvalidateWorkspace w g c =
    (let n = length (filter (\<lambda>(k, e). claim_covered w g k) (c_cache c));
         highest = highest_generation (filter (\<lambda>(k, e). claim_covered w g k) (c_cache c));
         mark = (if g = 0 then (if fst (c_pending c) = w \<and> snd (c_pending c) > highest then snd (c_pending c) else highest) else g);
         c1 = snd (drop_where (\<lambda>k e. claim_covered w g k) c);
         c2 = (if mark \<noteq> 0 then recordWatermark w mark c1 else c1)
     in (n, if n \<noteq> 0 then wakeNotifier c2 else c2))"
  using assms by (simp add: InvalidateWorkspace_def drop_where_eq Let_def)

lemma InvalidateWorkspace_fst:
  "w \<noteq> [] \<Longrightarrow> fst (InvalidateWorkspace w g c) = length (filter (\<lambda>(k, e). claim_covered w g k) (c_cache c))"
  by (simp add: InvalidateWorkspace_eq Let_def)

lemma InvalidateWorkspace_cache:
  "w \<noteq> [] \<Longrightarrow> c_cache (snd (InvalidateWorkspace w g c)) = filter (\<lambda>(k, e). \<not> claim_covered w g k) (c_cache c)"
  by (simp add: InvalidateWorkspace_eq Let_def)

lemma InvalidateWorkspace_buffer:
  "w \<noteq> [] \<Longrightarrow> buffer (snd (InvalidateWorkspace w g c)) = buffer (snd (drop_where (\<lambda>k e. claim_covered w g k) c))"
  by (simp add: InvalidateWorkspace_eq Let_def)

lemma InvalidateWorkspace_frame [simp]:
  "c_pin (snd (InvalidateWorkspace w g c)) = c_pin c" "c_pending (snd (InvalidateWorkspace w g c)) = c_pending c"
  "c_cfg (snd (InvalidateWorkspace w g c)) = c_cfg c" "c_ring (snd (InvalidateWorkspace w g c)) = c_ring c"
  "c_single (snd (InvalidateWorkspace w g c)) = c_single c" "c_last (snd (InvalidateWorkspace w g c)) = c_last c"
  "c_pin_serial (snd (InvalidateWorkspace w g c)) = c_pin_serial c"
  by (cases "w = []"; simp add: InvalidateWorkspace_def [of "[]"] InvalidateWorkspace_eq Let_def)+

lemma core_shape_record [simp]: "core_shape (recordWatermark w g c) = core_shape c"
  "zeroized L (recordWatermark w g c) = zeroized L c"
  by (simp_all add: core_shape_def zeroized_def)

lemma InvalidateWorkspace_wf:
  assumes "core_wf c" and "marks_ok c" and "zeroized L c"
  shows "core_wf (snd (InvalidateWorkspace w g c)) \<and> marks_ok (snd (InvalidateWorkspace w g c)) \<and>
    zeroized L (snd (InvalidateWorkspace w g c))"
proof (cases "w = []")
  case False
  let ?c = "snd (drop_where (\<lambda>k e. claim_covered w g k) c)"
  have m: "marks_ok ?c" using assms(2) by (simp add: marks_ok_def)
  have "core_wf (recordWatermark w x ?c)" for x
    using core_wf_drop_where [OF assms(1)] recordWatermark_bounds [OF _ m False]
    by (simp add: core_wf_def)
  moreover have "marks_ok (wakeNotifier d) = marks_ok d" for d by (simp add: marks_ok_def)
  ultimately show ?thesis
    using assms False m
    by (simp add: InvalidateWorkspace_eq Let_def core_wf_drop_where zeroized_drop_where marks_ok_record)
qed (use assms in \<open>simp add: InvalidateWorkspace_def\<close>)

lemma highest_generation_ge: "(k, e) \<in> set ps \<Longrightarrow> rk_generation k \<le> highest_generation ps"
proof -
  have "h \<le> fold (\<lambda>(k, e) h. if rk_generation k > h then rk_generation k else h) ps h \<and>
      (\<forall>(k, e)\<in>set ps. rk_generation k \<le> fold (\<lambda>(k, e) h. if rk_generation k > h then rk_generation k else h) ps h)" for h
  proof (induction ps arbitrary: h)
    case (Cons p ps)
    obtain k e where p: "p = (k, e)" by (cases p)
    let ?h = "if rk_generation k > h then rk_generation k else h"
    from Cons [of ?h] show ?case
      unfolding p by (auto intro: order_trans [rotated] split: if_splits)
  qed simp
  then show "(k, e) \<in> set ps \<Longrightarrow> rk_generation k \<le> highest_generation ps"
    unfolding highest_generation_def by fastforce
qed

text \<open>C26: releasing a claim takes effect on everything held for it. After
  \<open>InvalidateWorkspace\<close> no cached assertion of that workspace up to the given generation is
  left (any generation, for 0), every dropped token has been overwritten with zeros, every
  other assertion is still there with its token intact, and the result is the number of
  assertions dropped.\<close>

theorem InvalidateWorkspace_purges:
  assumes "core_wf c" and "w \<noteq> []" and "InvalidateWorkspace w g c = (n, c')"
  shows "c_cache c' = filter (\<lambda>(k, e). \<not> (rk_workspace k = w \<and> (g = 0 \<or> rk_generation k \<le> g))) (c_cache c) \<and>
    n = length (c_cache c) - length (c_cache c') \<and>
    (\<forall>(k, e)\<in>set (c_cache c) - set (c_cache c'). all_zero (buffer c' (ce_token e))) \<and>
    (\<forall>(k, e)\<in>set (c_cache c'). buffer c' (ce_token e) = buffer c (ce_token e))"
proof -
  let ?P = "\<lambda>k e. claim_covered w g k"
  have n: "n = length (filter (\<lambda>(k, e). ?P k e) (c_cache c))"
    using InvalidateWorkspace_fst [OF assms(2), of g c] by (simp add: assms(3))
  have c': "c' = snd (InvalidateWorkspace w g c)" by (simp add: assms(3))
  note b = InvalidateWorkspace_buffer [OF assms(2), of g c] and m = InvalidateWorkspace_cache [OF assms(2), of g c]
  have "\<not> claim_covered w g k \<longleftrightarrow> \<not> (rk_workspace k = w \<and> (g = 0 \<or> rk_generation k \<le> g))" for k
    by (auto simp: claim_covered_def)
  then have f: "c_cache c' = filter (\<lambda>(k, e). \<not> (rk_workspace k = w \<and> (g = 0 \<or> rk_generation k \<le> g))) (c_cache c)"
    unfolding c' m by simp
  have "n = length (c_cache c) - length (c_cache c')"
    using sum_length_filter_compl [of "\<lambda>(k, e). ?P k e" "c_cache c"] by (simp add: n c' m case_prod_unfold)
  moreover have "\<forall>(k, e)\<in>set (c_cache c) - set (c_cache c'). all_zero (buffer c' (ce_token e))"
    by (auto simp: c' b m buffer_drop_where)
  moreover have "\<forall>(k, e)\<in>set (c_cache c'). buffer c' (ce_token e) = buffer c (ce_token e)"
    using buffer_drop_where_kept [OF wf_shape [OF assms(1)]] by (auto simp: c' b m)
  ultimately show ?thesis using f by blast
qed

lemma invalidation_marks_pending:
  assumes "c_pending c = (rk_workspace key, rk_generation key)" and "rk_workspace key \<noteq> []" and "rk_generation key \<noteq> 0"
    and "g = 0 \<or> rk_generation key \<le> g"
    and "length (c_invalidated c) < invalidatedCap \<or>
      map_of (c_invalidated c) (rk_workspace key) \<noteq> None \<and> length (c_invalidated c) \<le> invalidatedCap"
  shows "watermarked key (snd (InvalidateWorkspace (rk_workspace key) g c))"
proof -
  let ?w = "rk_workspace key" and ?c1 = "snd (drop_where (\<lambda>k e. claim_covered (rk_workspace key) g k) c)"
  let ?h = "highest_generation (filter (\<lambda>(k, e). claim_covered ?w g k) (c_cache c))"
  define mark where "mark = (if g = 0 then (if fst (c_pending c) = ?w \<and> snd (c_pending c) > ?h then snd (c_pending c) else ?h) else g)"
  have mark: "mark \<noteq> 0" "rk_generation key \<le> mark"
    using assms(1,3,4) by (auto simp: mark_def word_gt_0 not_less intro: order_trans dest: word_le_0_iff [THEN iffD1])
  have "length (c_invalidated ?c1) < invalidatedCap \<or>
      map_of (c_invalidated ?c1) ?w \<noteq> None \<and> length (c_invalidated ?c1) \<le> invalidatedCap"
    using assms(5) by simp
  from recordWatermark_kept [OF this, of mark] obtain g' where
    "map_of (c_invalidated (recordWatermark ?w mark ?c1)) ?w = Some g'" "mark \<le> g'" by blast
  moreover have "c_invalidated (snd (InvalidateWorkspace ?w g c)) = c_invalidated (recordWatermark ?w mark ?c1)"
    using mark(1) by (simp add: InvalidateWorkspace_eq [OF assms(2)] Let_def mark_def)
  ultimately show ?thesis using mark(2) assms(2) by (auto simp: watermarked_def)
qed

text \<open>What \<open>invalidation_marks_pending\<close> needs of the watermark map is needed: with the
  map full of watermarks of other workspaces at higher generations, the watermark just
  recorded is the one evicted, and the pending mint's insertion is not refused.\<close>

lemma lowest_watermark_lowest:
  "\<forall>(w, g)\<in>set m. w \<noteq> [] \<and> low < g \<or> (w, g) = (x, low) \<Longrightarrow> x \<noteq> [] \<Longrightarrow> (x, low) \<in> set m \<or> acc = (x, low) \<Longrightarrow>
     acc = (x, low) \<or> fst acc = [] \<or> low < snd acc \<Longrightarrow> lowest_watermark acc m = (x, low)"
proof (induction acc m rule: lowest_watermark.induct)
  case (2 lowest gen workspace seen m)
  show ?case
    unfolding lowest_watermark.simps
    by (rule "2.IH") (use "2.prems" in \<open>auto split: if_splits\<close>)
qed auto

text \<open>C36: the bound on the watermark map can drop the watermark it has just recorded. When the
  map already holds its 256 workspaces, each with a higher generation than the one being
  invalidated, the recorded watermark is gone when the call returns, and the assertion of a
  mint that entered the card before the call is kept after it.\<close>

theorem recordWatermark_can_be_lost:
  assumes "keys_distinct (c_invalidated c)" and "length (c_invalidated c) = invalidatedCap"
    and "\<forall>(w', g')\<in>set (c_invalidated c). w' \<noteq> [] \<and> w' \<noteq> w \<and> g < g'" and "w \<noteq> []"
    and "rk_workspace (ce_key e) = w"
  shows "map_of (c_invalidated (recordWatermark w g c)) w = None \<and>
    fst (insert_entry (Some e) (recordWatermark w g c))"
proof -
  let ?m = "AList.update w g (c_invalidated c)"
  have n: "w \<notin> fst ` set (c_invalidated c)" using assms(3) by fastforce
  then have none: "map_of (c_invalidated c) w = None" by (simp add: map_of_eq_None_iff)
  have m: "set ?m = insert (w, g) (set (c_invalidated c))"
    using set_update_distinct [OF assms(1), of w g] n by force
  have l: "lowest_watermark ([], 0) ?m = (w, g)"
    by (rule lowest_watermark_lowest) (use m assms(3,4) in auto)
  have len: "length ?m = Suc invalidatedCap" using none assms(2) by (simp add: length_update_alist)
  have "map_of (bound_watermarks (length ?m) ?m) w = None"
  proof -
    have d: "length (AList.delete w ?m) = invalidatedCap"
      using length_delete_alist [OF distinct_update [OF assms(1)], of w w g] len by (simp add: update_conv')
    have "bound_watermarks (length ?m) ?m = bound_watermarks invalidatedCap (AList.delete w ?m)"
      unfolding len by (simp add: len l)
    also have "\<dots> = AList.delete w ?m"
      by (rule bound_watermarks_id) (simp add: d)
    finally show ?thesis by (simp add: delete_conv')
  qed
  then have "map_of (c_invalidated (recordWatermark w g c)) w = None"
    by (simp add: recordWatermark_def none Let_def)
  with assms(5) show ?thesis by (simp add: insert_entry_def watermarked_def Let_def)
qed

subsection \<open>One concrete state\<close>

definition demo_key :: reuse_key where
  "demo_key = \<lparr>rk_alias = ''ro'', rk_target = ''t'', rk_audience = ''a'', rk_kind = KindLocal, rk_label = [],
     rk_session = [], rk_mode = ModeLocalAllowed, rk_protocol = 1, rk_route = [], rk_serial = 7, rk_kid = ''k'',
     rk_spki = [], rk_origin = ''o'', rk_workspace = ''w'', rk_bundle = ''b'', rk_generation = 2\<rparr>"

definition demo_entry :: cache_entry where
  "demo_entry = \<lparr>ce_key = demo_key, ce_token = 0, ce_completed = 5, ce_expires = 300 * second, ce_serial = 7,
     ce_key_id = ''k'', ce_spki = [], ce_readers = [], ce_window_ends = 5, ce_notified_pre = False,
     ce_notified_expired = False\<rparr>"

definition demo_core :: core where
  "demo_core = (New demo_config ''1'')\<lparr>c_bufs := [''tok''], c_cache := [(demo_key, demo_entry)],
     c_pending := (''w'', 2)\<rparr>"

lemma demo_core_wf: "core_wf demo_core" "marks_ok demo_core" "zeroized {} demo_core"
  by (simp_all add: core_wf_def core_shape_def core_bounds_def demo_core_def New_def tokens_def demo_entry_def
      reuseCacheCap_def marks_ok_def zeroized_def buffer_def)

theorem InvalidateWorkspace_purges_witness:
  "all_zero (buffer (snd (InvalidateWorkspace ''w'' 0 demo_core)) 0)"
proof -
  obtain n c' where i: "InvalidateWorkspace ''w'' 0 demo_core = (n, c')" by (cases "InvalidateWorkspace ''w'' 0 demo_core")
  have "''w'' \<noteq> []" by simp
  from InvalidateWorkspace_purges [OF demo_core_wf(1) this i]
  have "c_cache c' = []" and
    "\<forall>(k, e)\<in>set (c_cache demo_core) - set (c_cache c'). all_zero (buffer c' (ce_token e))"
    by (simp_all add: demo_core_def demo_key_def)
  then have "all_zero (buffer c' (ce_token demo_entry))" by (simp add: demo_core_def)
  then show ?thesis by (simp add: i demo_entry_def)
qed

definition full_watermarks :: "(string, u64) gomap" where
  "full_watermarks = map (\<lambda>i. (replicate (Suc i) (CHR ''x''), 2)) [0..<invalidatedCap]"

theorem recordWatermark_can_be_lost_witness:
  "fst (insert_entry (Some (demo_entry\<lparr>ce_key := demo_key\<lparr>rk_workspace := ''w''\<rparr>\<rparr>))
     (recordWatermark ''w'' 1 (demo_core\<lparr>c_invalidated := full_watermarks\<rparr>)))"
proof -
  have "inj_on (\<lambda>i. replicate (Suc i) (CHR ''x'')) (set [0..<invalidatedCap])"
    by (rule inj_onI) (metis length_replicate nat.inject)
  then have "keys_distinct full_watermarks"
    by (simp only: full_watermarks_def map_map o_def fst_conv distinct_map distinct_upt simp_thms)
  moreover have "length full_watermarks = invalidatedCap" by (simp add: full_watermarks_def)
  moreover have "\<forall>(w', g')\<in>set full_watermarks. w' \<noteq> [] \<and> w' \<noteq> ''w'' \<and> 1 < g'"
    by (auto simp: full_watermarks_def)
  ultimately show ?thesis
    using recordWatermark_can_be_lost [of "demo_core\<lparr>c_invalidated := full_watermarks\<rparr>" "''w''" 1
      "demo_entry\<lparr>ce_key := demo_key\<lparr>rk_workspace := ''w''\<rparr>\<rparr>"] by simp
qed

end
