(* ===== verification/Core_Policy.thy ===== *)
theory Core_Policy
  imports Core_State
begin

text \<open>
  The pure decisions of \<open>internal/core\<close>: the requester tuple a touch authorises, the
  authorisation window a provider grants a forwarded mint (\<open>window.go\<close>), how long an
  assertion may be reused, what the operator is asked to consent to, and the rolling mint
  rate (\<open>recordMintLocked\<close>, \<open>mintCountersLocked\<close>).
\<close>

subsection \<open>Alias policy\<close>

definition cardMode :: "config \<Rightarrow> string" where
  "cardMode cfg = (if cf_card cfg = [] then CardLocal else cf_card cfg)"

definition aliasAssertionLifetime :: "alias_config \<Rightarrow> duration" where
  "aliasAssertionLifetime a =
     (if al_assertion_lifetime_s a \<le> 0 then DefaultLifetime else dur_seconds (al_assertion_lifetime_s a))"

definition reuseKeyFor :: "request \<Rightarrow> alias_config \<Rightarrow> reuse_key" where
  "reuseKeyFor req a =
     (let fc = rq_context req in
      \<lparr>rk_alias = rq_alias req, rk_target = al_target a, rk_audience = rq_audience req,
       rk_kind = src_kind (rq_source req), rk_label = src_label (rq_source req),
       rk_session = src_session (rq_source req), rk_mode = at_mode (rq_attachment req),
       rk_protocol = at_protocol (rq_attachment req), rk_route = at_route (rq_attachment req),
       rk_serial = ci_serial (rq_card req), rk_kid = ci_key_id (rq_card req), rk_spki = ci_spki (rq_card req),
       rk_origin = fc_origin fc, rk_workspace = fc_workspace fc, rk_bundle = fc_bundle fc,
       rk_generation = fc_generation fc\<rparr>)"

text \<open>\<open>fmt.Sprintf\<close> of the forwarded context, the reuse line and the lifetime line.\<close>

definition signingLabel :: "request \<Rightarrow> string \<Rightarrow> duration \<Rightarrow> duration \<Rightarrow> string" where
  "signingLabel req target reuse lifetime =
     (let label = SigningLabel (rq_source req) (rq_alias req) target;
          fc = rq_context req;
          label1 =
            (if fc_operation fc \<noteq> []
             then label @ '' [ZKA origin='' @ fc_origin fc @ '' workspace='' @ fc_workspace fc @ '' bundle=''
               @ fc_bundle fc @ '' generation='' @ fmt_nat (unat (fc_generation fc)) @ '' operation=''
               @ fc_operation fc @ '']''
             else label);
          label2 =
            (if reuse > 0
             then label1 @ newline # ''authorises '' @ rq_alias req @ '' touch-free for '' @ duration_string reuse
             else label1)
      in if lifetime \<noteq> DefaultLifetime
         then label2 @ newline # ''assertion valid '' @ duration_string lifetime else label2)"

fun xor_bytes :: "bytes \<Rightarrow> bytes \<Rightarrow> 8 word \<Rightarrow> 8 word" where
  "xor_bytes (a # as) (b # bs) acc =
     xor_bytes as bs (or acc (xor (of_nat (cp a)) (of_nat (cp b))))"
| "xor_bytes _ _ acc = acc"

definition equalBytes :: "bytes \<Rightarrow> bytes \<Rightarrow> bool" where
  "equalBytes a b \<longleftrightarrow> length a = length b \<and> xor_bytes a b 0 = 0"

subsection \<open>The authorisation window\<close>

definition grantedWindow :: "config \<Rightarrow> forward_context \<Rightarrow> gotime \<Rightarrow> (int \<times> gotime) res" where
  "grantedWindow cfg fc now =
     (if fc_window_s fc \<le> 0 then Inr (0, zero_time)
      else if cf_max_grant cfg \<le> 0 then Inl (WindowNotAllowed (fc_window_s fc))
      else
        let granted = min (fc_window_s fc) (cf_max_grant cfg);
            claimStart = time_unix (wrap64 (fc_window_deadline fc - fc_window_s fc));
            deadline = time_add claimStart (dur_seconds granted)
        in if \<not> deadline > now then Inr (0, zero_time) else Inr (granted, deadline))"

definition unixOrZero :: "gotime \<Rightarrow> int" where
  "unixOrZero deadline = (if deadline = zero_time then 0 else unix_of deadline)"

definition touchFreeUntil :: "gotime \<Rightarrow> duration \<Rightarrow> gotime \<Rightarrow> gotime" where
  "touchFreeUntil completedAt aliasReuse grantedDeadline =
     (let endsAt = time_add completedAt aliasReuse in
      if grantedDeadline = zero_time \<or> \<not> grantedDeadline < endsAt then endsAt
      else if grantedDeadline < completedAt then completedAt else grantedDeadline)"

subsection \<open>The mint rate\<close>

definition recent_mints :: "mint_record \<Rightarrow> mint_record list \<Rightarrow> nat" where
  "recent_mints rec ring =
     length (filter (\<lambda>e. mr_session e = mr_session rec \<and> mr_at e > time_add (mr_at rec) (- mintWarnWindow)) ring)"

definition last_warned :: "string \<Rightarrow> core \<Rightarrow> gotime" where
  "last_warned session c = (case map_of (c_warned c) session of Some t \<Rightarrow> t | None \<Rightarrow> zero_time)"

definition warnRate :: "mint_record \<Rightarrow> core \<Rightarrow> core" where
  "warnRate rec c =
     (let recent = recent_mints rec (c_ring c) in
      if recent \<ge> mintWarnThreshold \<and> \<not> last_warned (mr_session rec) c > time_add (mr_at rec) (- mintWarnWindow)
      then c\<lparr>c_warned := AList.update (mr_session rec) (mr_at rec) (c_warned c),
             c_log := c_log c @ [RateWarning (mr_session rec) (mr_alias rec) recent]\<rparr>
      else c)"

definition pruned_ring :: "mint_record \<Rightarrow> mint_record list \<Rightarrow> mint_record list" where
  "pruned_ring rec ring =
     (let kept = filter (\<lambda>e. mr_at e > time_add (mr_at rec) (- mintRingWindow)) (ring @ [rec])
      in drop (length kept - mintRingCap) kept)"

definition recordMint :: "mint_record \<Rightarrow> core \<Rightarrow> core" where
  "recordMint rec c =
     (let cutoff = time_add (mr_at rec) (- mintRingWindow);
          c1 = c\<lparr>c_ring := pruned_ring rec (c_ring c)\<rparr>
      in if mr_session rec = [] then c1
         else
           let c2 = warnRate rec c1
           in c2\<lparr>c_warned := filter (\<lambda>(_, at). at > cutoff) (c_warned c2)\<rparr>)"

record mint_counters =
  mc_1m :: nat
  mc_5m :: nat
  mc_60m :: nat
  mc_signatures :: nat
  mc_alias :: "(string, nat) gomap"
  mc_session :: "(string, nat) gomap"

definition bump :: "string \<Rightarrow> (string, nat) gomap \<Rightarrow> (string, nat) gomap" where
  "bump k m =
     (if k = [] then m
      else AList.update k (Suc (case map_of m k of Some n \<Rightarrow> n | None \<Rightarrow> 0)) m)"

definition count_mint :: "gotime \<Rightarrow> mint_record \<Rightarrow> mint_counters \<Rightarrow> mint_counters" where
  "count_mint now e m =
     (let age = time_sub now (mr_at e) in
      if age \<ge> mintRingWindow then m
      else m\<lparr>mc_60m := Suc (mc_60m m),
             mc_signatures := (if mr_reused e then mc_signatures m else Suc (mc_signatures m)),
             mc_1m := (if age < minute then Suc (mc_1m m) else mc_1m m),
             mc_5m := (if age < 5 * minute then Suc (mc_5m m) else mc_5m m),
             mc_alias := bump (mr_alias e) (mc_alias m),
             mc_session := bump (mr_session e) (mc_session m)\<rparr>)"

definition mintCounters :: "core \<Rightarrow> gotime \<Rightarrow> mint_counters option" where
  "mintCounters c now =
     (if c_ring c = [] then None
      else
        let m = fold (count_mint now) (c_ring c)
          \<lparr>mc_1m = 0, mc_5m = 0, mc_60m = 0, mc_signatures = 0, mc_alias = [], mc_session = []\<rparr>
        in if mc_60m m = 0 then None else Some m)"

subsection \<open>Comparison in constant time\<close>

lemma byte_inject: "(of_nat (cp a) :: 8 word) = of_nat (cp b) \<Longrightarrow> a = b"
proof -
  assume "(of_nat (cp a) :: 8 word) = of_nat (cp b)"
  then have "unat (of_nat (cp a) :: 8 word) = unat (of_nat (cp b) :: 8 word)" by simp
  then have "cp a = cp b" using cp_less [of a] cp_less [of b] by (simp add: unat_of_nat take_bit_eq_mod)
  then show "a = b" by simp
qed

lemma xor_zero_iff: "xor (v :: 8 word) w = 0 \<longleftrightarrow> v = w"
proof
  assume "xor v w = 0"
  then have "xor (xor v w) w = w" by simp
  then show "v = w" by (simp add: xor.assoc)
qed simp

lemma xor_bytes_zero:
  "length a = length b \<Longrightarrow> xor_bytes a b acc = 0 \<longleftrightarrow> acc = 0 \<and> a = b"
proof (induction a b arbitrary: acc rule: list_induct2)
  case (Cons x xs y ys)
  have "or acc (xor (of_nat (cp x)) (of_nat (cp y))) = (0 :: 8 word) \<longleftrightarrow> acc = 0 \<and> x = y"
    using byte_inject [of x y] by (auto simp: or_eq_0_iff xor_zero_iff)
  with Cons show ?case by auto
qed simp

lemma equalBytes_iff: "equalBytes a b \<longleftrightarrow> a = b"
  by (auto simp: equalBytes_def xor_bytes_zero)

subsection \<open>Windows\<close>

text \<open>C35: a grant can only shorten. For a whole window (length and deadline not negative, the
  length not reaching back before the epoch), \<open>grantedWindow\<close> refuses exactly when a window is
  asked for and the operator grants none; otherwise the grant is zero, or it is no longer
  than both the request and the operator's maximum, is anchored at the claim's own start,
  and ends after \<open>now\<close> and no later than the deadline the claim asked for.\<close>

theorem grantedWindow_bounds:
  assumes "0 \<le> fc_window_s fc" and "fc_window_s fc \<le> fc_window_deadline fc" and "fc_window_deadline fc < 2 ^ 62"
    and "cf_max_grant cfg \<le> 43200"
  shows "(grantedWindow cfg fc now = Inl (WindowNotAllowed (fc_window_s fc)) \<longleftrightarrow> 0 < fc_window_s fc \<and> cf_max_grant cfg \<le> 0) \<and>
    (\<forall>s d. grantedWindow cfg fc now = Inr (s, d) \<longrightarrow> (s, d) = (0, zero_time) \<or>
       0 < s \<and> s = min (fc_window_s fc) (cf_max_grant cfg) \<and> now < d \<and>
       d = (fc_window_deadline fc - fc_window_s fc + s + unix_to_internal) * second \<and>
       d \<le> (fc_window_deadline fc + unix_to_internal) * second)"
proof (cases "fc_window_s fc \<le> 0 \<or> cf_max_grant cfg \<le> 0")
  case True
  then show ?thesis by (auto simp: grantedWindow_def)
next
  case False
  let ?g = "min (fc_window_s fc) (cf_max_grant cfg)"
  let ?start = "fc_window_deadline fc - fc_window_s fc"
  have st: "0 \<le> ?start" "?start < 2 ^ 62" using assms False by auto
  then have "wrap64 ?start = ?start" by (simp add: wrap64_exact in_int64_def)
  with st have u: "time_unix (wrap64 ?start) = (?start + unix_to_internal) * second"
    by (simp add: time_unix_exact)
  have g: "0 < ?g" "?g \<le> 43200" using False assms(4) by auto
  then have ds: "dur_seconds ?g = ?g * second" by (intro dur_seconds_exact) simp
  have "\<bar>(?start + unix_to_internal) * second + ?g * second\<bar> < (2 ^ 63 - 1) * second"
    using st g by simp
  then have "time_add ((?start + unix_to_internal) * second) (?g * second) = (?start + ?g + unix_to_internal) * second"
    by (subst time_add_exact) (simp_all add: algebra_simps)
  then have d: "time_add (time_unix (wrap64 ?start)) (dur_seconds ?g) = (?start + ?g + unix_to_internal) * second"
    by (simp only: u ds)
  from False g show ?thesis
    unfolding grantedWindow_def Let_def d by auto
qed

definition demo_context :: forward_context where
  "demo_context = \<lparr>fc_origin = replicate 32 (CHR ''a''), fc_workspace = replicate 32 (CHR ''b''), fc_bundle = ''x'',
     fc_generation = 2, fc_provider = replicate 32 (CHR ''c''), fc_attach = [], fc_operation = replicate 32 (CHR ''d''),
     fc_window_s = 900, fc_window_deadline = 1000\<rparr>"

theorem grantedWindow_bounds_witness:
  "\<exists>d. grantedWindow demo_config demo_context ((500 + unix_to_internal) * second) = Inr (600, d) \<and>
     (500 + unix_to_internal) * second < d \<and> d = (700 + unix_to_internal) * second"
proof -
  have v: "fc_window_s demo_context = 900" "fc_window_deadline demo_context = 1000" "cf_max_grant demo_config = 600"
    by (simp_all add: demo_context_def demo_config_def)
  have "0 \<le> fc_window_s demo_context" "fc_window_s demo_context \<le> fc_window_deadline demo_context"
    "fc_window_deadline demo_context < 2 ^ 62" "cf_max_grant demo_config \<le> 43200"
    by (simp_all add: v)
  note b = grantedWindow_bounds [OF this, of "(500 + unix_to_internal) * second"]
  obtain s d where g: "grantedWindow demo_config demo_context ((500 + unix_to_internal) * second) = Inr (s, d)"
    and n: "(s, d) \<noteq> (0, zero_time)"
    by (simp add: grantedWindow_def v Let_def dur_seconds_def time_unix_def time_add_def wrap64_def split: if_splits)
  with b v show ?thesis by auto
qed

text \<open>The touch-free window of an assertion. For an ordinary completion time and a
  non-negative reuse duration, \<open>touchFreeUntil\<close> lies between completion and completion plus
  the alias's reuse, ends by the granted deadline unless that had already passed at
  completion, and at reuse zero is the completion itself: a remote grant never opens a
  window the card's operator did not configure.\<close>

lemma touchFreeUntil_bounds:
  assumes "clock_ok t" and "0 \<le> reuse" and "dur_ok reuse"
  shows "t \<le> touchFreeUntil t reuse d \<and> touchFreeUntil t reuse d \<le> t + reuse \<and>
    (d \<noteq> zero_time \<longrightarrow> touchFreeUntil t reuse d \<le> max t d) \<and> (reuse = 0 \<longrightarrow> touchFreeUntil t reuse d = t) \<and>
    (d = zero_time \<longrightarrow> touchFreeUntil t reuse d = t + reuse)"
  using assms by (auto simp: touchFreeUntil_def Let_def time_add_clock)

subsection \<open>The mint ring\<close>

lemma warnRate_eq: "\<exists>w l. warnRate r c = c\<lparr>c_warned := w, c_log := l\<rparr>"
proof (cases "warnRate r c = c")
  case True
  then show ?thesis by (intro exI [of _ "c_warned c"] exI [of _ "c_log c"]) simp
next
  case False
  then have "warnRate r c = c\<lparr>c_warned := AList.update (mr_session r) (mr_at r) (c_warned c),
      c_log := c_log c @ [RateWarning (mr_session r) (mr_alias r) (recent_mints r (c_ring c))]\<rparr>"
    by (simp add: warnRate_def Let_def split: if_splits)
  then show ?thesis by blast
qed

lemma recordMint_eq: "\<exists>w l. recordMint r c = c\<lparr>c_ring := pruned_ring r (c_ring c), c_warned := w, c_log := l\<rparr>"
proof -
  let ?c1 = "c\<lparr>c_ring := pruned_ring r (c_ring c)\<rparr>"
  obtain w l where "warnRate r ?c1 = ?c1\<lparr>c_warned := w, c_log := l\<rparr>" using warnRate_eq by blast
  then have "recordMint r c = (if mr_session r = [] then ?c1\<lparr>c_warned := c_warned c, c_log := c_log c\<rparr>
      else ?c1\<lparr>c_warned := filter (\<lambda>(_, at). at > time_add (mr_at r) (- mintRingWindow)) w, c_log := l\<rparr>)"
    by (simp add: recordMint_def Let_def)
  then show ?thesis by (simp only: split: if_split) blast
qed

lemma recordMint_frame [simp]:
  "c_cfg (recordMint r c) = c_cfg c" "c_bufs (recordMint r c) = c_bufs c" "c_pin (recordMint r c) = c_pin c"
  "c_pin_serial (recordMint r c) = c_pin_serial c" "c_last (recordMint r c) = c_last c"
  "c_cache (recordMint r c) = c_cache c" "c_single (recordMint r c) = c_single c"
  "c_invalidated (recordMint r c) = c_invalidated c" "c_pending (recordMint r c) = c_pending c"
  "buffer (recordMint r c) = buffer c" "tokens (recordMint r c) = tokens c"
  "core_shape (recordMint r c) = core_shape c" "zeroized L (recordMint r c) = zeroized L c"
  "marks_ok (recordMint r c) = marks_ok c"
  using recordMint_eq [of r c] by (auto simp: tokens_def core_shape_def zeroized_def marks_ok_def)

lemma recordMint_ring: "c_ring (recordMint r c) = pruned_ring r (c_ring c)"
  using recordMint_eq [of r c] by auto

lemma pruned_ring_cap: "length (pruned_ring r ring) \<le> mintRingCap"
  by (simp add: pruned_ring_def Let_def del: filter_append)

lemma core_wf_recordMint: "core_wf c \<Longrightarrow> core_wf (recordMint r c)"
  by (simp add: core_wf_def core_bounds_def recordMint_ring pruned_ring_cap)

lemma count_mint_le:
  "mc_1m m \<le> mc_5m m \<Longrightarrow> mc_5m m \<le> mc_60m m \<Longrightarrow> mc_signatures m \<le> mc_60m m \<Longrightarrow>
     mc_1m (count_mint now e m) \<le> mc_5m (count_mint now e m) \<and>
     mc_5m (count_mint now e m) \<le> mc_60m (count_mint now e m) \<and>
     mc_signatures (count_mint now e m) \<le> mc_60m (count_mint now e m)"
  by (simp add: count_mint_def Let_def)

definition within :: "duration \<Rightarrow> gotime \<Rightarrow> mint_record \<Rightarrow> bool" where
  "within d now e \<longleftrightarrow> time_sub now (mr_at e) < d"

lemma map_of_bump:
  "k \<noteq> [] \<Longrightarrow> map_of (bump k m) x = (if x = k then Some (Suc (case map_of m k of Some n \<Rightarrow> n | None \<Rightarrow> 0)) else map_of m x)"
  by (simp add: bump_def update_conv')

definition tally :: "string \<Rightarrow> (string, nat) gomap \<Rightarrow> nat" where
  "tally k m = (case map_of m k of Some n \<Rightarrow> n | None \<Rightarrow> 0)"

lemma tally_bump: "tally x (bump k m) = (if k \<noteq> [] \<and> x = k then Suc (tally x m) else tally x m)"
  by (cases "k = []") (simp_all add: tally_def map_of_bump bump_def [of "[]"])

lemma fold_count_mint:
  "mc_60m (fold (count_mint now) es m) = mc_60m m + length (filter (within mintRingWindow now) es) \<and>
   mc_5m (fold (count_mint now) es m) = mc_5m m + length (filter (within (5 * minute) now) es) \<and>
   mc_1m (fold (count_mint now) es m) = mc_1m m + length (filter (within minute now) es) \<and>
   mc_signatures (fold (count_mint now) es m) =
     mc_signatures m + length (filter (\<lambda>e. within mintRingWindow now e \<and> \<not> mr_reused e) es) \<and>
   (x \<noteq> [] \<longrightarrow> tally x (mc_alias (fold (count_mint now) es m)) =
     tally x (mc_alias m) + length (filter (\<lambda>e. within mintRingWindow now e \<and> mr_alias e = x) es)) \<and>
   (x \<noteq> [] \<longrightarrow> tally x (mc_session (fold (count_mint now) es m)) =
     tally x (mc_session m) + length (filter (\<lambda>e. within mintRingWindow now e \<and> mr_session e = x) es))"
proof (induction es arbitrary: m)
  case (Cons e es)
  have "time_sub now (mr_at e) < minute \<Longrightarrow> time_sub now (mr_at e) < mintRingWindow"
    "time_sub now (mr_at e) < 5 * minute \<Longrightarrow> time_sub now (mr_at e) < mintRingWindow"
    by (simp_all add: mintRingWindow_def)
  then show ?case
    using Cons [of "count_mint now e m"]
    by (auto simp: count_mint_def Let_def within_def tally_bump not_le)
qed simp

text \<open>The reported mint rate is what was minted. When the counters are present they are
  the numbers of remembered mints younger than one, five and sixty minutes; the signatures
  are the hour's mints that were not served by reuse; and each alias and session is credited
  with exactly its own mints of the hour. They are absent exactly when no remembered mint is
  younger than an hour.\<close>

lemma mintCounters_exact:
  "case mintCounters c now of
     None \<Rightarrow> filter (within hour now) (c_ring c) = []
   | Some m \<Rightarrow>
       filter (within hour now) (c_ring c) \<noteq> [] \<and>
       mc_60m m = length (filter (within hour now) (c_ring c)) \<and>
       mc_5m m = length (filter (within (5 * minute) now) (c_ring c)) \<and>
       mc_1m m = length (filter (within minute now) (c_ring c)) \<and>
       mc_signatures m = length (filter (\<lambda>e. within hour now e \<and> \<not> mr_reused e) (c_ring c)) \<and>
       (\<forall>x. x = [] \<or> tally x (mc_alias m) = length (filter (\<lambda>e. within hour now e \<and> mr_alias e = x) (c_ring c))) \<and>
       (\<forall>x. x = [] \<or> tally x (mc_session m) = length (filter (\<lambda>e. within hour now e \<and> mr_session e = x) (c_ring c)))"
proof -
  let ?z = "\<lparr>mc_1m = 0, mc_5m = 0, mc_60m = 0, mc_signatures = 0, mc_alias = [], mc_session = []\<rparr>"
  have w: "mintRingWindow = hour" by (simp add: mintRingWindow_def)
  have t: "tally x [] = 0" for x by (simp add: tally_def)
  note f = fold_count_mint [where m = ?z and now = now and es = "c_ring c", simplified t w, simplified]
  let ?m = "fold (count_mint now) (c_ring c) ?z"
  have n: "mc_60m ?m = 0 \<longleftrightarrow> filter (within hour now) (c_ring c) = []" using f by simp
  show ?thesis
  proof (cases "c_ring c = [] \<or> mc_60m ?m = 0")
    case True
    then have "mintCounters c now = None" by (auto simp: mintCounters_def Let_def)
    with True n show ?thesis by auto
  next
    case False
    then have "mintCounters c now = Some ?m" by (simp add: mintCounters_def Let_def)
    with False n f show ?thesis by (auto simp: t)
  qed
qed

end
