(* ===== verification/Card_Select.thy ===== *)
theory Card_Select
  imports Wif_Jwks
begin

text \<open>
  \<open>pivsigner/card.go\<close>: which card a hardware operation gets. A card session is what its
  methods answer (\<open>card\<close>); opening and closing sessions is recorded as a list of events, so
  that a leaked or doubly closed session is visible. The second half is the shared probe: a
  state machine over the calls of \<open>openProbeContext\<close>, \<open>runProbe\<close> and \<open>releaseProbeWaiter\<close>,
  one step per critical section of \<open>probeMu\<close>.
\<close>

subsection \<open>Sessions\<close>

record card =
  cd_serial :: "u32 res"
  cd_cert :: "certificate res"
  cd_retries :: "int res"
  cd_verify :: "bytes \<Rightarrow> gerror option"
  cd_key :: "gerror option"
  cd_is_signer :: bool
  cd_sign :: "bytes \<Rightarrow> bytes res"

text \<open>A session is named by the position of its reader in the enumeration.\<close>

datatype card_event = Opened nat | Closed nat

record open_session =
  os_id :: nat
  os_card :: card
  os_serial :: u32

type_synonym failure = "string \<times> string \<times> gerror"

subsection \<open>\<open>openSelectedUntracked\<close>\<close>

definition multiple_error :: "u32 \<Rightarrow> u32 \<Rightarrow> gerror" where
  "multiple_error a b = ErrText (''multiple configured YubiKeys are present ('' @ serial_text a @ '' and ''
     @ serial_text b @ ''); leave exactly one inserted'')"

fun select_loop :: "u32 list \<Rightarrow> (string \<Rightarrow> card res) \<Rightarrow> string list \<Rightarrow> nat \<Rightarrow> open_session option \<Rightarrow> failure list \<Rightarrow>
    (gerror + open_session option \<times> failure list) \<times> card_event list" where
  "select_loop wanted opener [] n selected failures = (Inr (selected, failures), [])"
| "select_loop wanted opener (reader # readers) n selected failures =
     (case opener reader of
        Inl e \<Rightarrow> select_loop wanted opener readers (Suc n) selected (failures @ [(reader, ''open'', e)])
      | Inr yk \<Rightarrow>
          (case cd_serial yk of
             Inl e \<Rightarrow>
               (let (r, ev) = select_loop wanted opener readers (Suc n) selected (failures @ [(reader, ''read serial for'', e)])
                in (r, Opened n # Closed n # ev))
           | Inr serial \<Rightarrow>
               if serial \<notin> set wanted
               then (let (r, ev) = select_loop wanted opener readers (Suc n) selected failures
                     in (r, Opened n # Closed n # ev))
               else (case selected of
                   Some s \<Rightarrow> (Inl (multiple_error (os_serial s) serial), [Opened n, Closed n, Closed (os_id s)])
                 | None \<Rightarrow>
                     (let (r, ev) = select_loop wanted opener readers (Suc n)
                        (Some \<lparr>os_id = n, os_card = yk, os_serial = serial\<rparr>) failures
                      in (r, Opened n # ev)))))"

definition openSelectedUntracked :: "u32 list \<Rightarrow> string list res \<Rightarrow> (string \<Rightarrow> card res) \<Rightarrow> open_session res \<times> card_event list" where
  "openSelectedUntracked serials listed opener =
     (case listed of
        Inl e \<Rightarrow> (Inl (ErrWrap ''enumerate smart cards: '' e), [])
      | Inr readers \<Rightarrow>
          (case select_loop serials opener readers 0 None [] of
             (Inl e, ev) \<Rightarrow> (Inl e, ev)
           | (Inr (None, failures), ev) \<Rightarrow> (Inl (Selection readers serials failures), ev)
           | (Inr (Some s, _), ev) \<Rightarrow> (Inr s, ev)))"

subsection \<open>What selection guarantees\<close>

text \<open>The sessions left open after a list of events.\<close>

fun left_open :: "nat set \<Rightarrow> card_event list \<Rightarrow> nat set" where
  "left_open s [] = s"
| "left_open s (Opened n # ev) = left_open (insert n s) ev"
| "left_open s (Closed n # ev) = left_open (s - {n}) ev"

text \<open>Every close is of a session that is open, and no position is opened twice.\<close>

fun disciplined :: "nat set \<Rightarrow> card_event list \<Rightarrow> bool" where
  "disciplined s [] = True"
| "disciplined s (Opened n # ev) = (n \<notin> s \<and> disciplined (insert n s) ev)"
| "disciplined s (Closed n # ev) = (n \<in> s \<and> disciplined (s - {n}) ev)"

definition held :: "open_session option \<Rightarrow> nat set" where
  "held selected = (case selected of Some s \<Rightarrow> {os_id s} | None \<Rightarrow> {})"

lemma held_simps [simp]: "held None = {}" "held (Some s) = {os_id s}"
  by (simp_all add: held_def)

lemma select_loop_events:
  "select_loop wanted opener readers n selected failures = (r, ev) \<Longrightarrow> (\<forall>i\<in>held selected. i < n) \<Longrightarrow>
     disciplined (held selected) ev \<and>
     left_open (held selected) ev = (case r of Inr (s, _) \<Rightarrow> held s | Inl _ \<Rightarrow> {})"
proof (induction wanted opener readers n selected failures arbitrary: r ev rule: select_loop.induct)
  case (2 wanted opener reader readers n selected failures)
  have lt: "\<forall>i\<in>held selected. i < Suc n" using "2.prems"(2) by auto
  have nn: "n \<notin> held selected" using "2.prems"(2) by auto
  then have d: "insert n (held selected) - {n} = held selected" by auto
  show ?case
  proof (cases "opener reader")
    case (Inl e)
    with "2.IH"(1) [OF Inl _ lt] "2.prems" show ?thesis by simp
  next
    case (Inr yk)
    show ?thesis
    proof (cases "cd_serial yk")
      case (Inl e)
      obtain r' ev' where s: "select_loop wanted opener readers (Suc n) selected (failures @ [(reader, ''read serial for'', e)]) = (r', ev')"
        by (metis prod.exhaust)
      have e: "r = r'" "ev = Opened n # Closed n # ev'" using "2.prems"(1) by (simp_all add: s Inl Inr)
      from "2.IH"(2) [OF Inr Inl s lt] nn show ?thesis by (simp add: e d)
    next
      case (Inr serial)
      show ?thesis
      proof (cases "serial \<in> set wanted")
        case False
        obtain r' ev' where s: "select_loop wanted opener readers (Suc n) selected failures = (r', ev')"
          by (metis prod.exhaust)
        have e: "r = r'" "ev = Opened n # Closed n # ev'"
          using "2.prems"(1) False by (simp_all add: s Inr \<open>opener reader = Inr yk\<close>)
        from "2.IH"(3) [OF \<open>opener reader = Inr yk\<close> Inr False s lt] nn show ?thesis by (simp add: e d)
      next
        case True
        show ?thesis
        proof (cases selected)
          case None
          let ?s = "\<lparr>os_id = n, os_card = yk, os_serial = serial\<rparr>"
          obtain r' ev' where s: "select_loop wanted opener readers (Suc n) (Some ?s) failures = (r', ev')"
            by (metis prod.exhaust)
          have "\<not> serial \<notin> set wanted" using True by simp
          have e: "r = r'" "ev = Opened n # ev'"
            using "2.prems"(1) True by (simp_all add: s Inr None \<open>opener reader = Inr yk\<close>)
          from "2.IH"(4) [OF \<open>opener reader = Inr yk\<close> Inr \<open>\<not> serial \<notin> set wanted\<close> None s] show ?thesis
            by (simp add: e None)
        next
          case (Some t)
            have e: "r = Inl (multiple_error (os_serial t) serial)" "ev = [Opened n, Closed n, Closed (os_id t)]"
            using "2.prems"(1) True by (simp_all add: Inr Some \<open>opener reader = Inr yk\<close>)
          have "os_id t \<noteq> n" using nn by (simp add: Some)
          then show ?thesis by (auto simp: e Some)
        qed
      qed
    qed
  qed
qed auto

text \<open>A reader whose card is reachable and configured.\<close>

definition configured_at :: "u32 list \<Rightarrow> (string \<Rightarrow> card res) \<Rightarrow> string \<Rightarrow> bool" where
  "configured_at wanted opener reader =
     (case opener reader of
        Inl _ \<Rightarrow> False
      | Inr yk \<Rightarrow> (case cd_serial yk of Inl _ \<Rightarrow> False | Inr serial \<Rightarrow> serial \<in> set wanted))"

lemma configured_at_simps:
  "opener r = Inl e \<Longrightarrow> \<not> configured_at wanted opener r"
  "opener r = Inr yk \<Longrightarrow> cd_serial yk = Inl e \<Longrightarrow> \<not> configured_at wanted opener r"
  "opener r = Inr yk \<Longrightarrow> cd_serial yk = Inr n \<Longrightarrow> configured_at wanted opener r \<longleftrightarrow> n \<in> set wanted"
  by (simp_all add: configured_at_def)

lemma select_loop_none_left:
  "fst (select_loop wanted opener readers n (Some t) failures) = Inr (s, fs) \<Longrightarrow>
     s = Some t \<and> (\<forall>r\<in>set readers. \<not> configured_at wanted opener r)"
proof (induction readers arbitrary: n failures)
  case (Cons r readers)
  then show ?case
    by (cases "opener r"; cases "cd_serial (projr (opener r))")
       (simp_all add: configured_at_simps case_prod_unfold Let_def split: if_splits)
qed simp

text \<open>Position \<open>k\<close> holds the only configured card among the readers.\<close>

definition only_configured :: "u32 list \<Rightarrow> (string \<Rightarrow> card res) \<Rightarrow> string list \<Rightarrow> nat \<Rightarrow> bool" where
  "only_configured wanted opener readers k \<longleftrightarrow>
     k < length readers \<and> (\<forall>j<length readers. configured_at wanted opener (readers ! j) \<longleftrightarrow> j = k)"

lemma only_configured_skip:
  "only_configured wanted opener readers k \<Longrightarrow> \<not> configured_at wanted opener r \<Longrightarrow>
     only_configured wanted opener (r # readers) (Suc k)"
  by (auto simp: only_configured_def less_Suc_eq_0_disj)

lemma only_configured_first:
  "configured_at wanted opener r \<Longrightarrow> \<forall>r\<in>set readers. \<not> configured_at wanted opener r \<Longrightarrow>
     only_configured wanted opener (r # readers) 0"
  by (auto simp: only_configured_def less_Suc_eq_0_disj)

lemma select_loop_some:
  "fst (select_loop wanted opener readers n None failures) = Inr (Some s, fs) \<Longrightarrow>
     \<exists>k. os_id s = n + k \<and> only_configured wanted opener readers k \<and> opener (readers ! k) = Inr (os_card s) \<and>
       cd_serial (os_card s) = Inr (os_serial s) \<and> os_serial s \<in> set wanted"
proof (induction readers arbitrary: n failures)
  case (Cons r readers)
  have step: "\<exists>k. os_id s = n + k \<and> only_configured wanted opener (r # readers) k \<and>
      opener ((r # readers) ! k) = Inr (os_card s) \<and> cd_serial (os_card s) = Inr (os_serial s) \<and> os_serial s \<in> set wanted"
    if f: "fst (select_loop wanted opener readers (Suc n) None fs') = Inr (Some s, fs)"
      and c: "\<not> configured_at wanted opener r" for fs'
  proof -
    from Cons.IH [OF f] obtain k where k: "os_id s = Suc n + k" "only_configured wanted opener readers k"
      "opener (readers ! k) = Inr (os_card s)" "cd_serial (os_card s) = Inr (os_serial s)" "os_serial s \<in> set wanted"
      by blast
    from only_configured_skip [OF k(2) c] k show ?thesis by (intro exI [of _ "Suc k"]) simp
  qed
  show ?case
  proof (cases "opener r")
    case (Inl e)
    then have "\<not> configured_at wanted opener r" by (simp add: configured_at_def)
    with Cons.prems Inl show ?thesis by (intro step) simp_all
  next
    case (Inr yk)
    show ?thesis
    proof (cases "cd_serial yk")
      case (Inl e)
      with Inr have "\<not> configured_at wanted opener r" by (simp add: configured_at_def)
      with Cons.prems Inl Inr show ?thesis by (intro step) (simp_all add: case_prod_unfold Let_def)
    next
      case (Inr serial)
      show ?thesis
      proof (cases "serial \<in> set wanted")
        case False
        with Inr \<open>opener r = Inr yk\<close> have "\<not> configured_at wanted opener r" by (simp add: configured_at_def)
        with Cons.prems Inr \<open>opener r = Inr yk\<close> False show ?thesis
          by (intro step) (simp_all add: case_prod_unfold Let_def)
      next
        case True
        with Inr \<open>opener r = Inr yk\<close> have c: "configured_at wanted opener r" by (simp add: configured_at_def)
        have f: "fst (select_loop wanted opener readers (Suc n) (Some \<lparr>os_id = n, os_card = yk, os_serial = serial\<rparr>) failures)
            = Inr (Some s, fs)"
          using Cons.prems Inr \<open>opener r = Inr yk\<close> True by (simp add: case_prod_unfold Let_def)
        from select_loop_none_left [OF f] have s: "s = \<lparr>os_id = n, os_card = yk, os_serial = serial\<rparr>"
          and n: "\<forall>r\<in>set readers. \<not> configured_at wanted opener r" by simp_all
        from only_configured_first [OF c n] Inr \<open>opener r = Inr yk\<close> True show ?thesis
          by (intro exI [of _ 0]) (simp add: s)
      qed
    qed
  qed
qed simp

text \<open>C30: a hardware operation gets the one configured card, and no session leaks. Selection
  closes only sessions it has open and opens none twice; when it succeeds exactly the
  returned session is left open and its reader is the only one whose card is reachable and
  configured; when it fails, on any path, no session is left open.\<close>

theorem openSelected_owned:
  "disciplined {} (snd (openSelectedUntracked serials listed opener)) \<and>
   (case fst (openSelectedUntracked serials listed opener) of
      Inl _ \<Rightarrow> left_open {} (snd (openSelectedUntracked serials listed opener)) = {}
    | Inr s \<Rightarrow> left_open {} (snd (openSelectedUntracked serials listed opener)) = {os_id s} \<and>
        (\<exists>readers. listed = Inr readers \<and> only_configured serials opener readers (os_id s) \<and>
           opener (readers ! os_id s) = Inr (os_card s) \<and> cd_serial (os_card s) = Inr (os_serial s) \<and>
           os_serial s \<in> set serials))"
proof (cases listed)
  case (Inr readers)
  obtain r ev where l: "select_loop serials opener readers 0 None [] = (r, ev)" by (metis prod.exhaust)
  from select_loop_events [OF l] have d: "disciplined {} ev"
    and lo: "left_open {} ev = (case r of Inr (s, _) \<Rightarrow> held s | Inl _ \<Rightarrow> {})" by simp_all
  show ?thesis
  proof (cases r)
    case (Inl e)
    with d lo show ?thesis by (simp add: openSelectedUntracked_def \<open>listed = Inr readers\<close> l)
  next
    case (Inr p)
    obtain sel fs where p: "p = (sel, fs)" by (cases p)
    show ?thesis
    proof (cases sel)
      case None
      with d lo Inr p show ?thesis by (simp add: openSelectedUntracked_def \<open>listed = Inr readers\<close> l)
    next
      case (Some s)
      have "fst (select_loop serials opener readers 0 None []) = Inr (Some s, fs)" by (simp add: l Inr p Some)
      from select_loop_some [OF this] d lo Inr p Some show ?thesis
        by (auto simp: openSelectedUntracked_def \<open>listed = Inr readers\<close> l)
    qed
  qed
qed (simp add: openSelectedUntracked_def)

end
