(* ===== verification/Card_Recovery.thy ===== *)
theory Card_Recovery
  imports Card_Select Go_Time
begin

text \<open>
  \<open>pivsigner/recovery.go\<close>: what a hardware operation does about a sharing violation. It polls
  for the card inside a fixed budget and, once the grace period is over, may ask scdaemon to
  let go, at most once per episode and at most twice in ten seconds for the throttled
  origins. One iteration of the polling loop is \<open>recover_round\<close>; the clock readings, the
  probe and the two GnuPG commands of that iteration are its environment \<open>round\<close>. The loop
  runs over the list of the rounds the environment offers, and \<open>recovery_rounds_bound\<close> says
  how many are enough.
\<close>

subsection \<open>Constants and the budget\<close>

definition defaultRecoveryGrace :: duration where [go_eval]: "defaultRecoveryGrace = 500 * millisecond"
definition defaultRecoveryLimit :: duration where [go_eval]: "defaultRecoveryLimit = 2 * second"
definition probeOpenLimit :: duration where [go_eval]: "probeOpenLimit = 250 * millisecond"
definition handoffWindow :: duration where [go_eval]: "handoffWindow = 10 * second"
definition handoffCapacity :: nat where [go_eval]: "handoffCapacity = 2"

datatype origin = OriginUnclassified | OriginForwarded | OriginAgentSession | OriginLocalWIF | OriginUnlock

record recovery_budget =
  rb_started :: gotime
  rb_limit :: duration
  rb_blocked_start :: nat
  rb_diagnosed :: bool

definition newRecoveryBudget :: "duration \<Rightarrow> nat \<Rightarrow> recovery_budget" where
  "newRecoveryBudget recoveryLimit blocked =
     \<lparr>rb_started = zero_time, rb_limit = (if recoveryLimit \<le> 0 then defaultRecoveryLimit else recoveryLimit),
      rb_blocked_start = blocked, rb_diagnosed = False\<rparr>"

definition budget_start :: "gotime \<Rightarrow> recovery_budget \<Rightarrow> recovery_budget" where
  "budget_start now b = (if rb_started b = zero_time then b\<lparr>rb_started := now\<rparr> else b)"

definition budget_remaining :: "gotime \<Rightarrow> recovery_budget \<Rightarrow> duration" where
  "budget_remaining now b = max 0 (wrap64 (rb_limit b - time_sub now (rb_started (budget_start now b))))"

definition minDuration :: "duration \<Rightarrow> duration \<Rightarrow> duration" where
  "minDuration a b = (if a < b then a else b)"

subsection \<open>The hand-off throttle\<close>

definition throttled :: "origin \<Rightarrow> bool" where
  "throttled origin \<longleftrightarrow> \<not> (origin = OriginLocalWIF \<or> origin = OriginUnlock)"

definition reserveHandoff :: "origin \<Rightarrow> gotime \<Rightarrow> gotime list \<Rightarrow> (bool \<times> duration) \<times> gotime list" where
  "reserveHandoff origin now handoffs =
     (if \<not> throttled origin then ((True, 0), handoffs)
      else
        let kept = filter (\<lambda>at. at > time_add now (- handoffWindow)) handoffs in
        if length kept \<ge> handoffCapacity
        then ((False, time_sub (time_add (hd kept) handoffWindow) now), kept)
        else ((True, 0), kept @ [now]))"

subsection \<open>One round\<close>

record inspection =
  in_state :: scd_state
  in_evidence :: string
  in_error :: "gerror option"

record round =
  ro_now :: gotime
  ro_ctx_done :: bool
  ro_sleep :: "gerror option"
  ro_probe_now :: gotime
  ro_probe :: "open_session res"
  ro_started :: nat
  ro_self :: bool
  ro_now2 :: gotime
  ro_reinspect :: inspection
  ro_inspect :: inspection
  ro_limit_now :: gotime
  ro_reserve_now :: gotime
  ro_cooldown_now :: gotime
  ro_handoff :: "gerror option"

record recovery =
  rv_budget :: recovery_budget
  rv_delay :: nat
  rv_attempts :: int
  rv_probe_waits :: int
  rv_last :: gerror
  rv_scd :: inspection
  rv_inspected :: bool
  rv_attempted :: bool
  rv_handoff_error :: "gerror option"
  rv_sticky :: bool
  rv_ever :: bool
  rv_last_self :: bool
  rv_cooldown :: gotime
  rv_handoffs :: "gotime list"
  rv_kills :: "gotime list"

datatype outcome = Recovered open_session | Stopped | Again

definition delays :: "duration list" where
  "delays = [50 * millisecond, 100 * millisecond, 200 * millisecond, 400 * millisecond, 800 * millisecond]"

definition round_delay :: "gotime \<Rightarrow> round \<Rightarrow> recovery \<Rightarrow> duration" where
  "round_delay graceDeadline ro s =
     (let delay = delays ! rv_delay s;
          delay1 = (if \<not> rv_inspected s \<and> ro_now ro < graceDeadline \<and> time_add (ro_now ro) delay > graceDeadline
                    then time_sub graceDeadline (ro_now ro) else delay)
      in minDuration delay1 (budget_remaining (ro_now ro) (rv_budget s)))"

text \<open>After a failed probe: the own-session flags and the re-inspection.\<close>

definition note_self :: "round \<Rightarrow> recovery \<Rightarrow> recovery" where
  "note_self ro s =
     (let s1 = (if ro_self ro then s\<lparr>rv_sticky := True, rv_ever := True\<rparr> else s);
          s2 = (if rv_sticky s1 \<and> rv_last_self s1 \<and> \<not> ro_self ro \<and> rv_inspected s1 \<and>
                   minDuration (500 * millisecond) (budget_remaining (ro_now2 ro) (rv_budget s1)) > 0
                then s1\<lparr>rv_scd := ro_reinspect ro\<rparr> else s1)
      in s2\<lparr>rv_last_self := ro_self ro\<rparr>)"

text \<open>Past the grace period: inspect scdaemon once, and perhaps ask it to let go. \<open>rv_kills\<close>
  records the instants at which \<open>gpgconf --kill scdaemon\<close> was run.\<close>

definition try_handoff :: "origin \<Rightarrow> round \<Rightarrow> recovery \<Rightarrow> recovery" where
  "try_handoff origin ro s =
     (if rv_sticky s \<or> in_state (rv_scd s) = ScdStopped then s
      else if minDuration (500 * millisecond) (budget_remaining (ro_limit_now ro) (rv_budget s)) \<le> 0 then s
      else case reserveHandoff origin (ro_reserve_now ro) (rv_handoffs s) of
          ((False, retryAfter), hs) \<Rightarrow>
            s\<lparr>rv_cooldown := time_add (ro_cooldown_now ro) retryAfter, rv_handoffs := hs\<rparr>
        | ((True, _), hs) \<Rightarrow>
            s\<lparr>rv_delay := 0, rv_attempted := True, rv_handoff_error := ro_handoff ro, rv_handoffs := hs,
              rv_kills := rv_kills s @ [ro_reserve_now ro]\<rparr>)"

definition after_grace :: "origin \<Rightarrow> gotime \<Rightarrow> round \<Rightarrow> recovery \<Rightarrow> recovery" where
  "after_grace origin graceDeadline ro s =
     (if rv_inspected s \<or> ro_now2 ro < graceDeadline then s
      else
        let s1 = s\<lparr>rv_inspected := True\<rparr> in
        if minDuration (500 * millisecond) (budget_remaining (ro_now2 ro) (rv_budget s1)) \<le> 0 then s1
        else try_handoff origin ro (s1\<lparr>rv_scd := ro_inspect ro\<rparr>))"

definition recover_round :: "origin \<Rightarrow> gotime \<Rightarrow> round \<Rightarrow> recovery \<Rightarrow> outcome \<times> recovery" where
  "recover_round origin graceDeadline ro s =
     (if budget_remaining (ro_now ro) (rv_budget s) \<le> 0 \<or> ro_ctx_done ro then (Stopped, s)
      else
        let delay = round_delay graceDeadline ro s;
            s1 = s\<lparr>rv_delay := (if rv_delay s < length delays - 1 then Suc (rv_delay s) else rv_delay s)\<rparr>
        in case (if delay \<le> 0 then None else ro_sleep ro) of
            Some e \<Rightarrow> (Stopped, s1\<lparr>rv_last := e\<rparr>)
          | None \<Rightarrow>
              if minDuration (budget_remaining (ro_probe_now ro) (rv_budget s)) probeOpenLimit \<le> 0 then (Stopped, s1)
              else
                let s2 = s1\<lparr>rv_attempts := rv_attempts s1 + int (ro_started ro), rv_probe_waits := rv_probe_waits s1 + 1\<rparr>
                in case ro_probe ro of
                    Inr c \<Rightarrow> (Recovered c, s2)
                  | Inl e \<Rightarrow> (Again, after_grace origin graceDeadline ro (note_self ro (s2\<lparr>rv_last := e\<rparr>))))"

text \<open>\<open>None\<close>: the loop has not ended within the rounds given.\<close>

fun recover_loop :: "origin \<Rightarrow> gotime \<Rightarrow> round list \<Rightarrow> recovery \<Rightarrow> (open_session option \<times> recovery) option" where
  "recover_loop origin grace [] s = None"
| "recover_loop origin grace (ro # rs) s =
     (case recover_round origin grace ro s of
        (Recovered c, s') \<Rightarrow> Some (Some c, s')
      | (Stopped, s') \<Rightarrow> Some (None, s')
      | (Again, s') \<Rightarrow> recover_loop origin grace rs s')"

subsection \<open>The episode\<close>

text \<open>What \<open>contentionError\<close> reads when the loop is over.\<close>

record episode_end =
  ee_cooldown_now :: gotime
  ee_now :: gotime
  ee_self :: bool
  ee_blocked :: nat
  ee_workers :: nat

definition contentionError :: "gerror \<Rightarrow> recovery \<Rightarrow> bool \<Rightarrow> duration \<Rightarrow> episode_end \<Rightarrow> gerror" where
  "contentionError initial s everSelf cooldown ee =
     Contention
       \<lparr>ci_elapsed = time_sub (ee_now ee) (rb_started (rv_budget s)), ci_attempts = rv_attempts s,
        ci_probe_waits = rv_probe_waits s, ci_scd = in_state (rv_scd s), ci_evidence = in_evidence (rv_scd s),
        ci_handoff_attempted = rv_attempted s, ci_ever_self = everSelf, ci_last_self = ee_self ee,
        ci_ever_blocked = (ee_blocked ee > rb_blocked_start (rv_budget s) \<or> ee_workers ee > 0), ci_cooldown = cooldown\<rparr>
       initial (rv_last s) (in_error (rv_scd s)) (rv_handoff_error s)"

definition recovery_start :: "gerror \<Rightarrow> recovery_budget \<Rightarrow> bool \<Rightarrow> gotime list \<Rightarrow> recovery" where
  "recovery_start initial b self handoffs =
     \<lparr>rv_budget = b, rv_delay = 0, rv_attempts = 1, rv_probe_waits = 0, rv_last = initial,
      rv_scd = \<lparr>in_state = ScdUnknown, in_evidence = [], in_error = None\<rparr>, rv_inspected = False, rv_attempted = False,
      rv_handoff_error = None, rv_sticky = self, rv_ever = self, rv_last_self = self, rv_cooldown = zero_time,
      rv_handoffs = handoffs, rv_kills = []\<rparr>"

definition recoverSharing :: "origin \<Rightarrow> duration \<Rightarrow> gotime \<Rightarrow> gerror \<Rightarrow> recovery_budget \<Rightarrow> bool \<Rightarrow> gotime list \<Rightarrow>
    round list \<Rightarrow> episode_end \<Rightarrow> (open_session res \<times> recovery) option" where
  "recoverSharing origin recoveryGrace started initial budget self handoffs rounds ee =
     (let b = budget_start started budget;
          s = recovery_start initial b self handoffs
      in if budget_remaining started b \<le> 0 then Some (Inl (contentionError initial s False 0 ee), s)
         else
           let grace = time_add started (if recoveryGrace \<le> 0 then defaultRecoveryGrace else recoveryGrace) in
           case recover_loop origin grace rounds s of
             None \<Rightarrow> None
           | Some (Some c, s') \<Rightarrow> Some (Inr c, s')
           | Some (None, s') \<Rightarrow>
               Some (Inl (contentionError initial s' (rv_ever s') (max 0 (time_sub (rv_cooldown s') (ee_cooldown_now ee))) ee), s'))"

subsection \<open>The throttle over a history of requests\<close>

text \<open>The instants granted to throttled origins, for requests served in order.\<close>

fun granted_handoffs :: "gotime list \<Rightarrow> (origin \<times> gotime) list \<Rightarrow> gotime list" where
  "granted_handoffs hs [] = []"
| "granted_handoffs hs ((origin, now) # rs) =
     (case reserveHandoff origin now hs of
        ((allowed, _), hs') \<Rightarrow> (if allowed \<and> throttled origin then [now] else []) @ granted_handoffs hs' rs)"

definition spaced :: "gotime list \<Rightarrow> bool" where
  "spaced g \<longleftrightarrow> (\<forall>i. i + 2 < length g \<longrightarrow> g ! i + handoffWindow \<le> g ! (i + 2))"

lemma spaced_snoc:
  assumes "spaced g" and "sorted g" and "length (filter (\<lambda>x. x > t - handoffWindow) g) < 2"
  shows "spaced (g @ [t])"
proof -
  have "g ! i + handoffWindow \<le> t" if "i + 2 = length g" for i
  proof (rule ccontr)
    assume "\<not> g ! i + handoffWindow \<le> t"
    then have i: "g ! i > t - handoffWindow" by simp
    have "g ! i \<le> g ! Suc i" using assms(2) that by (intro sorted_nth_mono) simp_all
    moreover have "drop i g = [g ! i, g ! Suc i]" using that by (simp add: Cons_nth_drop_Suc [symmetric])
    ultimately have "\<forall>x\<in>set (drop i g). x > t - handoffWindow" using i by auto
    then have "filter (\<lambda>x. x > t - handoffWindow) (drop i g) = drop i g" by simp
    moreover have "length (filter (\<lambda>x. x > t - handoffWindow) (drop i g)) \<le> length (filter (\<lambda>x. x > t - handoffWindow) g)"
      by (metis append_take_drop_id filter_append length_append le_add2)
    moreover have "length (drop i g) = 2" using that by simp
    ultimately show False using assms(3) by simp
  qed
  with assms(1) show ?thesis
    by (auto simp: spaced_def nth_append less_Suc_eq)
qed

lemma filter_filter_later: "c \<le> d \<Longrightarrow> filter (\<lambda>x. x > d) (filter (\<lambda>x. x > c) g) = filter (\<lambda>x. x > (d :: int)) g"
  by (simp add: conj_commute cong: filter_cong) (metis order.strict_trans1)

lemma cutoff_exact: "clock_ok t \<Longrightarrow> time_add t (- handoffWindow) = t - handoffWindow"
  by (simp add: time_add_clock dur_ok_def handoffWindow_def)

lemma granted_spaced:
  assumes "sorted (map snd rs)" and "\<forall>(origin, t)\<in>set rs. clock_ok t" and "hs = filter (\<lambda>x. x > c) g"
    and "sorted g" and "spaced g" and "\<forall>(origin, t)\<in>set rs. c \<le> t - handoffWindow \<and> (\<forall>x\<in>set g. x \<le> t)"
  shows "spaced (g @ granted_handoffs hs rs)"
  using assms
proof (induction rs arbitrary: hs c g)
  case (Cons r rs)
  obtain o' now where r: "r = (o', now)" by (cases r)
  have now: "clock_ok now" "c \<le> now - handoffWindow" "\<forall>x\<in>set g. x \<le> now" using Cons.prems(2,6) by (auto simp: r)
  have later: "\<forall>(origin, t)\<in>set rs. now \<le> t" using Cons.prems(1) by (auto simp: r)
  show ?case
  proof (cases "throttled o'")
    case False
    have "spaced (g @ granted_handoffs hs rs)"
      by (rule Cons.IH [OF _ _ Cons.prems(3-5)]) (use Cons.prems(1,2,6) in auto)
    then show ?thesis using False by (simp add: r reserveHandoff_def)
  next
    case True
    let ?c = "now - handoffWindow"
    let ?kept = "filter (\<lambda>x. x > ?c) g"
    have kept: "filter (\<lambda>at. at > time_add now (- handoffWindow)) hs = ?kept"
      unfolding cutoff_exact [OF now(1)] Cons.prems(3) by (rule filter_filter_later [OF now(2)])
    have srt: "sorted (map snd rs)" "\<forall>(origin, t)\<in>set rs. clock_ok t" using Cons.prems(1,2) by (auto simp: r)
    show ?thesis
    proof (cases "handoffCapacity \<le> length ?kept")
      case True
      have "spaced (g @ granted_handoffs ?kept rs)"
        by (rule Cons.IH [OF srt refl Cons.prems(4,5)]) (use later now in fastforce)
      then show ?thesis using True \<open>throttled o'\<close> by (simp add: r reserveHandoff_def kept Let_def)
    next
      case False
      then have sp: "spaced (g @ [now])"
        using Cons.prems(4,5) by (intro spaced_snoc) (simp_all add: handoffCapacity_def)
      have sr: "sorted (g @ [now])" using Cons.prems(4) now(3) by (simp add: sorted_append)
      have f: "?kept @ [now] = filter (\<lambda>x. x > ?c) (g @ [now])" by (simp add: handoffWindow_def)
      have "spaced ((g @ [now]) @ granted_handoffs (?kept @ [now]) rs)"
        by (rule Cons.IH [OF srt f sr sp]) (use later now in fastforce)
      then show ?thesis using False \<open>throttled o'\<close> by (simp add: r reserveHandoff_def kept Let_def)
    qed
  qed
qed simp

text \<open>C22: automated hand-offs are rate limited. Whatever sequence of recoveries asks, in the
  order of their clock readings, a hand-off granted to a throttled origin (anything but a
  local WIF request or an unlock) comes at least ten seconds after the one granted two
  before it: never more than two in any ten seconds.\<close>

theorem handoffs_rate_limited:
  assumes "sorted (map snd rs)" and "\<forall>(origin, t)\<in>set rs. clock_ok t" and "i + 2 < length (granted_handoffs [] rs)"
  shows "granted_handoffs [] rs ! i + 10 * second \<le> granted_handoffs [] rs ! (i + 2)"
proof -
  obtain c where c: "\<forall>(origin, t)\<in>set rs. c \<le> t - handoffWindow"
    using assms(2) by (intro that [of "- handoffWindow"]) (auto simp: clock_ok_def)
  have "spaced ([] @ granted_handoffs [] rs)"
    by (rule granted_spaced [OF assms(1,2), where c = c]) (use c in \<open>auto simp: spaced_def\<close>)
  with assms(3) show ?thesis by (simp add: spaced_def handoffWindow_def)
qed

theorem handoffs_rate_limited_witness:
  "granted_handoffs [] [(OriginForwarded, 0), (OriginForwarded, 1), (OriginForwarded, 2), (OriginForwarded, 11 * second)] ! 0
     + 10 * second \<le> granted_handoffs []
       [(OriginForwarded, 0), (OriginForwarded, 1), (OriginForwarded, 2), (OriginForwarded, 11 * second)] ! 2"
proof -
  let ?rs = "[(OriginForwarded, 0), (OriginForwarded, 1), (OriginForwarded, 2), (OriginForwarded, 11 * second)]"
  have "granted_handoffs [] ?rs = [0, 1, 11 * second]"
    by (simp add: reserveHandoff_def throttled_def cutoff_exact clock_ok_def handoffWindow_def handoffCapacity_def Let_def
        time_add_clock dur_ok_def)
  then have l: "0 + 2 < length (granted_handoffs [] ?rs)" by simp
  have "sorted (map snd ?rs)" "\<forall>(origin, t)\<in>set ?rs. clock_ok t" by (simp_all add: clock_ok_def)
  from handoffs_rate_limited [OF this l] show ?thesis unfolding add_0 .
qed

subsection \<open>One episode\<close>

lemma note_self_frame [simp]:
  "rv_kills (note_self ro s) = rv_kills s" "rv_inspected (note_self ro s) = rv_inspected s"
  "rv_budget (note_self ro s) = rv_budget s" "rv_delay (note_self ro s) = rv_delay s"
  "rv_attempted (note_self ro s) = rv_attempted s"
  by (simp_all add: note_self_def Let_def)

lemma note_self_sticky: "rv_sticky (note_self ro s) \<longleftrightarrow> rv_sticky s \<or> ro_self ro"
  by (simp add: note_self_def Let_def)

lemma try_handoff_kills:
  "rv_kills (try_handoff origin ro s) =
     (if rv_kills (try_handoff origin ro s) = rv_kills s then rv_kills s else rv_kills s @ [ro_reserve_now ro])"
  "rv_inspected (try_handoff origin ro s) = rv_inspected s" "rv_sticky (try_handoff origin ro s) = rv_sticky s"
  "rv_budget (try_handoff origin ro s) = rv_budget s"
  "rv_kills (try_handoff origin ro s) \<noteq> rv_kills s \<Longrightarrow> \<not> rv_sticky s \<and> in_state (rv_scd s) \<noteq> ScdStopped"
  by (auto simp: try_handoff_def split: prod.split bool.split)

text \<open>A kill is justified by the round it happened in.\<close>

definition kill_ok :: "gotime \<Rightarrow> round \<Rightarrow> gotime \<Rightarrow> bool" where
  "kill_ok grace ro t \<longleftrightarrow> t = ro_reserve_now ro \<and> grace \<le> ro_now2 ro \<and> \<not> ro_self ro \<and> in_state (ro_inspect ro) \<noteq> ScdStopped"

definition kills_ok :: "gotime \<Rightarrow> round set \<Rightarrow> recovery \<Rightarrow> bool" where
  "kills_ok grace R s \<longleftrightarrow> (rv_kills s = [] \<or> rv_inspected s \<and> (\<exists>ro\<in>R. \<exists>t. rv_kills s = [t] \<and> kill_ok grace ro t))"

lemma after_grace_kills:
  assumes "kills_ok grace R s" and "ro \<in> R" and "ro_self ro \<Longrightarrow> rv_sticky s"
  shows "kills_ok grace R (after_grace origin grace ro s)"
proof (cases "rv_inspected s \<or> ro_now2 ro < grace")
  case True
  with assms show ?thesis by (simp add: after_grace_def)
next
  case False
  with assms(1) have n: "rv_kills s = []" by (auto simp: kills_ok_def)
  let ?s = "s\<lparr>rv_inspected := True, rv_scd := ro_inspect ro\<rparr>"
  have "kills_ok grace R (try_handoff origin ro (s\<lparr>rv_inspected := True, rv_scd := ro_inspect ro\<rparr>))"
  proof (cases "rv_kills (try_handoff origin ro ?s) = rv_kills ?s")
    case True
    with n show ?thesis by (simp add: kills_ok_def)
  next
    case False
    with try_handoff_kills(1) [of origin ro ?s] n have "rv_kills (try_handoff origin ro ?s) = [ro_reserve_now ro]" by simp
    moreover from try_handoff_kills(5) [OF False] assms(3) \<open>\<not> (rv_inspected s \<or> ro_now2 ro < grace)\<close>
    have "kill_ok grace ro (ro_reserve_now ro)" by (auto simp: kill_ok_def)
    ultimately show ?thesis using assms(2) by (auto simp: kills_ok_def try_handoff_kills(2))
  qed
  with False n show ?thesis by (simp add: after_grace_def Let_def kills_ok_def)
qed

lemma recover_round_kills:
  assumes "kills_ok grace R s" and "ro \<in> R"
  shows "kills_ok grace R (snd (recover_round origin grace ro s))"
proof -
  have c: "kills_ok grace R s' = kills_ok grace R s" if "rv_kills s' = rv_kills s" "rv_inspected s' = rv_inspected s" for s'
    using that by (simp add: kills_ok_def)
  show ?thesis
    unfolding recover_round_def Let_def
    by (auto simp: c assms(1) intro!: after_grace_kills assms(2) split: option.split sum.split) (simp_all add: note_self_sticky)
qed

lemma recover_loop_kills:
  "recover_loop origin grace rounds s = Some (r, s') \<Longrightarrow> kills_ok grace R s \<Longrightarrow> set rounds \<subseteq> R \<Longrightarrow> kills_ok grace R s'"
proof (induction rounds arbitrary: s)
  case (Cons ro rs)
  obtain out t where o: "recover_round origin grace ro s = (out, t)" by (metis prod.exhaust)
  from recover_round_kills [OF Cons.prems(2), of ro origin] Cons.prems(3) have t: "kills_ok grace R t" by (simp add: o)
  show ?case
  proof (cases out)
    case Again
    with Cons.prems o have "recover_loop origin grace rs t = Some (r, s')" by simp
    from Cons.IH [OF this t] Cons.prems(3) show ?thesis by simp
  qed (use Cons.prems o t in auto)
qed simp

lemma recover_round_sticky:
  assumes "rv_sticky s \<and> rv_kills s = []"
  shows "rv_sticky (snd (recover_round origin grace ro s)) \<and> rv_kills (snd (recover_round origin grace ro s)) = []"
proof -
  have "rv_sticky (after_grace origin grace ro t) \<and> rv_kills (after_grace origin grace ro t) = []"
    if "rv_sticky t" "rv_kills t = []" for t
    using that by (simp add: after_grace_def Let_def try_handoff_def)
  then show ?thesis
    unfolding recover_round_def Let_def by (auto simp: assms note_self_sticky split: option.split sum.split)
qed

lemma recover_loop_sticky:
  "recover_loop origin grace rounds s = Some (r, s') \<Longrightarrow> rv_sticky s \<and> rv_kills s = [] \<Longrightarrow> rv_kills s' = []"
proof (induction rounds arbitrary: s)
  case (Cons ro rs)
  obtain out t where o: "recover_round origin grace ro s = (out, t)" by (metis prod.exhaust)
  from recover_round_sticky [OF Cons.prems(2), of origin grace ro] have t: "rv_sticky t \<and> rv_kills t = []" by (simp add: o)
  with Cons o show ?case by (cases out) auto
qed simp

text \<open>C23: scdaemon is asked to let go at most once per recovery, and only with cause: not before
  the grace period has passed, not while PIVB itself holds a card session, and not when the
  inspection of that round said scdaemon is not running. When PIVB held a session at the
  start of the episode, scdaemon is not asked at all.\<close>

theorem handoff_once_with_cause:
  assumes "recoverSharing origin recoveryGrace started initial budget self handoffs rounds ee = Some (r, s')"
  shows "rv_kills s' = [] \<or> \<not> self \<and>
    (\<exists>ro\<in>set rounds. rv_kills s' = [ro_reserve_now ro] \<and>
       time_add started (if recoveryGrace \<le> 0 then defaultRecoveryGrace else recoveryGrace) \<le> ro_now2 ro \<and>
       \<not> ro_self ro \<and> in_state (ro_inspect ro) \<noteq> ScdStopped)"
proof -
  let ?grace = "time_add started (if recoveryGrace \<le> 0 then defaultRecoveryGrace else recoveryGrace)"
  let ?s = "recovery_start initial (budget_start started budget) self handoffs"
  have "kills_ok ?grace (set rounds) ?s" by (simp add: kills_ok_def recovery_start_def)
  moreover have "rv_kills ?s = []" by (simp add: recovery_start_def)
  ultimately have "kills_ok ?grace (set rounds) s'"
    using assms recover_loop_kills [of origin ?grace rounds ?s _ s' "set rounds"]
    by (auto simp: recoverSharing_def Let_def split: if_splits option.splits)
  moreover have "self \<Longrightarrow> rv_kills s' = []"
    using assms recover_loop_sticky [of origin ?grace rounds ?s _ s']
    by (auto simp: recoverSharing_def Let_def recovery_start_def split: if_splits option.splits)
  ultimately show ?thesis by (auto simp: kills_ok_def kill_ok_def)
qed

subsection \<open>Termination\<close>

text \<open>The clock of the environment: a round starts no earlier than the previous one plus the
  time it slept.\<close>

fun timely :: "origin \<Rightarrow> gotime \<Rightarrow> round list \<Rightarrow> recovery \<Rightarrow> bool" where
  "timely origin grace [] s = True"
| "timely origin grace (ro # rs) s =
     (case recover_round origin grace ro s of
        (Again, s') \<Rightarrow>
          (case rs of [] \<Rightarrow> True | ro' # _ \<Rightarrow> ro_now ro + round_delay grace ro s \<le> ro_now ro') \<and>
          timely origin grace rs s'
      | _ \<Rightarrow> True)"

lemma budget_remaining_exact:
  assumes "rb_started b \<noteq> zero_time" and "rb_started b \<le> now" and "0 \<le> rb_limit b" and "rb_limit b < 2 ^ 62"
  shows "budget_remaining now b = max 0 (rb_limit b - (now - rb_started b))"
proof -
  have b: "budget_start now b = b" using assms(1) by (simp add: budget_start_def)
  obtain t where t: "time_sub now (rb_started b) = t" by blast
  have r: "0 \<le> t" "t \<le> 2 ^ 63 - 1" "t = now - rb_started b \<or> t = 2 ^ 63 - 1 \<and> t \<le> now - rb_started b"
    using assms(2) by (auto simp: t [symmetric] time_sub_def clamp64_def min_def max_def)
  then have "in_int64 (rb_limit b - t)" using assms(3,4) by (simp add: in_int64_def)
  then show ?thesis using r assms(3,4) by (auto simp: budget_remaining_def b wrap64_exact t)
qed

lemma after_grace_frame:
  "rv_budget (after_grace origin grace ro s) = rv_budget s"
  "rv_delay s < 5 \<Longrightarrow> rv_delay (after_grace origin grace ro s) < 5"
  by (auto simp: after_grace_def try_handoff_def Let_def split: prod.split bool.split)

lemma recover_round_Again:
  assumes "recover_round origin grace ro s = (Again, s')" and "rv_delay s < 5"
  shows "0 < budget_remaining (ro_now ro) (rv_budget s) \<and> rv_budget s' = rv_budget s \<and> rv_delay s' < 5"
  using assms unfolding recover_round_def Let_def
  by (auto simp: after_grace_frame delays_def split: if_splits option.splits sum.splits)

lemma delays_range: "i < 5 \<Longrightarrow> 50 * millisecond \<le> delays ! i \<and> delays ! i \<le> 800 * millisecond"
  by (auto simp: delays_def less_Suc_eq numeral_eq_Suc)

lemma round_delay_cases:
  assumes "clock_ok (ro_now ro)" and "rv_delay s < 5"
  shows "50 * millisecond \<le> round_delay grace ro s \<or>
    round_delay grace ro s = budget_remaining (ro_now ro) (rv_budget s) \<or>
    ro_now ro < grace \<and> round_delay grace ro s = grace - ro_now ro"
proof -
  note d = delays_range [OF assms(2)]
  have t: "time_add (ro_now ro) (delays ! rv_delay s) = ro_now ro + delays ! rv_delay s"
    using assms(1) d by (intro time_add_clock) (simp_all add: dur_ok_def)
  have "time_sub grace (ro_now ro) = grace - ro_now ro" if "ro_now ro < grace" "ro_now ro + delays ! rv_delay s > grace"
    using that d by (simp add: time_sub_def clamp64_def)
  with d show ?thesis by (auto simp: round_delay_def Let_def t minDuration_def)
qed

definition past_grace :: "gotime \<Rightarrow> gotime \<Rightarrow> nat" where
  "past_grace grace now = (if now < grace then 2 else 1)"

lemma recover_loop_length:
  assumes "recover_loop origin grace (ro # rs) s = None" and "timely origin grace (ro # rs) s"
    and "\<forall>r\<in>set (ro # rs). clock_ok (ro_now r)" and "rv_delay s < 5"
    and "rb_started (rv_budget s) \<noteq> zero_time" and "rb_started (rv_budget s) \<le> ro_now ro"
    and "0 \<le> rb_limit (rv_budget s)" and "rb_limit (rv_budget s) < 2 ^ 62"
  shows "50 * millisecond * int (length (ro # rs)) \<le>
    budget_remaining (ro_now ro) (rv_budget s) + 50 * millisecond * int (past_grace grace (ro_now ro))"
  using assms
proof (induction rs arbitrary: ro s)
  case Nil
  then show ?case by (simp add: past_grace_def budget_remaining_def)
next
  case (Cons ro' rs)
  let ?rem = "\<lambda>r. budget_remaining (ro_now r) (rv_budget s)"
  obtain s' where r: "recover_round origin grace ro s = (Again, s')"
    using Cons.prems(1) by (auto split: prod.splits outcome.splits)
  note a = recover_round_Again [OF r Cons.prems(4)]
  have t: "ro_now ro + round_delay grace ro s \<le> ro_now ro'" "timely origin grace (ro' # rs) s'"
    using Cons.prems(2) r by (simp_all del: timely.simps add: timely.simps(2) [of origin grace ro])
  have n: "recover_loop origin grace (ro' # rs) s' = None"
    using Cons.prems(1) r by (simp del: recover_loop.simps add: recover_loop.simps(2) [of origin grace ro])
  have e: "?rem ro = max 0 (rb_limit (rv_budget s) - (ro_now ro - rb_started (rv_budget s)))"
    using Cons.prems(5-8) by (rule budget_remaining_exact)
  have d: "0 < round_delay grace ro s"
    using round_delay_cases [of ro s grace] Cons.prems(3,4) a by auto
  then have st: "rb_started (rv_budget s') \<le> ro_now ro'" using t(1) Cons.prems(6) a by simp
  have e': "?rem ro' = max 0 (rb_limit (rv_budget s) - (ro_now ro' - rb_started (rv_budget s)))"
    using Cons.prems(5,7,8) st a by (intro budget_remaining_exact) simp_all
  have ih: "50 * millisecond * int (length (ro' # rs)) \<le> ?rem ro' + 50 * millisecond * int (past_grace grace (ro_now ro'))"
    using Cons.IH [OF n t(2)] Cons.prems(3,5,7,8) a st by simp
  have pos: "0 < ?rem ro'"
  proof -
    obtain s'' where "recover_round origin grace ro' s' = (Again, s'')"
      using n by (auto split: prod.splits outcome.splits)
    from recover_round_Again [OF this] a show ?thesis by simp
  qed
  have g: "past_grace grace (ro_now ro') \<le> past_grace grace (ro_now ro)"
    using t(1) d by (simp add: past_grace_def)
  from round_delay_cases [of ro s grace] Cons.prems(3,4) consider
      "50 * millisecond \<le> round_delay grace ro s" | "round_delay grace ro s = ?rem ro"
    | "ro_now ro < grace" "round_delay grace ro s = grace - ro_now ro" by auto
  then show ?case
  proof cases
    case 1
    then have "?rem ro' + 50 * millisecond \<le> ?rem ro" using t(1) pos a e e' by linarith
    with ih g show ?thesis by simp
  next
    case 2
    then have "?rem ro' = 0" using t(1) a e e' by simp
    with pos show ?thesis by simp
  next
    case 3
    then have "past_grace grace (ro_now ro') = 1" "past_grace grace (ro_now ro) = 2" using t(1) by (simp_all add: past_grace_def)
    moreover have "?rem ro' \<le> ?rem ro" using t(1) d e e' by simp
    ultimately show ?thesis using ih by simp
  qed
qed

text \<open>C21: the recovery loop ends. With a clock that advances at least by the time slept, an
  episode of at most two seconds of budget is over after at most 42 rounds: more are never
  run, whatever the card, scdaemon and the probes answer.\<close>

theorem recovery_terminates:
  assumes "timely origin grace rounds (recovery_start initial b self handoffs)" and "rounds \<noteq> []"
    and "\<forall>r\<in>set rounds. clock_ok (ro_now r)" and "rb_started b \<noteq> zero_time" and "rb_started b \<le> ro_now (hd rounds)"
    and "0 \<le> rb_limit b" and "rb_limit b \<le> defaultRecoveryLimit" and "42 < length rounds"
  shows "recover_loop origin grace rounds (recovery_start initial b self handoffs) \<noteq> None"
proof
  let ?s = "recovery_start initial b self handoffs"
  assume n: "recover_loop origin grace rounds ?s = None"
  from assms(2) obtain ro rs where r: "rounds = ro # rs" by (cases rounds) auto
  have b: "rv_budget ?s = b" "rv_delay ?s < 5" by (simp_all add: recovery_start_def)
  have l: "rb_limit b \<le> 2 * second" using assms(7) by (simp add: defaultRecoveryLimit_def)
  have "50 * millisecond * int (length rounds) \<le>
      budget_remaining (ro_now ro) b + 50 * millisecond * int (past_grace grace (ro_now ro))"
    using recover_loop_length [of origin grace ro rs ?s] n assms(1,3-6) l b by (simp add: r)
  moreover have "budget_remaining (ro_now ro) b \<le> 2 * second"
    using budget_remaining_exact [OF assms(4), of "ro_now ro"] assms(5,6) l by (simp add: r)
  moreover have "past_grace grace (ro_now ro) \<le> 2" by (simp add: past_grace_def)
  ultimately show False using assms(8) by simp
qed

definition demo_round :: "gotime \<Rightarrow> open_session res \<Rightarrow> round" where
  "demo_round t probe = \<lparr>ro_now = t, ro_ctx_done = False, ro_sleep = None, ro_probe_now = t, ro_probe = probe, ro_started = 1,
     ro_self = False, ro_now2 = t, ro_reinspect = \<lparr>in_state = ScdUnknown, in_evidence = [], in_error = None\<rparr>,
     ro_inspect = \<lparr>in_state = ScdRunning, in_evidence = ''OK'', in_error = None\<rparr>, ro_limit_now = t, ro_reserve_now = t,
     ro_cooldown_now = t, ro_handoff = None\<rparr>"

definition demo_budget :: recovery_budget where
  "demo_budget = \<lparr>rb_started = second, rb_limit = 2 * second, rb_blocked_start = 0, rb_diagnosed = True\<rparr>"

definition demo_card :: card where
  "demo_card = \<lparr>cd_serial = Inr 7, cd_cert = Inr demo_cert, cd_retries = Inr 3, cd_verify = (\<lambda>_. None),
     cd_key = None, cd_is_signer = True, cd_sign = Inr\<rparr>"

definition demo_session :: open_session where
  "demo_session = \<lparr>os_id = 0, os_card = demo_card, os_serial = 7\<rparr>"

lemma demo_remaining: "0 < t \<Longrightarrow> t < 2 * second \<Longrightarrow> budget_remaining (second + t) demo_budget = 2 * second - t"
  by (subst budget_remaining_exact) (simp_all add: demo_budget_def)

theorem recovery_terminates_witness:
  "recover_loop OriginUnlock 0 (replicate 43 (demo_round (4 * second) (Inl ErrLocked)))
     (recovery_start ErrLocked demo_budget False []) \<noteq> None"
proof -
  let ?ro = "demo_round (4 * second) (Inl ErrLocked)" and ?s = "recovery_start ErrLocked demo_budget False []"
  have z: "budget_remaining (4 * second) demo_budget = 0"
    by (subst budget_remaining_exact) (simp_all add: demo_budget_def)
  have "recover_round OriginUnlock 0 ?ro ?s = (Stopped, ?s)"
    by (simp add: recover_round_def demo_round_def recovery_start_def z [simplified])
  then have "timely OriginUnlock 0 (replicate 43 ?ro) ?s" by (simp add: numeral_eq_Suc del: recover_loop.simps)
  moreover have "clock_ok (ro_now ?ro)" by (simp add: demo_round_def clock_ok_def)
  moreover have "hd (replicate 43 ?ro) = ?ro" by (simp add: numeral_eq_Suc)
  ultimately show ?thesis
    by (intro recovery_terminates) (simp_all add: demo_budget_def demo_round_def defaultRecoveryLimit_def)
qed

theorem handoff_once_with_cause_witness:
  "\<exists>r s' ee. recoverSharing OriginUnlock 0 second ErrLocked demo_budget False []
       [demo_round (second + 600 * millisecond) (Inl ErrLocked), demo_round (second + 700 * millisecond) (Inr demo_session)] ee
     = Some (r, s') \<and> length (rv_kills s') = 1"
proof -
  let ?t1 = "second + 600 * millisecond" and ?t2 = "second + 700 * millisecond"
  let ?r1 = "demo_round ?t1 (Inl ErrLocked)" and ?r2 = "demo_round ?t2 (Inr demo_session)"
  define s where "s = recovery_start ErrLocked demo_budget False []"
  define s1 where "s1 = s\<lparr>rv_delay := 0, rv_attempts := 2, rv_probe_waits := 1, rv_last := ErrLocked, rv_last_self := False,
    rv_inspected := True, rv_scd := ro_inspect ?r1, rv_attempted := True, rv_kills := [?t1]\<rparr>"
  define ee :: episode_end where "ee = \<lparr>ee_cooldown_now = 0, ee_now = 0, ee_self = False, ee_blocked = 0, ee_workers = 0\<rparr>"
  have m: "budget_remaining ?t1 demo_budget = 1400 * millisecond" "budget_remaining ?t2 demo_budget = 1300 * millisecond"
    using demo_remaining [of "600 * millisecond"] demo_remaining [of "700 * millisecond"] by simp_all
  have d: "round_delay (second + 500 * millisecond) ?r1 s = 50 * millisecond" "round_delay (second + 500 * millisecond) ?r2 s1 = 50 * millisecond"
    by (simp_all add: round_delay_def Let_def demo_round_def s1_def s_def recovery_start_def delays_def m [simplified] minDuration_def)
  have g: "time_add second (500 * millisecond) = second + 500 * millisecond" by (subst time_add_clock) (simp_all add: clock_ok_def dur_ok_def)
  have b: "rv_budget s = demo_budget" "rv_budget s1 = demo_budget" by (simp_all add: s1_def s_def recovery_start_def)
  have 1: "recover_round OriginUnlock (second + 500 * millisecond) ?r1 s = (Again, s1)"
    unfolding recover_round_def d(1) Let_def
    by (simp add: demo_round_def b m [simplified] minDuration_def probeOpenLimit_def after_grace_def try_handoff_def note_self_def
        Let_def reserveHandoff_def throttled_def s1_def s_def recovery_start_def)
  have 2: "fst (recover_round OriginUnlock (second + 500 * millisecond) ?r2 s1) = Recovered demo_session"
    unfolding recover_round_def d(2) Let_def
    by (simp add: demo_round_def b m [simplified] minDuration_def probeOpenLimit_def)
  obtain s2 where 3: "recover_round OriginUnlock (second + 500 * millisecond) ?r2 s1 = (Recovered demo_session, s2)"
    using 2 by (metis prod.collapse)
  have bs: "budget_start second demo_budget = demo_budget" "budget_remaining second demo_budget > 0"
    by (simp_all add: budget_start_def demo_budget_def) (subst budget_remaining_exact, simp_all)
  have k: "rv_kills s2 = [?t1]"
    using 3 unfolding recover_round_def d(2) Let_def
    by (auto simp: demo_round_def b m [simplified] minDuration_def probeOpenLimit_def s1_def)
  have "recoverSharing OriginUnlock 0 second ErrLocked demo_budget False [] [?r1, ?r2] ee = Some (Inr demo_session, s2)"
    using bs(2) unfolding recoverSharing_def bs(1) Let_def defaultRecoveryGrace_def s_def [symmetric]
    by (simp add: g [simplified] 1 [simplified] 3 [simplified])
  note r = this
  have "length (rv_kills s2) = 1" using handoff_once_with_cause [OF r] k by auto
  with r show ?thesis by blast
qed

end
