(* ===== verification/Signer.thy ===== *)
theory Signer
  imports Card_Recovery
begin

text \<open>
  The hardware seam (\<open>pivsigner/signer.go\<close>, \<open>cardfree.go\<close>, \<open>errors.go\<close>, the acquisition half of
  \<open>recovery.go\<close>). A hardware operation takes a lease, acquires the configured card, and works
  inside that one session; what PC/SC, the card, scdaemon, the lease service and the clock
  answer is its environment. The state that survives an operation is \<open>hardware\<close>; the PIN
  attempts, the touch prompts and the signature requests it makes are recorded in \<open>hw_trace\<close>.
  What a client may rely on is the locale \<open>serial_signer\<close>, which both signers interpret.
\<close>

subsection \<open>Operations\<close>

record op_context =
  oc_origin :: origin
  oc_id :: string
  oc_require_lease :: bool

text \<open>A signer runs the digest callback (which threads the closure's variables) any number of
  times and returns a signature, a serial and an error.\<close>

type_synonym 'v digest_for = "u32 \<Rightarrow> certificate \<Rightarrow> 'v \<Rightarrow> bytes res \<times> 'v"
type_synonym 'v signer =
  "op_context \<Rightarrow> string \<Rightarrow> bytes \<Rightarrow> 'v digest_for \<Rightarrow> 'v \<Rightarrow> (bytes \<times> u32 \<times> gerror option) \<times> 'v"

datatype hw_event = PinTried u32 int | Prompted string | SignRequested u32 bytes

record hardware =
  hw_serials :: "u32 list"
  hw_min_touch :: duration
  hw_min_retry_touch :: duration
  hw_recovery_grace :: duration
  hw_recovery_limit :: duration
  hw_verified :: u32
  hw_handoffs :: "gotime list"
  hw_trace :: "hw_event list"
  hw_sequence :: nat

text \<open>\<open>operationFrom\<close>: an operation without an origin or an id gets the fallback and a fresh one;
  \<open>hex16\<close> renders \<open>%016x\<close>.\<close>

fun hex_digits :: "nat \<Rightarrow> nat \<Rightarrow> string" where
  "hex_digits 0 n = []"
| "hex_digits (Suc k) n = hex_digits k (n div 16) @ [hex_digit (n mod 16)]"

definition operationFrom :: "(origin option \<times> string) \<Rightarrow> origin \<Rightarrow> hardware \<Rightarrow> (origin \<times> string) \<times> hardware" where
  "operationFrom op fallback hw =
     (let og = (case fst op of Some x \<Rightarrow> x | None \<Rightarrow> fallback) in
      if snd op = []
      then ((og, ''pivb-'' @ hex_digits 16 (Suc (hw_sequence hw))), hw\<lparr>hw_sequence := Suc (hw_sequence hw)\<rparr>)
      else ((og, snd op), hw))"

subsection \<open>Errors\<close>

text \<open>What the operator's notifier starts for a message: a program and its arguments, or nothing.\<close>

definition NotifyCommand :: "string list \<Rightarrow> string \<Rightarrow> (string \<times> string list) option" where
  "NotifyCommand argv message = (case argv of [] \<Rightarrow> None | name # base \<Rightarrow> Some (name, base @ [message]))"

text \<open>\<open>CheckPCSC\<close>: any list of readers will do, even an empty one.\<close>

definition CheckPCSC :: "string list res \<Rightarrow> gerror option" where
  "CheckPCSC readers = (case readers of Inl e \<Rightarrow> Some (ErrWrap ''pcscd is unavailable: '' e) | Inr _ \<Rightarrow> None)"

definition IsSharingViolation :: "gerror option \<Rightarrow> bool" where
  "IsSharingViolation err =
     (case err of
        None \<Rightarrow> False
      | Some e \<Rightarrow>
          let s = to_lower (err_text e) in
          contains ''0x8010000b'' s \<or> contains ''sharing violation'' s \<or>
          contains ''the smart card cannot be accessed because of other connections outstanding'' s)"

definition CardFreeRemedy :: string where
  "CardFreeRemedy = ''perform card operations on the provider host that holds the YubiKey; this origin serves only routed mints, policy, and status''"

definition contention_remedy :: "contention_info \<Rightarrow> gerror option \<Rightarrow> gerror option \<Rightarrow> string" where
  "contention_remedy c inspection handoff =
     (if ci_last_self c then ''wait for the earlier PIVB touch/signing operation to finish, then retry''
      else if ci_cooldown c > 0
      then ''retry in '' @ duration_string (displayDelay (ci_cooldown c)) @ ''; repeated automated scdaemon hand-offs are temporarily limited''
      else if ci_scd c = ScdStopped then ''another non-scdaemon client owns the card; close it and retry''
      else if handoff \<noteq> None then ''check the GnuPG command path/home and the competing card client, then retry''
      else if inspection \<noteq> None
      then ''scdaemon state could not be inspected; check the GnuPG command path/home and competing card client, then retry''
      else ''close the competing smart-card client and retry'')"

definition unavailable_error :: "gerror \<Rightarrow> string \<Rightarrow> api_error" where
  "unavailable_error e remedy = \<lparr>ae_status = 503, ae_code = CodeSign, ae_message = err_text e, ae_remedy = remedy, ae_security = False\<rparr>"

definition MapAPIError :: "gerror \<Rightarrow> api_error option" where
  "MapAPIError e =
     (case errors_as node_card_free e of
        Some (_, remedy) \<Rightarrow>
          Some \<lparr>ae_status = 403, ae_code = CodeCardFree, ae_message = err_text e,
            ae_remedy = (if remedy = [] then CardFreeRemedy else remedy), ae_security = False\<rparr>
      | None \<Rightarrow>
     (case errors_as node_contention e of
        Some (c, inspection, handoff) \<Rightarrow> Some (unavailable_error e (contention_remedy c inspection handoff))
      | None \<Rightarrow>
     (case errors_as node_touch e of
        Some _ \<Rightarrow> Some (unavailable_error e ''the card was contended too long to prompt for touch safely; retry'')
      | None \<Rightarrow>
     if IsSharingViolation (Some e)
     then Some (unavailable_error e ''close the competing smart-card client, check the daemon journal, and retry'')
     else None)))"

subsection \<open>Leases and acquisition\<close>

text \<open>\<open>lease\<close> is what the lease manager answered, \<open>None\<close> when there is none.\<close>

definition acquireLease :: "bool \<Rightarrow> gerror option option \<Rightarrow> gerror option" where
  "acquireLease required lease =
     (case lease of
        None \<Rightarrow> None
      | Some None \<Rightarrow> None
      | Some (Some e) \<Rightarrow>
          if \<not> required \<and> errors_as node_lease e \<noteq> None then None
          else Some (ErrWrap ''acquire cooperative smart-card lease: '' e))"

record acquire_env =
  ae_listed :: "string list res"
  ae_opener :: "string \<Rightarrow> card res"
  ae_open_cancelled :: "gerror option"
  ae_now :: gotime
  ae_started :: gotime
  ae_self :: bool
  ae_rounds :: "round list"
  ae_end :: episode_end

definition openSelectedContext :: "u32 list \<Rightarrow> acquire_env \<Rightarrow> open_session res" where
  "openSelectedContext serials env =
     (case ae_open_cancelled env of
        Some e \<Rightarrow> Inl (ErrWrap ''open smart card: '' e)
      | None \<Rightarrow> fst (openSelectedUntracked serials (ae_listed env) (ae_opener env)))"

text \<open>\<open>None\<close>: the recovery has not returned within the rounds the environment offers.\<close>

definition acquireCard :: "acquire_env \<Rightarrow> origin \<Rightarrow> recovery_budget \<Rightarrow> hardware \<Rightarrow>
    (open_session res \<times> recovery_budget \<times> hardware) option" where
  "acquireCard env og budget hw =
     (case openSelectedContext (hw_serials hw) env of
        Inr s \<Rightarrow> Some (Inr s, budget, hw)
      | Inl e \<Rightarrow>
          if \<not> IsSharingViolation (Some e) then Some (Inl e, budget, hw)
          else
            let b1 = budget_start (ae_now env) budget;
                b2 = (if \<not> rb_diagnosed b1 \<and> budget_remaining (ae_now env) b1 > 0 then b1\<lparr>rb_diagnosed := True\<rparr> else b1)
            in case recoverSharing og (hw_recovery_grace hw) (ae_started env) e b2 (ae_self env) (hw_handoffs hw)
                      (ae_rounds env) (ae_end env) of
                None \<Rightarrow> None
              | Some (Inl c, r) \<Rightarrow> Some (Inl (AcquisitionHandled c), rv_budget r, hw\<lparr>hw_handoffs := rv_handoffs r\<rparr>)
              | Some (Inr s, r) \<Rightarrow> Some (Inr s, rv_budget r, hw\<lparr>hw_handoffs := rv_handoffs r\<rparr>))"

subsection \<open>Inside a session\<close>

definition wifPublicKey :: "certificate \<Rightarrow> rsa_pub res" where
  "wifPublicKey cert =
     (case ct_public cert of
        OtherKey _ \<Rightarrow> Inl (ErrText ''must contain an RSA-2048/F4 certificate'')
      | RSAKey pub \<Rightarrow>
          if bit_len (rsa_n pub) \<noteq> 2048 \<or> rsa_e pub \<noteq> 65537
          then Inl (ErrText ''must contain an RSA-2048/F4 certificate'') else Inr pub)"

definition tryPIN :: "card \<Rightarrow> u32 \<Rightarrow> int \<Rightarrow> bytes \<Rightarrow> hardware \<Rightarrow> gerror option \<times> hardware" where
  "tryPIN yk serial retries pin hw = (cd_verify yk pin, hw\<lparr>hw_trace := hw_trace hw @ [PinTried serial retries]\<rparr>)"

definition verifyCachedPIN :: "card \<Rightarrow> u32 \<Rightarrow> bytes \<Rightarrow> hardware \<Rightarrow> gerror option \<times> hardware" where
  "verifyCachedPIN yk serial pin hw =
     (if hw_verified hw = serial then (None, hw)
      else case cd_retries yk of
          Inl e \<Rightarrow> (Some (ErrWrap (''read PIN retries for swapped YubiKey '' @ serial_text serial @ '': '') e), hw)
        | Inr retries \<Rightarrow>
            if retries \<le> 1
            then (Some (PINError retries
                (ErrText (''refusing to try the cached PIN on swapped YubiKey '' @ serial_text serial @ '' and spend the final PIN attempt''))
                ''run `pivb unlock` with this key inserted after checking or resetting its PIV PIN'' False), hw)
            else (case tryPIN yk serial retries pin hw of
                (Some e, hw1) \<Rightarrow>
                  (Some (PINError (case errors_as node_auth e of Some r \<Rightarrow> r | None \<Rightarrow> retries)
                     (ErrWrap (''cached PIN was rejected by swapped YubiKey '' @ serial_text serial @ ''; fleet keys may have different PINs: '') e)
                     ''run `pivb unlock` with this key inserted; use the same PIV PIN on every fleet key for seamless swaps'' True),
                   hw1\<lparr>hw_verified := 0\<rparr>)
              | (None, hw1) \<Rightarrow> (None, hw1\<lparr>hw_verified := serial\<rparr>)))"

definition minimum_touch :: "bool \<Rightarrow> hardware \<Rightarrow> duration" where
  "minimum_touch reserveTouchWindow hw =
     (if reserveTouchWindow then (if hw_min_touch hw \<le> 0 then 16 * second else hw_min_touch hw)
      else if hw_min_retry_touch hw \<le> 0 then 2 * second else hw_min_retry_touch hw)"

text \<open>The worker's body once it holds a session; \<open>remaining\<close> is the time left of the hardware
  deadline. It returns what \<open>finish\<close> sends.\<close>

definition useCard :: "duration \<Rightarrow> bool \<Rightarrow> string \<Rightarrow> bytes \<Rightarrow> 'v digest_for \<Rightarrow> open_session \<Rightarrow> 'v \<Rightarrow> hardware \<Rightarrow>
    (bytes \<times> u32 \<times> gerror option) \<times> 'v \<times> hardware" where
  "useCard remaining reserveTouchWindow label pin digestFor session v hw =
     (let yk = os_card session; serial = os_serial session; s = serial_text serial in
      case cd_cert yk of
        Inl e \<Rightarrow> (([], 0, Some (ErrWrap (''read certificate from PIV slot 9c on YubiKey '' @ s @ '': '') e)), v, hw)
      | Inr cert \<Rightarrow>
     (case wifPublicKey cert of
        Inl e \<Rightarrow> (([], 0, Some (ErrWrap (''PIV slot 9c on YubiKey '' @ s @ '' '') e)), v, hw)
      | Inr _ \<Rightarrow>
     (case digestFor serial cert v of
        (Inl e, v1) \<Rightarrow> (([], 0, Some (ErrWrap (''build signing digest for YubiKey '' @ s @ '': '') e)), v1, hw)
      | (Inr digest, v1) \<Rightarrow>
     (case verifyCachedPIN yk serial pin hw of
        (Some e, hw1) \<Rightarrow> (([], 0, Some e), v1, hw1)
      | (None, hw1) \<Rightarrow>
     (case cd_key yk of
        Some e \<Rightarrow> (([], serial, Some (ErrWrap (''open PIV private key on YubiKey '' @ s @ '': '') e)), v1, hw1)
      | None \<Rightarrow>
     if \<not> cd_is_signer yk
     then (([], serial, Some (ErrText ''PIV private key does not implement crypto.Signer'')), v1, hw1)
     else if remaining < minimum_touch reserveTouchWindow hw1
     then (([], serial, Some (TouchWindow (max 0 remaining))), v1, hw1)
     else
       let hw2 = hw1\<lparr>hw_trace := hw_trace hw1 @ [Prompted (''Touch YubiKey to sign '' @ label), SignRequested serial digest]\<rparr> in
       (case cd_sign yk digest of
          Inl e \<Rightarrow> (([], serial, Some (ErrWrap (''sign with PIV slot 9c on YubiKey '' @ s @ '': '') e)), v1, hw2)
        | Inr sig \<Rightarrow> ((sig, serial, None), v1, hw2)))))))"

subsection \<open>\<open>Sign\<close>\<close>

record attempt_env =
  at_acquire :: acquire_env
  at_remaining :: duration
  at_cancelled :: "gerror option"

definition deadline_error :: "gerror \<Rightarrow> gerror" where
  "deadline_error e = ErrWrap ''PIV signing deadline: '' e"

text \<open>The worker and the \<open>select\<close> that waits for it. A worker that never gets a session is
  ended by the hardware deadline; one whose caller was cancelled has still run.\<close>

definition signAttempt :: "attempt_env \<Rightarrow> origin \<Rightarrow> recovery_budget \<Rightarrow> bool \<Rightarrow> string \<Rightarrow> bytes \<Rightarrow> 'v digest_for \<Rightarrow> 'v \<Rightarrow>
    hardware \<Rightarrow> (bytes \<times> u32 \<times> gerror option) \<times> 'v \<times> recovery_budget \<times> hardware" where
  "signAttempt env og budget reserveTouchWindow label pin digestFor v hw =
     (case acquireCard (at_acquire env) og budget hw of
        None \<Rightarrow> (([], 0, Some (deadline_error DeadlineExceeded)), v, budget, hw)
      | Some (acquired, b1, hw1) \<Rightarrow>
          (let (r, v2, hw2) =
             (case acquired of
                Inl e \<Rightarrow> (([], 0, Some e), v, hw1)
              | Inr session \<Rightarrow> useCard (at_remaining env) reserveTouchWindow label pin digestFor session v hw1)
           in case at_cancelled env of
               Some e \<Rightarrow> (([], 0, Some (deadline_error e)), v2, b1, hw2)
             | None \<Rightarrow> (r, v2, b1, hw2)))"

record sign_env =
  sg_lease :: "gerror option option"
  sg_blocked :: nat
  sg_first :: attempt_env
  sg_second :: attempt_env

definition retried :: "gerror option \<Rightarrow> bool" where
  "retried err \<longleftrightarrow> \<not> (err = None \<or> (case err of Some e \<Rightarrow> errors_as node_handled e \<noteq> None | None \<Rightarrow> False) \<or> \<not> IsSharingViolation err)"

definition Sign :: "sign_env \<Rightarrow> hardware \<Rightarrow> op_context \<Rightarrow> string \<Rightarrow> bytes \<Rightarrow> 'v digest_for \<Rightarrow> 'v \<Rightarrow>
    (bytes \<times> u32 \<times> gerror option) \<times> 'v \<times> hardware" where
  "Sign env hw op label pin digestFor v =
     (case operationFrom (Some (oc_origin op), oc_id op) OriginUnclassified hw of
        ((og, _), hw0) \<Rightarrow>
     (case acquireLease (oc_require_lease op) (sg_lease env) of
        Some e \<Rightarrow> (([], 0, Some e), v, hw0)
      | None \<Rightarrow>
          (case signAttempt (sg_first env) og (newRecoveryBudget (hw_recovery_limit hw) (sg_blocked env)) True label pin digestFor v hw0 of
             ((sig, serial, err), v1, b1, hw1) \<Rightarrow>
               if \<not> retried err then ((sig, serial, err), v1, hw1)
               else (case signAttempt (sg_second env) og b1 False label pin digestFor v1 hw1 of
                   (r, v2, b2, hw2) \<Rightarrow> (r, v2, hw2)))))"

text \<open>The hardware signer as a client sees it, in one environment and state.\<close>

definition hardware_signer :: "sign_env \<Rightarrow> hardware \<Rightarrow> 'v signer" where
  "hardware_signer env hw op label pin digestFor v =
     (case Sign env hw op label pin digestFor v of (r, v', _) \<Rightarrow> (r, v'))"

subsection \<open>\<open>VerifyPIN\<close> and \<open>Describe\<close>\<close>

record verify_env =
  vn_lease :: "gerror option option"
  vn_blocked :: nat
  vn_acquire :: acquire_env
  vn_cancelled :: "gerror option"

definition VerifyPIN :: "verify_env \<Rightarrow> hardware \<Rightarrow> origin option \<times> string \<Rightarrow> bool \<Rightarrow> bytes \<Rightarrow> ((u32 \<times> int \<times> gerror option) \<times> hardware) option" where
  "VerifyPIN env hw op required pin =
     (case operationFrom op OriginUnlock hw of
        ((og, _), hw0) \<Rightarrow>
     (case acquireLease required (vn_lease env) of
        Some e \<Rightarrow> Some ((0, -1, Some e), hw0)
      | None \<Rightarrow>
     (case acquireCard (vn_acquire env) og (newRecoveryBudget (hw_recovery_limit hw) (vn_blocked env)) hw0 of
        None \<Rightarrow> None
      | Some (Inl e, _, hw1) \<Rightarrow> Some ((0, -1, Some e), hw1)
      | Some (Inr session, _, hw1) \<Rightarrow>
          (let yk = os_card session; serial = os_serial session in
           case cd_retries yk of
             Inl e \<Rightarrow> Some ((serial, -1, Some (ErrWrap (''read PIN retries for YubiKey '' @ serial_text serial @ '': '') e)), hw1)
           | Inr retries \<Rightarrow>
               if retries \<le> 1
               then Some ((serial, retries, Some (PINError retries (ErrText ''refusing to spend the final PIN attempt'') [] False)), hw1)
               else (case vn_cancelled env of
                   Some e \<Rightarrow> Some ((serial, retries, Some e), hw1)
                 | None \<Rightarrow>
                     (case tryPIN yk serial retries pin hw1 of
                        (Some e, hw2) \<Rightarrow>
                          (case errors_as node_auth e of
                             Some r \<Rightarrow> Some ((serial, r, Some (PINError r e [] False)), hw2)
                           | None \<Rightarrow> Some ((serial, retries, Some (PINError retries e [] False)), hw2))
                      | (None, hw2) \<Rightarrow> Some ((serial, retries, None), hw2\<lparr>hw_verified := serial\<rparr>)))))))"

definition Describe :: "verify_env \<Rightarrow> hardware \<Rightarrow> origin option \<times> string \<Rightarrow> bool \<Rightarrow> (((u32 \<times> certificate) res) \<times> hardware) option" where
  "Describe env hw op required =
     (case operationFrom op OriginForwarded hw of
        ((og, _), hw0) \<Rightarrow>
     (case acquireLease required (vn_lease env) of
        Some e \<Rightarrow> Some (Inl e, hw0)
      | None \<Rightarrow>
     (case vn_cancelled env of
        Some e \<Rightarrow> Some (Inl e, hw0)
      | None \<Rightarrow>
     (case acquireCard (vn_acquire env) og (newRecoveryBudget (hw_recovery_limit hw) (vn_blocked env)) hw0 of
        None \<Rightarrow> None
      | Some (Inl e, _, hw1) \<Rightarrow> Some (Inl e, hw1)
      | Some (Inr session, _, hw1) \<Rightarrow>
          (let s = serial_text (os_serial session) in
           case cd_cert (os_card session) of
             Inl e \<Rightarrow> Some (Inl (ErrWrap (''read certificate from PIV slot 9c on YubiKey '' @ s @ '': '') e), hw1)
           | Inr cert \<Rightarrow>
               (case wifPublicKey cert of
                  Inl e \<Rightarrow> Some (Inl (ErrWrap (''PIV slot 9c on YubiKey '' @ s @ '': '') e), hw1)
                | Inr _ \<Rightarrow> Some (Inr (os_serial session, cert), hw1)))))))"

subsection \<open>The card-free signer\<close>

definition card_free_VerifyPIN :: "u32 \<times> int \<times> gerror option" where
  "card_free_VerifyPIN = (0, -1, Some (CardFreeError ''verify a PIV PIN'' []))"

definition card_free_signer :: "'v signer" where
  "card_free_signer op label pin digestFor v = (([], 0, Some (CardFreeError ''sign with the local PIV key'' [])), v)"

subsection \<open>The contract\<close>

text \<open>What the core relies on: a signature comes back only after the digest callback accepted
  the very card it is reported for, and nothing ran after that acceptance.\<close>

locale serial_signer =
  fixes sign :: "'v signer"
  assumes signed: "sign op label pin df v = ((sig, serial, None), v') \<Longrightarrow> \<exists>cert dg v0. df serial cert v0 = (Inr dg, v')"
begin

lemma no_error_needs_digest:
  "(\<And>serial cert v. \<exists>e. fst (df serial cert v) = Inl e) \<Longrightarrow> snd (snd (fst (sign op label pin df v))) \<noteq> None"
proof
  assume no: "\<And>serial cert v. \<exists>e. fst (df serial cert v) = Inl e"
    and n: "snd (snd (fst (sign op label pin df v))) = None"
  obtain sig serial err v' where s: "sign op label pin df v = ((sig, serial, err), v')" by (metis prod.exhaust)
  with n have "sign op label pin df v = ((sig, serial, None), v')" by simp
  from signed [OF this] obtain cert dg v0 where "df serial cert v0 = (Inr dg, v')" by blast
  with no [of serial cert v0] show False by simp
qed

end

lemma useCard_signed:
  "useCard remaining res label pin df session v hw = ((sig, serial, None), v', hw') \<Longrightarrow>
     \<exists>cert dg. df serial cert v = (Inr dg, v') \<and> cd_sign (os_card session) dg = Inr sig \<and> os_serial session = serial \<and>
       cd_cert (os_card session) = Inr cert"
  unfolding useCard_def Let_def by (auto split: sum.splits prod.splits option.splits if_splits)

lemma signAttempt_signed:
  assumes "signAttempt env og b res label pin df v hw = ((sig, serial, None), v', b', hw')"
  shows "\<exists>cert dg. df serial cert v = (Inr dg, v')"
proof -
  from assms obtain session b1 hw1 where "useCard (at_remaining env) res label pin df session v hw1 = ((sig, serial, None), v', hw')"
    unfolding signAttempt_def Let_def by (auto split: sum.splits prod.splits option.splits)
  from useCard_signed [OF this] show ?thesis by blast
qed

interpretation hw: serial_signer "hardware_signer env hw"
proof
  fix op label pin and df :: "'a digest_for" and v sig serial v'
  assume a: "hardware_signer env hw op label pin df v = ((sig, serial, None), v')"
  then obtain hw' where s: "Sign env hw op label pin df v = ((sig, serial, None), v', hw')"
    by (auto simp: hardware_signer_def split: prod.splits)
  from s obtain e' og b r v0 hw0 b' where "signAttempt e' og b r label pin df v0 hw0 = ((sig, serial, None), v', b', hw')"
    unfolding Sign_def by (auto split: prod.splits option.splits if_splits)
  from signAttempt_signed [OF this] show "\<exists>cert dg v0. df serial cert v0 = (Inr dg, v')" by blast
qed

interpretation cf: serial_signer card_free_signer
  by unfold_locales (simp add: card_free_signer_def)

subsection \<open>What an operation does to the card\<close>

definition is_prompt :: "hw_event \<Rightarrow> bool" where
  "is_prompt ev = (case ev of Prompted _ \<Rightarrow> True | _ \<Rightarrow> False)"

text \<open>The events \<open>t\<close> an operation may add.\<close>

definition events_ok :: "string \<Rightarrow> 'v digest_for \<Rightarrow> nat \<Rightarrow> hw_event list \<Rightarrow> bool" where
  "events_ok label df n t \<longleftrightarrow>
     length (filter is_prompt t) \<le> n \<and> (\<forall>s r. PinTried s r \<in> set t \<longrightarrow> 1 < r) \<and>
     (\<forall>m. Prompted m \<in> set t \<longrightarrow> m = ''Touch YubiKey to sign '' @ label) \<and>
     (\<forall>s d. SignRequested s d \<in> set t \<longrightarrow> (\<exists>cert v0 v1. df s cert v0 = (Inr d, v1)))"

definition adds :: "string \<Rightarrow> 'v digest_for \<Rightarrow> nat \<Rightarrow> hardware \<Rightarrow> hardware \<Rightarrow> bool" where
  "adds label df n hw hw' \<longleftrightarrow> (\<exists>t. hw_trace hw' = hw_trace hw @ t \<and> events_ok label df n t)"

lemma adds_refl: "hw_trace hw' = hw_trace hw \<Longrightarrow> adds label df n hw hw'"
  by (simp add: adds_def events_ok_def)

lemma adds_trans: "adds label df n hw hw1 \<Longrightarrow> adds label df m hw1 hw2 \<Longrightarrow> adds label df (n + m) hw hw2"
  unfolding adds_def events_ok_def by (elim exE conjE, rule exI [of _ "_ @ _"]) auto

lemma acquireCard_frame:
  "acquireCard env og b hw = Some (r, b', hw') \<Longrightarrow> hw_trace hw' = hw_trace hw \<and> hw_verified hw' = hw_verified hw"
  by (auto simp: acquireCard_def Let_def split: sum.splits option.splits if_splits prod.splits)

lemma verifyCachedPIN_facts:
  "verifyCachedPIN yk serial pin hw = (err, hw') \<Longrightarrow>
     (hw_trace hw' = hw_trace hw \<or> (\<exists>r. 1 < r \<and> hw_trace hw' = hw_trace hw @ [PinTried serial r])) \<and>
     (err = None \<longrightarrow> hw_verified hw' = serial)"
  by (auto simp: verifyCachedPIN_def tryPIN_def split: sum.splits option.splits if_splits prod.splits)

lemma useCard_adds:
  assumes "useCard remaining res label pin df session v hw = ((sig, serial, err), v', hw')"
  shows "adds label df 1 hw hw' \<and> (serial \<noteq> 0 \<longrightarrow> hw_verified hw' = serial)"
proof (cases "\<exists>cert pub dg v1 hw1. cd_cert (os_card session) = Inr cert \<and> wifPublicKey cert = Inr pub \<and>
    df (os_serial session) cert v = (Inr dg, v1) \<and> verifyCachedPIN (os_card session) (os_serial session) pin hw = (None, hw1)")
  case False
  then have "serial = 0 \<and> (hw' = hw \<or> (\<exists>e. verifyCachedPIN (os_card session) (os_serial session) pin hw = (Some e, hw')))"
    using assms unfolding useCard_def Let_def by (auto split: sum.splits prod.splits option.splits)
  then show ?thesis
  proof (elim conjE disjE exE)
    fix e assume "serial = 0" and c: "verifyCachedPIN (os_card session) (os_serial session) pin hw = (Some e, hw')"
    from verifyCachedPIN_facts [OF c] \<open>serial = 0\<close> show ?thesis
      by (auto simp: adds_def events_ok_def is_prompt_def)
  qed (simp add: adds_refl)
next
  case True
  then obtain cert pub dg v1 hw1 where c: "cd_cert (os_card session) = Inr cert" "wifPublicKey cert = Inr pub"
    and d: "df (os_serial session) cert v = (Inr dg, v1)"
    and p: "verifyCachedPIN (os_card session) (os_serial session) pin hw = (None, hw1)" by blast
  let ?ev = "[Prompted (''Touch YubiKey to sign '' @ label), SignRequested (os_serial session) dg]"
  have r: "serial = os_serial session \<and> (hw' = hw1 \<or> hw' = hw1\<lparr>hw_trace := hw_trace hw1 @ ?ev\<rparr>)"
    using assms unfolding useCard_def Let_def by (auto simp: c d p split: sum.splits option.splits if_splits)
  from verifyCachedPIN_facts [OF p] have t: "hw_verified hw1 = os_serial session"
      "hw_trace hw1 = hw_trace hw \<or> (\<exists>r. 1 < r \<and> hw_trace hw1 = hw_trace hw @ [PinTried (os_serial session) r])" by simp_all
  from r have "hw_verified hw' = os_serial session" using t(1) by auto
  moreover have "adds label df 0 hw hw1" using t(2) by (auto simp: adds_def events_ok_def is_prompt_def)
  moreover have "events_ok label df 1 ?ev" using d unfolding events_ok_def by (simp add: is_prompt_def) blast
  then have "adds label df 1 hw1 hw'"
    using r by (elim conjE disjE) (simp_all add: adds_refl, simp add: adds_def)
  ultimately show ?thesis using r adds_trans [of label df 0 hw hw1 1 hw'] by simp
qed

lemma signAttempt_adds:
  assumes "signAttempt env og b res label pin df v hw = ((sig, serial, err), v', b', hw')"
  shows "adds label df 1 hw hw' \<and> (serial \<noteq> 0 \<longrightarrow> hw_verified hw' = serial)"
proof (cases "acquireCard (at_acquire env) og b hw")
  case None
  with assms show ?thesis by (simp add: signAttempt_def adds_refl)
next
  case (Some p)
  obtain a b1 hw1 where p: "p = (a, b1, hw1)" by (cases p)
  from acquireCard_frame [OF Some [unfolded p]] have f: "hw_trace hw1 = hw_trace hw" "hw_verified hw1 = hw_verified hw" by simp_all
  show ?thesis
  proof (cases a)
    case (Inl e)
    with assms Some p f show ?thesis by (auto simp: signAttempt_def Let_def intro: adds_refl split: option.splits)
  next
    case (Inr session)
    obtain sig1 serial1 err1 v2 hw2 where u: "useCard (at_remaining env) res label pin df session v hw1 = ((sig1, serial1, err1), v2, hw2)"
      by (metis prod.exhaust)
    have "hw' = hw2" and "serial = 0 \<or> serial = serial1"
      using assms by (auto simp: signAttempt_def Some p Inr u Let_def split: option.splits)
    with useCard_adds [OF u] f show ?thesis by (auto simp: adds_def)
  qed
qed


definition demo_hardware :: hardware where
  "demo_hardware = \<lparr>hw_serials = [7], hw_min_touch = 0, hw_min_retry_touch = 0, hw_recovery_grace = 0,
     hw_recovery_limit = 0, hw_verified = 0, hw_handoffs = [], hw_trace = [], hw_sequence = 0\<rparr>"

definition demo_acquire :: acquire_env where
  "demo_acquire = \<lparr>ae_listed = Inr [''r''], ae_opener = (\<lambda>_. Inr demo_card), ae_open_cancelled = None, ae_now = 0,
     ae_started = 0, ae_self = False, ae_rounds = [],
     ae_end = \<lparr>ee_cooldown_now = 0, ee_now = 0, ee_self = False, ee_blocked = 0, ee_workers = 0\<rparr>\<rparr>"

definition demo_sign_env :: sign_env where
  "demo_sign_env = (let a = \<lparr>at_acquire = demo_acquire, at_remaining = 20 * second, at_cancelled = None\<rparr> in
     \<lparr>sg_lease = None, sg_blocked = 0, sg_first = a, sg_second = a\<rparr>)"

lemma wifPublicKey_demo: "wifPublicKey demo_cert = Inr demo_pub"
  using RSAPublicKey_demo by (auto simp: wifPublicKey_def RSAPublicKey_def rsaPublicExponent_def split: public_key.splits if_splits)

lemma Sign_demo:
  assumes "\<And>v. df 7 demo_cert v = (Inr (dg v), g v)"
  shows "Sign demo_sign_env demo_hardware op label pin df v =
    ((dg v, 7, None), g v, demo_hardware\<lparr>hw_verified := 7, hw_sequence := (if oc_id op = [] then 1 else 0),
       hw_trace := [PinTried 7 3, Prompted (''Touch YubiKey to sign '' @ label), SignRequested 7 (dg v)]\<rparr>)"
  unfolding Sign_def operationFrom_def demo_sign_env_def Let_def
  by (simp add: acquireLease_def signAttempt_def acquireCard_def openSelectedContext_def demo_acquire_def demo_hardware_def
      openSelectedUntracked_def demo_card_def useCard_def Let_def wifPublicKey_demo assms verifyCachedPIN_def tryPIN_def
      minimum_touch_def retried_def)


end
