(* ===== verification/Core_Mint.thy ===== *)
theory Core_Mint
  imports Core_Policy Signer
begin

text \<open>
  \<open>Core.Unlock\<close>, \<open>Core.Lock\<close> and the local branch of \<open>Core.SubjectToken\<close>. A mint is the
  composition of the critical sections and probes the code runs in order (\<open>prepareMint\<close>
  before \<open>mintMu\<close>; then lookup, presence probe, serve, take the PIN, sign, record, keep); the
  clock readings, the random bytes, the reader lists and the signer are its environment
  \<open>mint_env\<close>. \<open>Core_Steps\<close> interleaves the same sections with other requests.
\<close>

subsection \<open>The environment of one mint\<close>

text \<open>What the reader lister answers: \<open>None\<close> when the signer cannot enumerate readers.\<close>

type_synonym readers = "(gerror + string list) option"

record mint_vars =
  mv_input :: string
  mv_claims :: claims
  mv_kid :: string
  mv_spki :: bytes

record mint_env =
  me_arrival :: gotime
  me_serve_now :: gotime
  me_probe :: readers
  me_now :: gotime
  me_random :: "bytes res"
  me_sign :: "mint_vars signer"
  me_completed :: gotime
  me_snapshot :: readers

subsection \<open>Readers\<close>

definition readerSnapshot :: "readers \<Rightarrow> string list \<times> bool \<times> gerror option" where
  "readerSnapshot r =
     (case r of
        None \<Rightarrow> ([], False, None)
      | Some (Inl e) \<Rightarrow> ([], True, Some e)
      | Some (Inr live) \<Rightarrow> (sort live, True, None))"

definition cardUnchanged :: "readers \<Rightarrow> string list \<Rightarrow> bool" where
  "cardUnchanged r snapshot =
     (case readerSnapshot r of
        (names, supported, err) \<Rightarrow>
          if \<not> supported then True else if err \<noteq> None then False else names = snapshot)"

subsection \<open>Unlock and Lock\<close>

text \<open>\<open>Unlock\<close>: the second argument is what the signer's \<open>VerifyPIN\<close> returned.\<close>

definition Unlock :: "string \<Rightarrow> u32 \<times> int \<times> gerror option \<Rightarrow> core \<Rightarrow> (int \<times> gerror option) \<times> core" where
  "Unlock pin verified c =
     (if pin = [] then ((-1, Some (ErrText ''PIN must not be empty'')), c)
      else if CardFree (c_cfg c)
      then ((-1, Some (CardFreeError ''verify a PIV PIN''
        ''run `pivb unlock` on the provider host that holds the YubiKey; a card-free origin caches no PIN'')), c)
      else case verified of
          (serial, retries, Some e) \<Rightarrow> ((retries, Some e), c)
        | (serial, retries, None) \<Rightarrow>
            let c1 = clearPIN c;
                (a, c2) = alloc pin c1;
                c3 = c2\<lparr>c_pin := Some a, c_pin_serial := serial\<rparr>
            in ((retries, None), snd (purgeOtherSerials serial c3)))"

definition Lock :: "core \<Rightarrow> core" where
  "Lock c = snd (purgeAll ((clearPIN c)\<lparr>c_last := None\<rparr>))"

definition takePIN :: "core \<Rightarrow> addr res \<times> core" where
  "takePIN c =
     (case c_pin c of
        None \<Rightarrow> (Inl ErrLocked, c)
      | Some p \<Rightarrow>
          if buffer c p = [] then (Inl ErrLocked, c)
          else
            let (a, c1) = alloc (buffer c p) c in
            (Inr a, if cf_pin_cache (c_cfg c1) = ''never'' then clearPIN c1 else c1))"

definition recordPINVerification :: "u32 \<Rightarrow> gerror option \<Rightarrow> core \<Rightarrow> core" where
  "recordPINVerification serial signErr c =
     (case (case signErr of Some e \<Rightarrow> errors_as node_pin e | None \<Rightarrow> None) of
        Some (_, _, _, clear) \<Rightarrow> if clear then snd (purgeAll (clearPIN c)) else c
      | None \<Rightarrow>
          if serial \<noteq> 0 \<and> c_pin c \<noteq> None \<and> buffer c (the (c_pin c)) \<noteq> []
          then snd (purgeOtherSerials serial (c\<lparr>c_pin_serial := serial\<rparr>))
          else c)"

subsection \<open>Before the queue\<close>

record mint_ctx =
  mx_req :: request
  mx_alias :: alias_config
  mx_key :: reuse_key
  mx_arrival :: gotime
  mx_reuse :: duration
  mx_lifetime :: duration
  mx_granted_s :: int
  mx_granted_deadline :: gotime
  mx_op :: op_context

definition operationFor :: "request \<Rightarrow> op_context" where
  "operationFor req =
     (let lease = (fc_operation (rq_context req) \<noteq> []) in
      if fc_operation (rq_context req) \<noteq> []
      then \<lparr>oc_origin = OriginForwarded, oc_id = fc_operation (rq_context req), oc_require_lease = lease\<rparr>
      else if src_kind (rq_source req) = KindAgentSession
      then \<lparr>oc_origin = OriginAgentSession, oc_id = src_session (rq_source req), oc_require_lease = lease\<rparr>
      else \<lparr>oc_origin = OriginLocalWIF, oc_id = [], oc_require_lease = lease\<rparr>)"

text \<open>The checks of the local branch, in order, up to the lock.\<close>

definition prepareMint :: "config \<Rightarrow> request \<Rightarrow> gotime \<Rightarrow> mint_ctx res" where
  "prepareMint cfg req arrival =
     (if rq_route_socket req \<noteq> []
      then Inl (PolicyError ''local-allowed request cannot select a workspace route'')
      else if CardFree cfg
      then Inl (CardFreeError ''mint a locally signed subject token''
        (''run the workload in a ZKA route-required workspace, or configure card = '' @ go_quote ''local''
          @ '' on the host that holds the YubiKey''))
      else case source_Validate (rq_source req) (rq_alias req) of
          Inl e \<Rightarrow> Inl (RequestSource e)
        | Inr (source, _) \<Rightarrow>
            let req1 = req\<lparr>rq_source := source\<rparr> in
            (case map_of (cf_aliases cfg) (rq_alias req1) of
               None \<Rightarrow> Inl (UnknownAlias (rq_alias req1))
             | Some alias \<Rightarrow>
                 if rq_audience req1 \<noteq> ExternalAccountAudience (Provider cfg)
                 then Inl (RequestMismatch ''external_account_audience'' (rq_audience req1)
                   (ExternalAccountAudience (Provider cfg)))
                 else if rq_email req1 \<noteq> al_target alias
                 then Inl (RequestMismatch ''impersonated_email'' (rq_email req1) (al_target alias))
                 else case grantedWindow cfg (rq_context req1) arrival of
                     Inl e \<Rightarrow> Inl e
                   | Inr (s, d) \<Rightarrow>
                       Inr \<lparr>mx_req = req1, mx_alias = alias, mx_key = reuseKeyFor req1 alias, mx_arrival = arrival,
                            mx_reuse = dur_seconds (al_reuse_s alias), mx_lifetime = aliasAssertionLifetime alias,
                            mx_granted_s = s, mx_granted_deadline = d, mx_op = operationFor req1\<rparr>))"

subsection \<open>Serving what was already authorised\<close>

definition admits :: "bool \<Rightarrow> gotime \<Rightarrow> duration \<Rightarrow> gotime \<Rightarrow> cache_entry \<Rightarrow> bool" where
  "admits single arrival reuse now e \<longleftrightarrow>
     time_sub (ce_expires e) now \<ge> reuseValidityFloor \<and>
     ((single \<and> \<not> ce_completed e < arrival) \<or>
      (reuse > 0 \<and> time_sub now (ce_completed e) \<le> reuse \<and> now < ce_window_ends e))"

definition serveLookup :: "mint_ctx \<Rightarrow> gotime \<Rightarrow> core \<Rightarrow> cache_entry option" where
  "serveLookup mx now c =
     (case map_of (c_cache c) (mx_key mx) of
        None \<Rightarrow> None
      | Some e \<Rightarrow> if admits (c_single c) (mx_arrival mx) (mx_reuse mx) now e then Some e else None)"

definition serveFinish :: "mint_ctx \<Rightarrow> gotime \<Rightarrow> cache_entry \<Rightarrow> core \<Rightarrow> token_result option \<times> core" where
  "serveFinish mx now entry c =
     (case map_of (c_cache c) (mx_key mx) of
        None \<Rightarrow> (None, c)
      | Some e \<Rightarrow>
          if ce_token e \<noteq> ce_token entry then (None, c)
          else
            let req = mx_req mx in
            (Some \<lparr>st_token = buffer c (ce_token e), st_expires = ce_expires e, st_serial = ce_serial e,
                   st_key_id = ce_key_id e, st_spki = ce_spki e, st_context = rq_context req, st_reused = True,
                   st_granted_s = mx_granted_s mx, st_granted_deadline = unixOrZero (mx_granted_deadline mx)\<rparr>,
             recordMint \<lparr>mr_at = now, mr_alias = rq_alias req, mr_session = src_session (rq_source req),
                         mr_reused = True, mr_forwarded = False\<rparr> c))"

definition serveAuthorised :: "mint_ctx \<Rightarrow> gotime \<Rightarrow> readers \<Rightarrow> core \<Rightarrow> token_result option \<times> core" where
  "serveAuthorised mx now probe c =
     (case serveLookup mx now c of
        None \<Rightarrow> (None, c)
      | Some entry \<Rightarrow>
          if \<not> cardUnchanged probe (ce_readers entry) then (None, dropEntry (mx_key mx) c)
          else serveFinish mx now entry c)"

subsection \<open>Signing\<close>

text \<open>The closure \<open>digestFor\<close>: it binds the claims to the card of the live session, or refuses it.\<close>

definition digestFor :: "crypto \<Rightarrow> config \<Rightarrow> mint_ctx \<Rightarrow> gotime \<Rightarrow> string \<Rightarrow> mint_vars digest_for" where
  "digestFor cr cfg mx now jti serial cert v =
     (let req = mx_req mx; s = serial_text serial in
      case map_of (KeysBySerial cfg) serial of
        None \<Rightarrow> (Inl (ErrText (''YubiKey '' @ s @ '' is not enrolled; add [keys.'' @ s @ ''] to the configuration'')), v)
      | Some key \<Rightarrow>
          (case CertificateKeyID cr cert of
             Inl e \<Rightarrow> (Inl e, v)
           | Inr kid \<Rightarrow>
               if kid \<noteq> kc_jwk_kid key
               then (Inl (ErrText (''live slot 9c key on YubiKey '' @ s @ '' derives jwk_kid '' @ go_quote kid
                 @ '' but configuration expects '' @ go_quote (kc_jwk_kid key)
                 @ ''; a replaced key must be deliberately re-enrolled'')), v)
               else if ci_serial (rq_card req) \<noteq> 0 \<and> (serial \<noteq> ci_serial (rq_card req) \<or> kid \<noteq> ci_key_id (rq_card req))
               then (Inl (ErrText (''live YubiKey identity '' @ s @ ''/'' @ kid @ '' does not match claimed identity ''
                 @ serial_text (ci_serial (rq_card req)) @ ''/'' @ ci_key_id (rq_card req)
                 @ ''; re-claim the PIVB credential bundle'')), v)
               else if ci_spki (rq_card req) \<noteq> [] \<and> \<not> equalBytes (ct_raw_spki cert) (ci_spki (rq_card req))
               then (Inl (ErrText (''live slot 9c public key on YubiKey '' @ s
                 @ '' does not match the claimed PIVB provider'')), v)
               else (case NewClaims (Provider cfg) (rq_alias req) (al_target (mx_alias mx)) serial kid jti now (mx_lifetime mx) of
                   Inl e \<Rightarrow> (Inl e, v\<lparr>mv_claims := empty_claims\<rparr>)
                 | Inr claims \<Rightarrow>
                     (case SigningInput claims of
                        Inl e \<Rightarrow> (Inl e, v\<lparr>mv_claims := claims, mv_input := []\<rparr>)
                      | Inr input \<Rightarrow>
                          (Inr (SigningDigest cr input),
                           v\<lparr>mv_claims := claims, mv_input := input, mv_kid := kid, mv_spki := ct_raw_spki cert\<rparr>)))))"

definition no_vars :: mint_vars where
  "no_vars = \<lparr>mv_input = [], mv_claims = empty_claims, mv_kid = [], mv_spki = []\<rparr>"

definition newCacheEntry :: "mint_ctx \<Rightarrow> string \<Rightarrow> gotime \<Rightarrow> gotime \<Rightarrow> u32 \<Rightarrow> string \<Rightarrow> bytes \<Rightarrow> readers \<Rightarrow> core \<Rightarrow>
    cache_entry option \<times> core" where
  "newCacheEntry mx token expiresAt completedAt serial kid spki snapshot c =
     (if \<not> c_single c \<and> mx_reuse mx = 0 then (None, c)
      else case readerSnapshot snapshot of
          (names, supported, err) \<Rightarrow>
            if supported \<and> err \<noteq> None then (None, c)
            else
              let (a, c1) = alloc token c in
              (Some \<lparr>ce_key = mx_key mx, ce_token = a, ce_completed = completedAt, ce_expires = expiresAt,
                     ce_serial = serial, ce_key_id = kid, ce_spki = spki, ce_readers = names,
                     ce_window_ends = touchFreeUntil completedAt (mx_reuse mx) (mx_granted_deadline mx),
                     ce_notified_pre = False, ce_notified_expired = False\<rparr>, c1))"

text \<open>After \<open>Sign\<close>: the checks on what it returned and the assembled token.\<close>

definition assembleMint :: "bytes \<Rightarrow> gerror option \<Rightarrow> mint_vars \<Rightarrow> string res" where
  "assembleMint sig err v =
     (case err of
        Some e \<Rightarrow> Inl e
      | None \<Rightarrow>
          if mv_input v = [] then Inl (ErrText ''signer returned without requesting a serial-bound digest'')
          else Assemble (mv_input v) sig)"

definition keepMint :: "mint_ctx \<Rightarrow> gotime \<Rightarrow> u32 \<Rightarrow> string \<Rightarrow> cache_entry option \<Rightarrow> core \<Rightarrow> core" where
  "keepMint mx now serial kid entry c =
     (let req = mx_req mx;
          route = (if fc_operation (rq_context req) \<noteq> [] then ''zka-workspace-provider'' else ''local'');
          c1 = c\<lparr>c_last := Some \<lparr>se_alias = rq_alias req, se_target = al_target (mx_alias mx), se_serial = serial,
                 se_key_id = kid, se_at = now, se_route = route, se_context = rq_context req\<rparr>\<rparr>;
          c2 = recordMint \<lparr>mr_at = now, mr_alias = rq_alias req, mr_session = src_session (rq_source req),
                 mr_reused = False, mr_forwarded = False\<rparr> c1;
          (inserted, c3) = insert_entry entry c2
      in if inserted then wakeNotifier c3 else c3)"

definition mintResult :: "mint_ctx \<Rightarrow> string \<Rightarrow> u32 \<Rightarrow> mint_vars \<Rightarrow> token_result" where
  "mintResult mx token serial v =
     \<lparr>st_token = token, st_expires = ExpiresAt (mv_claims v), st_serial = serial, st_key_id = mv_kid v,
      st_spki = mv_spki v, st_context = no_context, st_reused = False, st_granted_s = mx_granted_s mx,
      st_granted_deadline = unixOrZero (mx_granted_deadline mx)\<rparr>"

text \<open>The card section of a mint, from taking the PIN to returning.\<close>

definition signMint :: "crypto \<Rightarrow> mint_env \<Rightarrow> mint_ctx \<Rightarrow> core \<Rightarrow> token_result res \<times> core" where
  "signMint cr env mx c =
     (case takePIN c of
        (Inl e, c1) \<Rightarrow> (Inl e, c1)
      | (Inr pin, c1) \<Rightarrow>
          (case NewJTI (me_random env) of
             Inl e \<Rightarrow> (Inl e, zero pin c1)
           | Inr jti \<Rightarrow>
               let now = me_now env;
                   label = signingLabel (mx_req mx) (al_target (mx_alias mx)) (mx_reuse mx) (mx_lifetime mx);
                   c2 = beginPendingMint (mx_key mx) c1;
                   ((sig, serial, err), v) = me_sign env (mx_op mx) label (buffer c2 pin)
                     (digestFor cr (c_cfg c2) mx now jti) no_vars;
                   c3 = recordPINVerification serial err c2
               in case assembleMint sig err v of
                   Inl e \<Rightarrow> (Inl e, zero pin (endPendingMint c3))
                 | Inr token \<Rightarrow>
                     let (entry, c4) = newCacheEntry mx token (ExpiresAt (mv_claims v)) (me_completed env) serial
                           (mv_kid v) (mv_spki v) (me_snapshot env) c3;
                         c5 = keepMint mx now serial (mv_kid v) entry c4
                     in (Inr (mintResult mx token serial v), zero pin (endPendingMint c5))))"

definition LocalSubjectToken :: "crypto \<Rightarrow> mint_env \<Rightarrow> request \<Rightarrow> core \<Rightarrow> token_result res \<times> core" where
  "LocalSubjectToken cr env req c =
     (case prepareMint (c_cfg c) req (me_arrival env) of
        Inl e \<Rightarrow> (Inl e, c)
      | Inr mx \<Rightarrow>
          (case serveAuthorised mx (me_serve_now env) (me_probe env) c of
             (Some r, c1) \<Rightarrow> (Inr r, c1)
           | (None, c1) \<Rightarrow> signMint cr env mx c1))"

end
