(* ===== verification/Core_Inv.thy ===== *)
theory Core_Inv
  imports Core_Mint
begin

text \<open>
  What every operation of the core keeps: the heap and the cache stay well formed, every
  buffer no longer referenced has been overwritten with zeros, every cached assertion is
  the one a touch authorised for its own request tuple, and while a PIN is cached every
  cached assertion comes from the card it was verified on. The signer's contract is a
  locale; \<open>Signer\<close> interprets it on the hardware and the card-free signer.
\<close>

subsection \<open>The heap invariant\<close>

definition core_inv :: "addr set \<Rightarrow> core \<Rightarrow> bool" where
  "core_inv L c \<longleftrightarrow> core_wf c \<and> marks_ok c \<and> zeroized L c"

lemma core_inv_New: "core_inv {} (New cfg version)"
  by (simp add: core_inv_def wf_New) (simp add: marks_ok_def New_def)

text \<open>The fields the invariant reads.\<close>

lemma core_inv_cong:
  assumes "c_bufs c' = c_bufs c" and "c_pin c' = c_pin c" and "c_cache c' = c_cache c"
    and "c_invalidated c' = c_invalidated c" and "length (c_ring c') \<le> mintRingCap"
  shows "core_inv L c \<Longrightarrow> core_inv L c'"
proof -
  have b: "buffer c' = buffer c" by (rule ext) (simp add: buffer_def assms(1))
  have t: "tokens c' = tokens c" by (simp add: tokens_def assms(3))
  assume "core_inv L c"
  then show ?thesis
    unfolding core_inv_def core_wf_def core_shape_def core_bounds_def marks_ok_def zeroized_def b t assms(1-4)
    using assms(5) by simp
qed

lemma core_inv_ring: "core_inv L c \<Longrightarrow> length (c_ring c) \<le> mintRingCap"
  by (simp add: core_inv_def core_wf_def core_bounds_def)

lemma core_inv_last [simp]: "core_inv L (c\<lparr>c_last := x\<rparr>) = core_inv L c"
  and core_inv_pending [simp]: "core_inv L (c\<lparr>c_pending := y\<rparr>) = core_inv L c"
  and core_inv_serial [simp]: "core_inv L (c\<lparr>c_pin_serial := z\<rparr>) = core_inv L c"
  and core_inv_wake [simp]: "core_inv L (wakeNotifier c) = core_inv L c"
  by (auto simp: core_inv_def core_wf_def core_shape_def core_bounds_def marks_ok_def zeroized_def tokens_def)

lemma alloc_inv:
  assumes "core_inv L c" and "alloc b c = (a, c')"
  shows "core_inv (insert a L) c' \<and> a = length (c_bufs c) \<and> a < length (c_bufs c') \<and>
    a \<notin> set (tokens c') \<and> c_pin c' \<noteq> Some a \<and> buffer c' a = b \<and> c' = c\<lparr>c_bufs := c_bufs c @ [b]\<rparr>"
proof -
  from assms(2) have a: "a = length (c_bufs c)" and c': "c' = c\<lparr>c_bufs := c_bufs c @ [b]\<rparr>"
    by (simp_all add: alloc_def)
  have t: "tokens c' = tokens c" by (simp add: c' tokens_def)
  from assms(1) have s: "core_shape c" "core_bounds c" "marks_ok c" "zeroized L c"
    by (simp_all add: core_inv_def core_wf_def)
  have lt: "\<forall>x\<in>set (tokens c). x < length (c_bufs c)"
    using s(1) by (auto simp: core_shape_def tokens_def)
  have pin: "\<forall>p. c_pin c = Some p \<longrightarrow> p < length (c_bufs c)" using s(1) by (simp add: core_shape_def)
  have buf: "x \<noteq> a \<Longrightarrow> buffer c' x = buffer c x" for x by (simp add: buffer_def c' a nth_append)
  have "core_shape c'" using s(1) unfolding core_shape_def t by (auto simp: c')
  moreover have "core_bounds c'" "marks_ok c'" using s by (simp_all add: core_bounds_def marks_ok_def c')
  moreover have "zeroized (insert a L) c'"
    using s(4) buf by (auto simp: zeroized_def t) (simp_all add: c')
  ultimately have "core_inv (insert a L) c'" by (simp add: core_inv_def core_wf_def)
  moreover have "a \<notin> set (tokens c')" using lt a t by auto
  moreover have "c_pin c' \<noteq> Some a" using pin a by (auto simp: c')
  moreover have "buffer c' a = b" by (simp add: buffer_def c' a)
  ultimately show ?thesis using a c' by simp
qed

lemma zero_inv: "core_inv (insert a L) c \<Longrightarrow> core_inv L (zero a c)"
  by (auto simp: core_inv_def core_wf_def core_shape_def core_bounds_def marks_ok_def zeroized_def tokens_def)

lemma zero_inv': "core_inv L c \<Longrightarrow> core_inv L (zero a c)"
  by (auto simp: core_inv_def core_wf_def core_shape_def core_bounds_def marks_ok_def zeroized_def tokens_def)

lemma core_inv_mono: "core_inv L c \<Longrightarrow> L \<subseteq> L' \<Longrightarrow> core_inv L' c"
  by (auto simp: core_inv_def zeroized_def)

lemma clearPIN_eq:
  "clearPIN c = (case c_pin c of Some a \<Rightarrow> zero a c | None \<Rightarrow> c)\<lparr>c_pin := None, c_pin_serial := 0\<rparr>"
  by (simp add: clearPIN_def)

lemma clearPIN_frame [simp]:
  "c_cfg (clearPIN c) = c_cfg c" "c_cache (clearPIN c) = c_cache c" "c_pin (clearPIN c) = None"
  "c_pin_serial (clearPIN c) = 0" "c_last (clearPIN c) = c_last c" "c_ring (clearPIN c) = c_ring c"
  "c_invalidated (clearPIN c) = c_invalidated c" "c_pending (clearPIN c) = c_pending c"
  "c_single (clearPIN c) = c_single c" "length (c_bufs (clearPIN c)) = length (c_bufs c)"
  "tokens (clearPIN c) = tokens c"
  by (simp_all add: clearPIN_def tokens_def split: option.split)

lemma clearPIN_inv: "core_inv L c \<Longrightarrow> core_inv L (clearPIN c)"
proof (cases "c_pin c")
  case None
  then have "clearPIN c = c\<lparr>c_pin := None, c_pin_serial := 0\<rparr>" by (simp add: clearPIN_def)
  moreover assume "core_inv L c"
  ultimately show ?thesis
    using None by (auto simp: core_inv_def core_wf_def core_shape_def core_bounds_def marks_ok_def zeroized_def tokens_def)
next
  case (Some p)
  assume c: "core_inv L c"
  have "zeroized L (clearPIN c)"
    using c Some by (auto simp: clearPIN_def core_inv_def zeroized_def tokens_def)
  with c show ?thesis
    by (auto simp: core_inv_def core_wf_def core_shape_def core_bounds_def marks_ok_def)
qed

lemma buffer_clearPIN: "c_pin c \<noteq> Some a \<Longrightarrow> buffer (clearPIN c) a = buffer c a"
  by (auto simp: clearPIN_def split: option.split)

lemma set_pin_inv:
  "core_inv (insert a L) c \<Longrightarrow> c_pin c = None \<Longrightarrow> a < length (c_bufs c) \<Longrightarrow> a \<notin> set (tokens c) \<Longrightarrow>
     core_inv L (c\<lparr>c_pin := Some a, c_pin_serial := s\<rparr>)"
  by (auto simp: core_inv_def core_wf_def core_shape_def core_bounds_def marks_ok_def zeroized_def tokens_def)

lemma purge_where_inv: "core_inv L c \<Longrightarrow> core_inv L (snd (purge_where P c))"
  by (simp add: core_inv_def core_wf_purge_where zeroized_purge_where marks_ok_def)

lemma dropEntry_inv: "core_inv L c \<Longrightarrow> core_inv L (dropEntry k c)"
proof -
  assume c: "core_inv L c"
  have "marks_ok (dropEntry k c) = marks_ok c"
    by (simp add: marks_ok_def dropEntry_def split: option.split)
  with c show ?thesis by (simp add: core_inv_def core_wf_dropEntry zeroized_dropEntry)
qed

lemma recordMint_inv: "core_inv L c \<Longrightarrow> core_inv L (recordMint r c)"
  by (simp add: core_inv_def core_wf_recordMint)

lemma insert_inv:
  assumes "core_inv (insert (ce_token e) L) c" and "ce_token e < length (c_bufs c)"
    and "ce_token e \<notin> set (tokens c)" and "c_pin c \<noteq> Some (ce_token e)"
  shows "core_inv L (snd (insert_entry (Some e) c))"
proof -
  have m: "c_invalidated (snd (insert_entry (Some e) c)) = c_invalidated c"
  proof (cases "watermarked (ce_key e) c")
    case False
    from assms have w: "core_wf c" "zeroized (insert (ce_token e) L) c" by (simp_all add: core_inv_def)
    note i = insert_shape [OF w assms(2-4) False]
    from evict_spec [OF i(2,3)] show ?thesis by (simp add: i(1) evicted_to_def)
  qed (simp add: insert_entry_def)
  from assms core_wf_insert [of c e L] show ?thesis
    by (auto simp: core_inv_def marks_ok_def m)
qed

subsection \<open>The operations keep it\<close>

lemma Unlock_inv: "core_inv {} c \<Longrightarrow> core_inv {} (snd (Unlock pin verified c))"
proof -
  assume c: "core_inv {} c"
  obtain serial retries err where v: "verified = (serial, retries, err)" by (cases verified)
  obtain a c2 where a: "alloc pin (clearPIN c) = (a, c2)" by (cases "alloc pin (clearPIN c)")
  from alloc_inv [OF clearPIN_inv [OF c] a] have "core_inv {} (c2\<lparr>c_pin := Some a, c_pin_serial := serial\<rparr>)"
    by (intro set_pin_inv) auto
  then show ?thesis
    using c a by (simp add: Unlock_def v Let_def purgeOtherSerials_def purge_where_inv split: option.split)
qed

lemma Lock_inv: "core_inv {} c \<Longrightarrow> core_inv {} (Lock c)"
  by (simp add: Lock_def purgeAll_def purge_where_inv clearPIN_inv)

lemma takePIN_Inr:
  "takePIN c = (Inr a, c') \<Longrightarrow>
     \<exists>p. c_pin c = Some p \<and> buffer c p \<noteq> [] \<and> a = length (c_bufs c) \<and>
       c' = (let c1 = snd (alloc (buffer c p) c) in if cf_pin_cache (c_cfg c) = ''never'' then clearPIN c1 else c1)"
  by (auto simp: takePIN_def alloc_def Let_def split: option.splits if_splits)

lemma takePIN_inv:
  assumes "core_inv L c"
  shows "case takePIN c of (Inl e, c') \<Rightarrow> c' = c
    | (Inr a, c') \<Rightarrow> core_inv (insert a L) c' \<and> c_cache c' = c_cache c \<and> c_cfg c' = c_cfg c \<and> c_single c' = c_single c \<and>
        a \<notin> set (tokens c') \<and> c_pin c' \<noteq> Some a \<and> a < length (c_bufs c') \<and> (\<forall>t\<in>set (tokens c). buffer c' t = buffer c t)"
proof (cases "takePIN c")
  case (Pair r c')
  show ?thesis
  proof (cases r)
    case (Inl e)
    with Pair show ?thesis by (auto simp: takePIN_def Let_def split: option.splits if_splits prod.splits)
  next
    case (Inr a)
    from takePIN_Inr [OF Pair [unfolded Inr]] obtain p where p: "c_pin c = Some p"
      and a: "a = length (c_bufs c)"
      and c': "c' = (if cf_pin_cache (c_cfg c) = ''never'' then clearPIN (snd (alloc (buffer c p) c)) else snd (alloc (buffer c p) c))"
      by (auto simp: Let_def)
    obtain c1 where al: "alloc (buffer c p) c = (a, c1)" using a by (simp add: alloc_def)
    note i = alloc_inv [OF assms al]
    have tb: "buffer c1 t = buffer c t" if "t \<in> set (tokens c)" for t
    proof -
      have "t < length (c_bufs c)" using that assms by (auto simp: core_inv_def core_wf_def core_shape_def tokens_def)
      then show ?thesis using i by (simp add: buffer_def nth_append)
    qed
    have np: "c_pin c1 \<noteq> Some t" if "t \<in> set (tokens c)" for t
      using that assms i by (auto simp: core_inv_def core_wf_def core_shape_def)
    have t1: "tokens c1 = tokens c" using i by (simp add: tokens_def)
    from i have i1: "core_inv (insert a L) c1" by blast
    then have "core_inv (insert a L) c'" by (simp add: c' al clearPIN_inv)
    moreover have "c_cache c' = c_cache c \<and> c_cfg c' = c_cfg c \<and> c_single c' = c_single c \<and> a \<notin> set (tokens c') \<and>
        c_pin c' \<noteq> Some a \<and> a < length (c_bufs c')"
      using i by (auto simp: c' al)
    moreover have "\<forall>t\<in>set (tokens c). buffer c' t = buffer c t"
      using tb np buffer_clearPIN by (auto simp: c' al)
    ultimately show ?thesis using Pair Inr by simp
  qed
qed

lemma recordPIN_inv: "core_inv L c \<Longrightarrow> core_inv L (recordPINVerification serial err c)"
  by (auto simp: recordPINVerification_def purgeAll_def purgeOtherSerials_def purge_where_inv clearPIN_inv
      split: option.split prod.split)

lemma serveFinish_inv: "core_inv L c \<Longrightarrow> core_inv L (snd (serveFinish mx now e c))"
  by (simp add: serveFinish_def recordMint_inv Let_def split: option.split)

lemma serveAuthorised_inv: "core_inv L c \<Longrightarrow> core_inv L (snd (serveAuthorised mx now probe c))"
  by (simp add: serveAuthorised_def dropEntry_inv serveFinish_inv split: option.split)

lemma recordPIN_frame [simp]:
  "c_cfg (recordPINVerification serial err c) = c_cfg c" "c_single (recordPINVerification serial err c) = c_single c"
  "length (c_bufs (recordPINVerification serial err c)) = length (c_bufs c)"
  by (auto simp: recordPINVerification_def purgeAll_def purgeOtherSerials_def split: option.split prod.split)

lemma newCacheEntry_inv:
  assumes "core_inv L c" and "newCacheEntry mx token x t serial kid spki r c = (entry, c')"
  shows "case entry of None \<Rightarrow> c' = c
    | Some e \<Rightarrow> core_inv (insert (ce_token e) L) c' \<and> ce_token e < length (c_bufs c') \<and> ce_token e \<notin> set (tokens c') \<and>
        c_pin c' \<noteq> Some (ce_token e) \<and> buffer c' (ce_token e) = token \<and> c' = c\<lparr>c_bufs := c_bufs c @ [token]\<rparr> \<and>
        ce_key e = mx_key mx \<and> ce_completed e = t \<and> ce_expires e = x \<and> ce_serial e = serial \<and> ce_key_id e = kid \<and>
        ce_spki e = spki \<and> ce_window_ends e = touchFreeUntil t (mx_reuse mx) (mx_granted_deadline mx)"
proof (cases "alloc token c")
  case (Pair a c1)
  have "entry = None \<and> c' = c \<or> (\<exists>names. c' = c1 \<and> entry = Some \<lparr>ce_key = mx_key mx, ce_token = a, ce_completed = t,
      ce_expires = x, ce_serial = serial, ce_key_id = kid, ce_spki = spki, ce_readers = names,
      ce_window_ends = touchFreeUntil t (mx_reuse mx) (mx_granted_deadline mx),
      ce_notified_pre = False, ce_notified_expired = False\<rparr>)"
    using assms(2) by (auto simp: newCacheEntry_def Pair split: if_splits prod.splits)
  then show ?thesis
  proof (elim disjE exE conjE)
    fix names
    assume "c' = c1" and e: "entry = Some \<lparr>ce_key = mx_key mx, ce_token = a, ce_completed = t,
      ce_expires = x, ce_serial = serial, ce_key_id = kid, ce_spki = spki, ce_readers = names,
      ce_window_ends = touchFreeUntil t (mx_reuse mx) (mx_granted_deadline mx),
      ce_notified_pre = False, ce_notified_expired = False\<rparr>"
    with alloc_inv [OF assms(1) Pair] have "core_inv (insert a L) c'" "a < length (c_bufs c')" "a \<notin> set (tokens c')"
      "c_pin c' \<noteq> Some a" "buffer c' a = token" "c' = c\<lparr>c_bufs := c_bufs c @ [token]\<rparr>" by blast+
    then show ?thesis unfolding e option.case cache_entry.simps by blast
  qed simp
qed

lemma newCacheEntry_live:
  assumes "core_inv L c" and "newCacheEntry mx token x t serial kid spki r c = (entry, c')"
  shows "case entry of None \<Rightarrow> core_inv L c'
    | Some e \<Rightarrow> core_inv (insert (ce_token e) L) c' \<and> ce_token e < length (c_bufs c') \<and> ce_token e \<notin> set (tokens c') \<and>
        c_pin c' \<noteq> Some (ce_token e)"
proof (cases entry)
  case None
  with newCacheEntry_inv [OF assms] assms(1) show ?thesis by simp
next
  case (Some e)
  from newCacheEntry_inv [OF assms] show ?thesis unfolding Some option.case by blast
qed

lemma keepMint_inv:
  assumes "case entry of None \<Rightarrow> core_inv L c
    | Some e \<Rightarrow> core_inv (insert (ce_token e) L) c \<and> ce_token e < length (c_bufs c) \<and> ce_token e \<notin> set (tokens c) \<and>
        c_pin c \<noteq> Some (ce_token e)"
  shows "core_inv L (keepMint mx now serial kid entry c)"
proof (cases entry)
  case None
  with assms show ?thesis by (simp add: keepMint_def Let_def insert_entry_def recordMint_inv)
next
  case (Some e)
  let ?c2 = "recordMint \<lparr>mr_at = now, mr_alias = rq_alias (mx_req mx), mr_session = src_session (rq_source (mx_req mx)),
      mr_reused = False, mr_forwarded = False\<rparr>
    (c\<lparr>c_last := Some \<lparr>se_alias = rq_alias (mx_req mx), se_target = al_target (mx_alias mx), se_serial = serial,
       se_key_id = kid, se_at = now, se_route = (if fc_operation (rq_context (mx_req mx)) \<noteq> [] then ''zka-workspace-provider'' else ''local''),
       se_context = rq_context (mx_req mx)\<rparr>\<rparr>)"
  have t: "tokens ?c2 = tokens c" by (simp add: tokens_def)
  have "core_inv (insert (ce_token e) L) ?c2" using assms by (intro recordMint_inv) (simp add: Some)
  then have "core_inv L (snd (insert_entry (Some e) ?c2))"
    by (rule insert_inv) (use assms t in \<open>simp_all add: Some\<close>)
  then show ?thesis by (simp add: Some keepMint_def Let_def case_prod_unfold)
qed

lemma endPending_inv [simp]: "core_inv L (endPendingMint c) = core_inv L c"
  by (simp add: endPendingMint_def)

lemma beginPending_inv [simp]: "core_inv L (beginPendingMint k c) = core_inv L c"
  by (simp add: beginPendingMint_def)

lemma signMint_inv:
  assumes "core_inv {} c"
  shows "core_inv {} (snd (signMint cr env mx c))"
proof (cases "takePIN c")
  case (Pair r c1)
  note t = takePIN_inv [OF assms, unfolded Pair]
  show ?thesis
  proof (cases r)
    case (Inl e)
    with t assms show ?thesis by (simp add: signMint_def Pair)
  next
    case (Inr pin)
    with t have c1: "core_inv {pin} c1" by simp
    show ?thesis
    proof (cases "NewJTI (me_random env)")
      case (Inl e)
      then show ?thesis by (simp add: signMint_def Pair Inr zero_inv [OF c1])
    next
      case (Inr jti)
      obtain sig serial err v where s: "me_sign env (mx_op mx)
          (signingLabel (mx_req mx) (al_target (mx_alias mx)) (mx_reuse mx) (mx_lifetime mx))
          (buffer (beginPendingMint (mx_key mx) c1) pin)
          (digestFor cr (c_cfg (beginPendingMint (mx_key mx) c1)) mx (me_now env) jti) no_vars = ((sig, serial, err), v)"
        by (metis prod.exhaust)
      let ?c3 = "recordPINVerification serial err (beginPendingMint (mx_key mx) c1)"
      have c3: "core_inv {pin} ?c3" using c1 by (simp add: recordPIN_inv)
      show ?thesis
      proof (cases "assembleMint sig err v")
        case (Inl e)
        have "core_inv {} (zero pin (endPendingMint ?c3))" by (rule zero_inv) (use c3 in simp)
        then show ?thesis by (simp add: signMint_def Pair \<open>r = Inr pin\<close> Inr s Inl Let_def)
      next
        case (Inr token)
        obtain entry c4 where n: "newCacheEntry mx token (ExpiresAt (mv_claims v)) (me_completed env) serial (mv_kid v)
            (mv_spki v) (me_snapshot env) ?c3 = (entry, c4)" by (metis prod.exhaust)
        have "core_inv {pin} (keepMint mx (me_now env) serial (mv_kid v) entry c4)"
          by (rule keepMint_inv) (rule newCacheEntry_live [OF c3 n])
        then have "core_inv {} (zero pin (endPendingMint (keepMint mx (me_now env) serial (mv_kid v) entry c4)))"
          by (intro zero_inv) simp
        then show ?thesis
          by (simp add: signMint_def Pair \<open>r = Inr pin\<close> \<open>NewJTI (me_random env) = Inr jti\<close> s Inr n Let_def)
      qed
    qed
  qed
qed

lemma LocalSubjectToken_inv: "core_inv {} c \<Longrightarrow> core_inv {} (snd (LocalSubjectToken cr env req c))"
proof -
  assume c: "core_inv {} c"
  show ?thesis
  proof (cases "prepareMint (c_cfg c) req (me_arrival env)")
    case (Inr mx)
    from serveAuthorised_inv [OF c, of mx "me_serve_now env" "me_probe env"] Inr show ?thesis
      by (auto simp: LocalSubjectToken_def signMint_inv split: prod.split option.split)
  qed (simp add: LocalSubjectToken_def c)
qed

end
