(* ===== verification/Core_Sign.thy ===== *)
theory Core_Sign
  imports Core_Inv
begin

text \<open>
  What a fresh local mint returns. The signer is any that meets the contract \<open>serial_signer\<close>;
  the lemmas are proved once in its context and reach the hardware and the card-free signer
  through their interpretations.
\<close>

subsection \<open>The digest callback\<close>

text \<open>The claims the callback binds to a card, when it accepts it.\<close>

definition bound_claims :: "crypto \<Rightarrow> config \<Rightarrow> mint_ctx \<Rightarrow> gotime \<Rightarrow> string \<Rightarrow> u32 \<Rightarrow> certificate \<Rightarrow> string \<Rightarrow> claims \<Rightarrow> bool" where
  "bound_claims cr cfg mx now jti serial cert kid c \<longleftrightarrow>
     map_of (KeysBySerial cfg) serial = Some \<lparr>kc_jwk_kid = kid\<rparr> \<and> CertificateKeyID cr cert = Inr kid \<and>
     (ci_serial (rq_card (mx_req mx)) \<noteq> 0 \<longrightarrow> serial = ci_serial (rq_card (mx_req mx)) \<and> kid = ci_key_id (rq_card (mx_req mx))) \<and>
     (ci_spki (rq_card (mx_req mx)) \<noteq> [] \<longrightarrow> ct_raw_spki cert = ci_spki (rq_card (mx_req mx))) \<and>
     NewClaims (Provider cfg) (rq_alias (mx_req mx)) (al_target (mx_alias mx)) serial kid jti now (mx_lifetime mx) = Inr c"

lemma digestFor_Inr:
  "digestFor cr cfg mx now jti serial cert v = (Inr dg, v') \<longleftrightarrow>
     (\<exists>kid c input. bound_claims cr cfg mx now jti serial cert kid c \<and> SigningInput c = Inr input \<and>
        dg = SigningDigest cr input \<and>
        v' = v\<lparr>mv_claims := c, mv_input := input, mv_kid := kid, mv_spki := ct_raw_spki cert\<rparr>)"
  (is "?L = ?R")
proof
  assume ?L
  then obtain key where k: "map_of (KeysBySerial cfg) serial = Some key"
    by (auto simp: digestFor_def Let_def split: option.splits)
  then have "key = \<lparr>kc_jwk_kid = kc_jwk_kid key\<rparr>" by simp
  with \<open>?L\<close> k show ?R
    unfolding digestFor_def Let_def bound_claims_def
    by (auto simp: equalBytes_iff split: option.splits sum.splits if_splits)
next
  assume ?R
  then show ?L
    by (auto simp: digestFor_def bound_claims_def Let_def equalBytes_iff)
qed

lemma SigningInput_nonempty: "SigningInput c = Inr input \<Longrightarrow> input \<noteq> []"
  by (auto simp: SigningInput_def split: if_splits)

subsection \<open>The mint\<close>

text \<open>A token the card has just signed, as the code reports it.\<close>

definition fresh_result :: "crypto \<Rightarrow> config \<Rightarrow> mint_ctx \<Rightarrow> gotime \<Rightarrow> token_result \<Rightarrow> bool" where
  "fresh_result cr cfg mx now r \<longleftrightarrow>
     (\<exists>jti cert c input sig. bound_claims cr cfg mx now jti (st_serial r) cert (st_key_id r) c \<and>
        SigningInput c = Inr input \<and> Assemble input sig = Inr (st_token r) \<and> st_spki r = ct_raw_spki cert \<and>
        st_expires r = ExpiresAt c \<and> \<not> st_reused r)"

lemma takePIN_cfg: "takePIN c = (r, c') \<Longrightarrow> c_cfg c' = c_cfg c"
  by (auto simp: takePIN_def alloc_def clearPIN_def Let_def split: option.splits if_splits)

text \<open>The contract at the variables of the mint's own callback.\<close>

locale mint_signer = serial_signer sign for sign :: "mint_vars signer"
begin

lemma signed_vars:
  assumes "sign op label pin (digestFor cr cfg mx now jti) v0 = ((sig, serial, None), v)"
  shows "\<exists>cert c. bound_claims cr cfg mx now jti serial cert (mv_kid v) c \<and> SigningInput c = Inr (mv_input v) \<and>
    mv_claims v = c \<and> mv_spki v = ct_raw_spki cert"
proof -
  from signed [OF assms] obtain cert dg v1 where "digestFor cr cfg mx now jti serial cert v1 = (Inr dg, v)" by blast
  then show ?thesis unfolding digestFor_Inr by auto
qed

lemma signMint_fresh:
  assumes "signMint cr env mx c = (Inr r, c')" and "me_sign env = sign"
  shows "fresh_result cr (c_cfg c) mx (me_now env) r"
proof -
  from assms(1) obtain pin c1 where t: "takePIN c = (Inr pin, c1)"
    by (auto simp: signMint_def split: prod.splits sum.splits)
  with assms(1) obtain jti where j: "NewJTI (me_random env) = Inr jti"
    by (auto simp: signMint_def split: sum.splits)
  let ?c2 = "beginPendingMint (mx_key mx) c1"
  obtain sig serial err v where s: "sign (mx_op mx)
      (signingLabel (mx_req mx) (al_target (mx_alias mx)) (mx_reuse mx) (mx_lifetime mx)) (buffer ?c2 pin)
      (digestFor cr (c_cfg ?c2) mx (me_now env) jti) no_vars = ((sig, serial, err), v)" by (metis prod.exhaust)
  from assms(1) obtain token where a: "assembleMint sig err v = Inr token"
    unfolding signMint_def t prod.case sum.case j Let_def assms(2) s by (auto split: sum.splits)
  have r: "r = mintResult mx token serial v"
    using assms(1) unfolding signMint_def t prod.case sum.case j Let_def assms(2) s a by (auto split: prod.splits)
  from a have e: "err = None" and k: "Assemble (mv_input v) sig = Inr token"
    by (auto simp: assembleMint_def split: option.splits if_splits)
  have cfg: "c_cfg ?c2 = c_cfg c" using takePIN_cfg [OF t] by (simp add: beginPendingMint_def)
  from signed_vars [OF s [unfolded e cfg]] obtain cert cl where
    "bound_claims cr (c_cfg c) mx (me_now env) jti serial cert (mv_kid v) cl" "SigningInput cl = Inr (mv_input v)"
    "mv_claims v = cl" "mv_spki v = ct_raw_spki cert" by blast
  with k show ?thesis unfolding fresh_result_def r mintResult_def
    by (intro exI [of _ jti] exI [of _ cert] exI [of _ cl] exI [of _ "mv_input v"] exI [of _ sig]) simp
qed

end

interpretation hw_mint: mint_signer "hardware_signer env hw" ..

interpretation cf_mint: mint_signer card_free_signer ..

subsection \<open>Requests and their bindings\<close>

lemma prepareMint_Inr:
  "prepareMint cfg req arrival = Inr mx \<Longrightarrow>
     \<not> CardFree cfg \<and> rq_route_socket req = [] \<and>
     rq_alias (mx_req mx) = rq_alias req \<and> rq_card (mx_req mx) = rq_card req \<and> rq_context (mx_req mx) = rq_context req \<and>
     map_of (cf_aliases cfg) (rq_alias req) = Some (mx_alias mx) \<and>
     rq_audience req = ExternalAccountAudience (Provider cfg) \<and> rq_email req = al_target (mx_alias mx) \<and>
     mx_key mx = reuseKeyFor (mx_req mx) (mx_alias mx) \<and> mx_arrival mx = arrival \<and>
     mx_reuse mx = dur_seconds (al_reuse_s (mx_alias mx)) \<and> mx_lifetime mx = aliasAssertionLifetime (mx_alias mx) \<and>
     grantedWindow cfg (rq_context req) arrival = Inr (mx_granted_s mx, mx_granted_deadline mx)"
  by (auto simp: prepareMint_def Let_def split: if_splits sum.splits prod.splits option.splits)

lemma serveFinish_Some:
  "serveFinish mx now e c = (Some r, c') \<Longrightarrow> st_reused r \<and> st_token r = buffer c (ce_token e) \<and> c_cache c' = c_cache c \<and> c_pin c' = c_pin c"
  by (auto simp: serveFinish_def Let_def split: option.splits if_splits)

lemma serveAuthorised_Some:
  assumes "serveAuthorised mx now probe c = (Some r, c')"
  shows "\<exists>e. map_of (c_cache c) (mx_key mx) = Some e \<and> admits (c_single c) (mx_arrival mx) (mx_reuse mx) now e \<and>
    cardUnchanged probe (ce_readers e) \<and> serveFinish mx now e c = (Some r, c')"
  using assms by (auto simp: serveAuthorised_def serveLookup_def split: option.splits if_splits)

text \<open>What a touch authorises: a mint the card really signed is bound to the request and the
  configuration.\<close>

lemma LocalSubjectToken_fresh:
  assumes "LocalSubjectToken cr env req c = (Inr r, c')" and "\<not> st_reused r" and "me_sign env = hardware_signer senv hw"
  shows "\<exists>a cert jti cl input sig. map_of (cf_aliases (c_cfg c)) (rq_alias req) = Some a \<and>
    rq_audience req = ExternalAccountAudience (Provider (c_cfg c)) \<and> rq_email req = al_target a \<and>
    map_of (KeysBySerial (c_cfg c)) (st_serial r) = Some \<lparr>kc_jwk_kid = st_key_id r\<rparr> \<and> CertificateKeyID cr cert = Inr (st_key_id r) \<and>
    (ci_serial (rq_card req) \<noteq> 0 \<longrightarrow> st_serial r = ci_serial (rq_card req) \<and> st_key_id r = ci_key_id (rq_card req)) \<and>
    (ci_spki (rq_card req) \<noteq> [] \<longrightarrow> st_spki r = ci_spki (rq_card req)) \<and>
    NewClaims (Provider (c_cfg c)) (rq_alias req) (al_target a) (st_serial r) (st_key_id r) jti (me_now env)
      (aliasAssertionLifetime a) = Inr cl \<and>
    SigningInput cl = Inr input \<and> Assemble input sig = Inr (st_token r) \<and> st_expires r = ExpiresAt cl"
proof -
  obtain mx where p: "prepareMint (c_cfg c) req (me_arrival env) = Inr mx"
    using assms(1) by (auto simp: LocalSubjectToken_def split: sum.splits)
  note f = prepareMint_Inr [OF p]
  obtain served c1 where s: "serveAuthorised mx (me_serve_now env) (me_probe env) c = (served, c1)" by (metis prod.exhaust)
  have "served = None"
  proof (cases served)
    case (Some r')
    with assms(1) p s have "r' = r" by (simp add: LocalSubjectToken_def)
    with serveAuthorised_Some [OF s [unfolded Some]] serveFinish_Some have "st_reused r" by blast
    with assms(2) show ?thesis by simp
  qed
  with assms(1) p s have m: "signMint cr env mx c1 = (Inr r, c')" by (simp add: LocalSubjectToken_def)
  have cfg: "c_cfg c1 = c_cfg c"
    using s \<open>served = None\<close> by (auto simp: serveAuthorised_def dropEntry_def serveFinish_def Let_def split: option.splits if_splits)
  from hw_mint.signMint_fresh [OF m assms(3)] obtain jti cert cl input sig where
    b: "bound_claims cr (c_cfg c) mx (me_now env) jti (st_serial r) cert (st_key_id r) cl"
    and t: "SigningInput cl = Inr input" "Assemble input sig = Inr (st_token r)" "st_spki r = ct_raw_spki cert" "st_expires r = ExpiresAt cl"
    unfolding fresh_result_def cfg by blast
  from b [unfolded bound_claims_def] f t show ?thesis
    by (intro exI [of _ "mx_alias mx"] exI [of _ cert] exI [of _ jti] exI [of _ cl] exI [of _ input] exI [of _ sig]) simp
qed

text \<open>C11: consent is never shared beyond what was shown. A request is answered without a touch
  only from the entry of its own full requester tuple, with at least a minute of validity
  left and the readers as they were; and only because it arrived before that signature
  completed, or because the alias configures a reuse window that is still open. At reuse
  zero, requests that follow each other never share a touch. Serving leaves the cache and
  the PIN alone.\<close>

theorem reuse_only_authorised:
  assumes "core_inv {} c" and "serveAuthorised mx now probe c = (Some r, c')"
  shows "\<exists>e. map_of (c_cache c) (mx_key mx) = Some e \<and> ce_key e = mx_key mx \<and> st_token r = buffer c (ce_token e) \<and>
    now + 60 * second \<le> ce_expires e \<and> cardUnchanged probe (ce_readers e) \<and>
    (c_single c \<and> mx_arrival mx \<le> ce_completed e \<or>
     0 < mx_reuse mx \<and> now < ce_window_ends e \<and> time_sub now (ce_completed e) \<le> mx_reuse mx) \<and>
    \<not> (mx_reuse mx = 0 \<and> ce_completed e < mx_arrival mx) \<and> c_cache c' = c_cache c \<and> c_pin c' = c_pin c"
proof -
  from serveAuthorised_Some [OF assms(2)] obtain e where e: "map_of (c_cache c) (mx_key mx) = Some e"
    and a: "admits (c_single c) (mx_arrival mx) (mx_reuse mx) now e" and u: "cardUnchanged probe (ce_readers e)"
    and f: "serveFinish mx now e c = (Some r, c')" by blast
  have k: "ce_key e = mx_key mx"
    using map_of_SomeD [OF e] assms(1) by (auto simp: core_inv_def core_wf_def core_shape_def)
  have v: "now + 60 * second \<le> ce_expires e"
    using a time_sub_ge_iff [of "60 * second" "ce_expires e" now] by (simp add: admits_def reuseValidityFloor_def)
  show ?thesis
    using e k u v a serveFinish_Some [OF f] by (intro exI [of _ e]) (auto simp: admits_def)
qed

lemma all_zero_if_nothing:
  "core_inv {} c \<Longrightarrow> c_pin c = None \<Longrightarrow> c_cache c = [] \<Longrightarrow> all_zero (buffer c a)"
  by (simp add: core_inv_def zeroized_def tokens_def)

lemma purgeAll_frame [simp]:
  "c_cache (snd (purgeAll c)) = []" "c_pin (snd (purgeAll c)) = c_pin c" "c_last (snd (purgeAll c)) = c_last c"
  by (simp_all add: purgeAll_def purge_where_def drop_where_def case_prod_unfold Let_def wakeNotifier_def)

text \<open>Locking forgets everything. After \<open>Lock\<close> no PIN, no signing metadata and no assertion
  is held, and no buffer the daemon ever allocated still contains any byte of a PIN or a
  token; a PIN the card rejected has the same effect on PIN and assertions.\<close>

lemma Lock_forgets:
  assumes "core_inv {} c"
  shows "c_pin (Lock c) = None \<and> c_cache (Lock c) = [] \<and> c_last (Lock c) = None \<and> all_zero (buffer (Lock c) a) \<and>
    (let c' = recordPINVerification serial (Some (PINError retries e remedy True)) c in
     c_pin c' = None \<and> c_cache c' = [] \<and> all_zero (buffer c' a))"
proof -
  have l: "c_pin (Lock c) = None" "c_cache (Lock c) = []" "c_last (Lock c) = None" by (simp_all add: Lock_def)
  let ?c = "recordPINVerification serial (Some (PINError retries e remedy True)) c"
  have r: "?c = snd (purgeAll (clearPIN c))" by (simp add: recordPINVerification_def errors_as_def)
  have "c_pin ?c = None" "c_cache ?c = []" by (simp_all add: r)
  with l all_zero_if_nothing [OF Lock_inv [OF assms]] all_zero_if_nothing [OF recordPIN_inv [OF assms]] show ?thesis
    unfolding Let_def by blast
qed

lemma demo_core_inv: "core_inv {} demo_core"
  by (simp add: core_inv_def demo_core_wf)

subsection \<open>One concrete mint\<close>

definition demo_id :: string where "demo_id = replicate 32 (CHR ''0'')"

definition demo_card :: card_identity where
  "demo_card = \<lparr>ci_serial = 7, ci_key_id = demo_kid, ci_spki = ct_raw_spki demo_cert\<rparr>"

definition demo_context :: forward_context where
  "demo_context = \<lparr>fc_origin = demo_id, fc_workspace = demo_id, fc_bundle = ''b'', fc_generation = 2, fc_provider = demo_id,
     fc_attach = [], fc_operation = demo_id, fc_window_s = 0, fc_window_deadline = 0\<rparr>"

definition demo_request :: request where
  "demo_request = \<lparr>rq_alias = ''ro'', rq_audience = ExternalAccountAudience (Provider demo_config),
     rq_email = ''a@aproject.iam.gserviceaccount.com'', rq_source = zero_source, rq_attachment = LocalAllowed,
     rq_route_socket = [], rq_card = demo_card, rq_context = demo_context\<rparr>"

definition demo_mx :: mint_ctx where
  "demo_mx = (let req = demo_request\<lparr>rq_source := Local\<rparr> in
     \<lparr>mx_req = req, mx_alias = demo_alias, mx_key = reuseKeyFor req demo_alias, mx_arrival = second, mx_reuse = 0,
      mx_lifetime = 300 * second, mx_granted_s = 0, mx_granted_deadline = 0,
      mx_op = \<lparr>oc_origin = OriginForwarded, oc_id = demo_id, oc_require_lease = True\<rparr>\<rparr>)"

lemma demo_prepare: "prepareMint demo_config demo_request second = Inr demo_mx"
proof -
  have v: "source_Validate zero_source ''ro'' = Inr (Local, zero_label)"
    unfolding source_Validate_def by (simp add: Local_def KindLocal_def)
  have o: "operationFor (demo_request\<lparr>rq_source := Local\<rparr>) = \<lparr>oc_origin = OriginForwarded, oc_id = demo_id, oc_require_lease = True\<rparr>"
    by (simp add: operationFor_def demo_request_def demo_context_def demo_id_def)
  have a: "map_of (cf_aliases demo_config) ''ro'' = Some demo_alias" by (simp add: demo_config_def)
  have f: "rq_alias demo_request = ''ro''" "rq_source demo_request = zero_source" "rq_route_socket demo_request = []"
    "rq_context demo_request = demo_context" "rq_email demo_request = al_target demo_alias"
    "rq_audience demo_request = ExternalAccountAudience (Provider demo_config)"
    by (simp_all add: demo_request_def demo_alias_def)
  have n: "\<not> CardFree demo_config" by (simp add: CardFree_def demo_config_def CardNone_def)
  have g: "grantedWindow demo_config (demo_context) second = Inr (0, 0)" by (simp add: grantedWindow_def demo_context_def)
  have d: "dur_seconds (al_reuse_s demo_alias) = 0" "aliasAssertionLifetime demo_alias = 300 * second"
    by (simp_all add: demo_alias_def dur_seconds_def wrap64_def aliasAssertionLifetime_def)
  show ?thesis
    unfolding prepareMint_def f v Let_def by (simp add: n a f g d o demo_mx_def Let_def)
qed

lemma demo_keys: "map_of (KeysBySerial demo_config) 7 = Some \<lparr>kc_jwk_kid = demo_kid\<rparr>"
proof -
  have "cf_keys demo_config = [(''7'', \<lparr>kc_jwk_kid = demo_kid\<rparr>)]" by (simp add: demo_config_def)
  then show ?thesis unfolding KeysBySerial_def by (simp add: demo_serial demo_kid_matches)
qed

definition demo_now :: gotime where "demo_now = (unix_to_internal + 1000) * second"

lemma demo_new_claims:
  "jti \<noteq> [] \<Longrightarrow> \<exists>cl. NewClaims (Provider demo_config) ''ro'' (al_target demo_alias) 7 demo_kid jti demo_now (300 * second) = Inr cl"
  by (simp add: NewClaims_def Provider_def demo_config_def demo_alias_def demo_kid_nonempty DefaultLifetime_def
      MaxLifetime_def demo_now_def Let_def)

lemma demo_bound:
  "jti \<noteq> [] \<Longrightarrow> \<exists>cl. bound_claims demo_crypto demo_config demo_mx demo_now jti 7 demo_cert demo_kid cl"
  using demo_new_claims [of jti]
  by (simp add: bound_claims_def demo_keys CertificateKeyID_demo demo_mx_def demo_request_def demo_card_def Let_def)

definition demo_random :: bytes where "demo_random = replicate 16 (CHR ''A'')"

definition demo_mint_env :: mint_env where
  "demo_mint_env = \<lparr>me_arrival = second, me_serve_now = demo_now, me_probe = None, me_now = demo_now,
     me_random = Inr demo_random, me_sign = hardware_signer demo_sign_env demo_hardware,
     me_completed = demo_now, me_snapshot = None\<rparr>"

definition demo_unlocked :: core where
  "demo_unlocked = (New demo_config ''1'')\<lparr>c_bufs := [''1234''], c_pin := Some 0, c_pin_serial := 7\<rparr>"

lemma demo_signs:
  assumes "b64_encode demo_random = jti"
    and bound: "\<And>jti. jti \<noteq> [] \<Longrightarrow> \<exists>cl. bound_claims demo_crypto demo_config mx demo_now jti 7 demo_cert demo_kid cl"
  shows "\<exists>cl input. SigningInput cl = Inr input \<and>
    hardware_signer demo_sign_env demo_hardware op label pin (digestFor demo_crypto demo_config mx demo_now jti) no_vars
      = ((SigningDigest demo_crypto input, 7, None), \<lparr>mv_input = input, mv_claims = cl, mv_kid = demo_kid, mv_spki = ct_raw_spki demo_cert\<rparr>)"
proof -
  have "jti \<noteq> []" using assms length_b64_encode [of demo_random] by (auto simp: demo_random_def)
  then obtain cl where b: "bound_claims demo_crypto demo_config mx demo_now jti 7 demo_cert demo_kid cl"
    using bound by blast
  then have "cl_key_id cl \<noteq> []" by (auto simp: bound_claims_def NewClaims_def Let_def split: if_splits)
  then obtain input where i: "SigningInput cl = Inr input" by (simp add: SigningInput_def)
  let ?g = "\<lambda>v. v\<lparr>mv_claims := cl, mv_input := input, mv_kid := demo_kid, mv_spki := ct_raw_spki demo_cert\<rparr>"
  have d: "digestFor demo_crypto demo_config mx demo_now jti 7 demo_cert v = (Inr (SigningDigest demo_crypto input), ?g v)" for v
    using b i unfolding digestFor_Inr by blast
  have "hardware_signer demo_sign_env demo_hardware op label pin (digestFor demo_crypto demo_config mx demo_now jti) no_vars
      = ((SigningDigest demo_crypto input, 7, None), ?g no_vars)"
    unfolding hardware_signer_def
    by (simp add: Sign_demo [where dg = "\<lambda>_. SigningDigest demo_crypto input" and g = ?g and
        df = "digestFor demo_crypto demo_config mx demo_now jti"] d)
  with i show ?thesis by (intro exI [of _ cl] exI [of _ input]) (simp add: no_vars_def)
qed

lemma demo_take: "takePIN demo_unlocked = (Inr 1, demo_unlocked\<lparr>c_bufs := [''1234'', ''1234'']\<rparr>)"
  by (simp add: takePIN_def demo_unlocked_def buffer_def alloc_def New_def Let_def) (simp add: demo_config_def)

lemma demo_assembled:
  "SigningInput cl = Inr input \<Longrightarrow>
     assembleMint (SigningDigest demo_crypto input) None \<lparr>mv_input = input, mv_claims = cl, mv_kid = demo_kid, mv_spki = ct_raw_spki demo_cert\<rparr>
       = Inr (input @ ''.'' @ b64_encode (SigningDigest demo_crypto input))"
  using SigningInput_nonempty [of cl input] by (simp add: assembleMint_def Assemble_def demo_signature)

lemma demo_mint_of:
  assumes "prepareMint demo_config req second = Inr mx"
    and "\<And>jti. jti \<noteq> [] \<Longrightarrow> \<exists>cl. bound_claims demo_crypto demo_config mx demo_now jti 7 demo_cert demo_kid cl"
  shows "\<exists>r c'. LocalSubjectToken demo_crypto demo_mint_env req demo_unlocked = (Inr r, c') \<and> \<not> st_reused r \<and> st_serial r = 7"
proof -
  let ?jti = "b64_encode demo_random"
  let ?c1 = "demo_unlocked\<lparr>c_bufs := [''1234'', ''1234'']\<rparr>"
  have cfg: "c_cfg demo_unlocked = demo_config" and cache: "c_cache demo_unlocked = []"
    by (simp_all add: demo_unlocked_def New_def)
  note take = demo_take
  let ?c2 = "beginPendingMint (mx_key mx) ?c1"
  let ?label = "signingLabel (mx_req mx) (al_target (mx_alias mx)) (mx_reuse mx) (mx_lifetime mx)"
  have cfg2: "c_cfg ?c2 = demo_config" by (simp add: beginPendingMint_def cfg)
  obtain cl input where i: "SigningInput cl = Inr input"
    and s: "hardware_signer demo_sign_env demo_hardware (mx_op mx) ?label (buffer ?c2 1)
        (digestFor demo_crypto demo_config mx demo_now ?jti) no_vars
      = ((SigningDigest demo_crypto input, 7, None), \<lparr>mv_input = input, mv_claims = cl, mv_kid = demo_kid, mv_spki = ct_raw_spki demo_cert\<rparr>)"
    using demo_signs [OF refl assms(2)] by blast
  have j: "NewJTI (me_random demo_mint_env) = Inr ?jti" by (simp add: NewJTI_def demo_mint_env_def)
  note a = demo_assembled [OF i]
  have e: "me_sign demo_mint_env = hardware_signer demo_sign_env demo_hardware" "me_now demo_mint_env = demo_now"
    by (simp_all add: demo_mint_env_def)
  have "\<exists>r c'. signMint demo_crypto demo_mint_env mx demo_unlocked = (Inr r, c') \<and> \<not> st_reused r \<and> st_serial r = 7"
    unfolding signMint_def take prod.case sum.case j Let_def e cfg2 s a
    by (simp add: mintResult_def split: prod.split)
  moreover have "me_arrival demo_mint_env = second" by (simp add: demo_mint_env_def)
  ultimately show ?thesis
    unfolding LocalSubjectToken_def cfg
    by (simp add: assms(1) [simplified] serveAuthorised_def serveLookup_def cache)
qed

lemma demo_mint:
  "\<exists>r c'. LocalSubjectToken demo_crypto demo_mint_env demo_request demo_unlocked = (Inr r, c') \<and> \<not> st_reused r \<and> st_serial r = 7"
  by (rule demo_mint_of [OF demo_prepare demo_bound])

text \<open>An entry of the demo request, signed a moment before it is served to a request that
  arrived earlier.\<close>

definition demo_kept :: cache_entry where
  "demo_kept = demo_entry\<lparr>ce_key := mx_key demo_mx, ce_completed := 2 * second\<rparr>"

definition demo_serving :: core where
  "demo_serving = (New demo_config ''1'')\<lparr>c_bufs := [''tok''], c_cache := [(mx_key demo_mx, demo_kept)]\<rparr>"

lemma demo_serving_inv: "core_inv {} demo_serving"
  by (simp_all add: core_inv_def core_wf_def core_shape_def core_bounds_def demo_serving_def New_def tokens_def demo_kept_def
      demo_entry_def reuseCacheCap_def marks_ok_def zeroized_def buffer_def)

theorem reuse_only_authorised_witness:
  "\<exists>r. fst (serveAuthorised demo_mx (3 * second) None demo_serving) = Some r \<and> st_token r = ''tok''"
proof -
  have a: "admits True second (mx_reuse demo_mx) (3 * second) demo_kept"
    using time_sub_ge_iff [of reuseValidityFloor "ce_expires demo_kept" "3 * second"]
    by (simp add: admits_def demo_kept_def demo_entry_def reuseValidityFloor_def)
  have m: "c_single demo_serving" "mx_arrival demo_mx = second" "map_of (c_cache demo_serving) (mx_key demo_mx) = Some demo_kept"
    by (simp_all add: demo_serving_def New_def defaultSingleFlight_def demo_mx_def Let_def)
  have f: "serveAuthorised demo_mx (3 * second) None demo_serving = serveFinish demo_mx (3 * second) demo_kept demo_serving"
    using a m by (simp add: serveAuthorised_def serveLookup_def cardUnchanged_def readerSnapshot_def)
  obtain r c' where s: "serveAuthorised demo_mx (3 * second) None demo_serving = (Some r, c')"
    unfolding f serveFinish_def m Let_def by simp
  from reuse_only_authorised [OF demo_serving_inv s] have "st_token r = buffer demo_serving (ce_token demo_kept)"
    using m(3) by auto
  moreover have "buffer demo_serving (ce_token demo_kept) = ''tok''"
    by (simp add: buffer_def demo_serving_def demo_kept_def demo_entry_def)
  moreover have "fst (serveAuthorised demo_mx (3 * second) None demo_serving) = Some r" by (simp only: s fst_conv)
  ultimately show ?thesis by metis
qed

end
