(* ===== verification/Core_Notifier.thy ===== *)
theory Core_Notifier
  imports Core_Inv "HOL-Library.Product_Lexorder"
begin

text \<open>
  The reuse cache's clock and the card-presence watch (\<open>notifierSweep\<close>, \<open>pollReaders\<close>, one
  round of \<open>RunNotifier\<close>), and what the daemon reports without touching the card
  (\<open>reuseWindowsLocked\<close>, \<open>Status\<close>, \<open>aliasBindings\<close>, \<open>ForwardPolicy\<close>, \<open>DescribeForwardProvider\<close>).
\<close>

definition windowed :: "cache_entry \<Rightarrow> bool" where
  "windowed e \<longleftrightarrow> ce_window_ends e > ce_completed e"

subsection \<open>The sweep\<close>

definition expired_message :: "reuse_key \<Rightarrow> string" where
  "expired_message k = ''window for '' @ rk_alias k @ '' expired; next mint needs a touch''"

definition closing_message :: "reuse_key \<Rightarrow> string" where
  "closing_message k = ''window for '' @ rk_alias k @ '' expires in '' @ fmt_int (reuseNotifyLead div second) @ ''s''"

text \<open>One entry: what is kept of it, the notices it raises, the deadlines it asks for.\<close>

definition sweepEntry :: "gotime \<Rightarrow> reuse_key \<Rightarrow> cache_entry \<Rightarrow> cache_entry option \<times> string list \<times> gotime list" where
  "sweepEntry now k e =
     (if windowed e \<and> \<not> now < ce_window_ends e
      then (None, if ce_notified_expired e then [] else [expired_message k], [])
      else if \<not> now < ce_expires e then (None, [], [])
      else
        let tail = (if windowed e then [ce_window_ends e] else []) @ [ce_expires e];
            preAt = time_add (ce_window_ends e) (- reuseNotifyLead)
        in if windowed e \<and> \<not> ce_notified_pre e \<and> time_sub (ce_window_ends e) (ce_completed e) > reuseNotifyLead
           then (if now < preAt then (Some e, [], preAt # tail)
                 else (Some (e\<lparr>ce_notified_pre := True\<rparr>), [closing_message k], tail))
           else (Some e, [], tail))"

definition consider_deadline :: "gotime \<Rightarrow> gotime \<Rightarrow> gotime" where
  "consider_deadline deadline nxt =
     (if deadline = zero_time then nxt
      else if nxt = zero_time \<or> deadline < nxt then deadline else nxt)"

fun sweep_kept :: "gotime \<Rightarrow> (reuse_key, cache_entry) gomap \<Rightarrow> (reuse_key, cache_entry) gomap" where
  "sweep_kept now [] = []"
| "sweep_kept now ((k, e) # m) =
     (case sweepEntry now k e of (None, _) \<Rightarrow> sweep_kept now m | (Some e', _) \<Rightarrow> (k, e') # sweep_kept now m)"

definition notifierSweep :: "gotime \<Rightarrow> core \<Rightarrow> (string list \<times> gotime) \<times> core" where
  "notifierSweep now c =
     (let dead = filter (\<lambda>(k, e). fst (sweepEntry now k e) = None) (c_cache c);
          kept = sweep_kept now (c_cache c);
          messages = concat (map (\<lambda>(k, e). fst (snd (sweepEntry now k e))) (c_cache c));
          deadlines = concat (map (\<lambda>(k, e). snd (snd (sweepEntry now k e))) (c_cache c));
          nxt = fold consider_deadline deadlines zero_time;
          nxt' = (if kept \<noteq> [] then consider_deadline (time_add now readerPollInterval) nxt else nxt)
      in ((sort messages, nxt'), (zero_all (map (\<lambda>(k, e). ce_token e) dead) c)\<lparr>c_cache := kept\<rparr>))"

definition pollReaders :: "readers \<Rightarrow> core \<Rightarrow> core" where
  "pollReaders r c =
     (case readerSnapshot r of
        (names, supported, err) \<Rightarrow>
          if \<not> supported then c
          else snd (purge_where (\<lambda>k e. \<not> (err = None \<and> ce_readers e = names)) c))"

text \<open>One round of \<open>RunNotifier\<close>: the notices delivered and the delay until the next round;
  \<open>receiveWake\<close> is the receive that ends the wait when the channel has been signalled.\<close>

definition notifierRound :: "gotime \<Rightarrow> readers \<Rightarrow> gotime \<Rightarrow> core \<Rightarrow> (string list \<times> duration) \<times> core" where
  "notifierRound now r later c =
     (case notifierSweep now c of ((messages, nxt), c1) \<Rightarrow>
        let c2 = (if c_cache c1 \<noteq> [] then pollReaders r c1 else c1);
            delay = (if nxt = zero_time then hour else max 0 (time_sub nxt later))
        in ((messages, delay), c2))"

definition receiveWake :: "core \<Rightarrow> core" where
  "receiveWake c = c\<lparr>c_wake := False\<rparr>"

subsection \<open>Reporting\<close>

record reuse_window =
  rw_alias :: string
  rw_session :: string
  rw_serial :: u32
  rw_ends :: gotime
  rw_token_expires :: gotime

definition reuseWindows :: "core \<Rightarrow> reuse_window list" where
  "reuseWindows c =
     sort_key (\<lambda>w. (rw_ends w, rw_alias w))
       (map (\<lambda>(k, e). \<lparr>rw_alias = rk_alias k, rw_session = rk_session k, rw_serial = ce_serial e,
              rw_ends = ce_window_ends e, rw_token_expires = ce_expires e\<rparr>)
         (filter (\<lambda>(k, e). windowed e) (c_cache c)))"

record core_status =
  cs_pin_cached :: bool
  cs_pin_serial :: u32
  cs_card :: string
  cs_provider :: string
  cs_last :: "sign_event option"
  cs_last_forward :: "forward_context option"
  cs_mints :: "mint_counters option"
  cs_windows :: "reuse_window list"
  cs_version :: string

definition Status :: "core \<Rightarrow> gotime \<Rightarrow> core_status" where
  "Status c now =
     \<lparr>cs_pin_cached = (case c_pin c of Some p \<Rightarrow> buffer c p \<noteq> [] | None \<Rightarrow> False),
      cs_pin_serial = c_pin_serial c, cs_card = cardMode (c_cfg c), cs_provider = Resource (Provider (c_cfg c)),
      cs_last = c_last c,
      cs_last_forward = (case c_last c of
          Some s \<Rightarrow> if fc_operation (se_context s) \<noteq> [] then Some (se_context s) else None
        | None \<Rightarrow> None),
      cs_mints = mintCounters c now, cs_windows = reuseWindows c, cs_version = c_version c\<rparr>"

definition aliasBindings :: "config \<Rightarrow> (string, alias_binding) gomap" where
  "aliasBindings cfg =
     map (\<lambda>(name, a). (name, \<lparr>ab_target = al_target a,
       ab_assertion_lifetime_s = dur_in_seconds (aliasAssertionLifetime a)\<rparr>)) (cf_aliases cfg)"

definition ForwardPolicy :: "config \<Rightarrow> policy" where
  "ForwardPolicy cfg =
     \<lparr>po_version = ProtocolVersion, po_resource = Resource (Provider cfg), po_issuer = pv_issuer (Provider cfg),
      po_aliases = aliasBindings cfg,
      po_keys = sort_key ek_serial (map (\<lambda>(serial, key). \<lparr>ek_serial = serial, ek_key_id = kc_jwk_kid key\<rparr>) (KeysBySerial cfg)),
      po_max_grant = cf_max_grant cfg\<rparr>"

text \<open>\<open>described\<close> is what the signer's \<open>Describe\<close> returned; \<open>None\<close> when it is no \<open>Describer\<close>.\<close>

definition DescribeForwardProvider :: "crypto \<Rightarrow> config \<Rightarrow> (gerror + u32 \<times> certificate) option \<Rightarrow> description res" where
  "DescribeForwardProvider cr cfg described =
     (if CardFree cfg
      then Inl (CardFreeError ''describe a live provider card''
        ''create PIVB credential bundles on the provider host that holds the YubiKey'')
      else case described of
          None \<Rightarrow> Inl (ErrText ''configured signer cannot describe its live card'')
        | Some (Inl e) \<Rightarrow> Inl e
        | Some (Inr (serial, cert)) \<Rightarrow>
            (case map_of (KeysBySerial cfg) serial of
               None \<Rightarrow> Inl (ErrText (''YubiKey '' @ serial_text serial @ '' is not enrolled''))
             | Some key \<Rightarrow>
                 (case CertificateKeyID cr cert of
                    Inl e \<Rightarrow> Inl e
                  | Inr kid \<Rightarrow>
                      if kid \<noteq> kc_jwk_kid key
                      then Inl (ErrText (''live slot 9c key on YubiKey '' @ serial_text serial @ '' derives jwk_kid ''
                        @ go_quote kid @ '' but configuration expects '' @ go_quote (kc_jwk_kid key)))
                      else Inr \<lparr>de_version = ProtocolVersion, de_resource = Resource (Provider cfg),
                          de_issuer = pv_issuer (Provider cfg), de_aliases = aliasBindings cfg,
                          de_card = \<lparr>ci_serial = serial, ci_key_id = kid, ci_spki = ct_raw_spki cert\<rparr>,
                          de_max_grant = cf_max_grant cfg\<rparr>)))"

end
