(* ===== verification/Core_Consent.thy ===== *)
theory Core_Consent
  imports Core_Sign Core_Notifier
begin

text \<open>
  What the cached assertions are worth: while a PIN is cached they all come from the card it
  was verified on, and none is covered by an invalidation on record. Every critical section
  of the core keeps both; \<open>Core_Steps\<close> interleaves the sections.
\<close>

subsection \<open>Buffers keep their lengths\<close>

lemma length_zero_bytes_list [simp]: "map length (c_bufs (zero a c)) = map length (c_bufs c)"
proof (rule nth_equalityI)
  fix i assume "i < length (map length (c_bufs (zero a c)))"
  then show "map length (c_bufs (zero a c)) ! i = map length (c_bufs c) ! i"
    by (cases "a = i") (simp_all add: zero_def zero_bytes_def buffer_def)
qed simp

lemma length_zero_all [simp]: "map length (c_bufs (zero_all as c)) = map length (c_bufs c)"
  by (induction as arbitrary: c) (simp_all add: zero_all_Cons)

lemma length_drop_where [simp]: "map length (c_bufs (snd (drop_where P c))) = map length (c_bufs c)"
  by (simp add: drop_where_def Let_def)

lemma length_purge_where [simp]: "map length (c_bufs (snd (purge_where P c))) = map length (c_bufs c)"
  by (simp add: purge_where_eq Let_def)

lemma length_evict_loop [simp]: "map length (c_bufs (evict_loop n c)) = map length (c_bufs c)"
proof (induction n c rule: evict_loop.induct)
  case (2 n c)
  then show ?case by (auto split: option.split)
qed simp

lemma length_insert_entry: "map length (c_bufs (snd (insert_entry x c))) = map length (c_bufs c)"
  by (simp add: insert_entry_def evict_def Let_def split: option.split)

lemma length_dropEntry: "map length (c_bufs (dropEntry k c)) = map length (c_bufs c)"
  by (simp add: dropEntry_def split: option.split)

lemma length_invalidate: "map length (c_bufs (snd (InvalidateWorkspace w g c))) = map length (c_bufs c)"
  by (cases "w = []") (simp add: InvalidateWorkspace_def, simp add: InvalidateWorkspace_eq Let_def)

lemma buffer_empty_cong:
  assumes "map length (c_bufs c') = map length (c_bufs c)"
  shows "buffer c' a = [] \<longleftrightarrow> buffer c a = []"
proof -
  have "length (c_bufs c') = length (c_bufs c)" using assms by (metis length_map)
  moreover have "a < length (c_bufs c') \<Longrightarrow> length (c_bufs c' ! a) = length (c_bufs c ! a)"
    using assms \<open>length (c_bufs c') = length (c_bufs c)\<close> by (metis nth_map)
  ultimately show ?thesis by (auto simp: buffer_def)
qed

subsection \<open>Consent\<close>

text \<open>While a PIN is cached every cached assertion is from the card it was verified on, and no
  cached assertion is covered by a recorded invalidation.\<close>

definition cached_serials :: "core \<Rightarrow> (reuse_key \<times> u32) set" where
  "cached_serials c = (\<lambda>(k, e). (k, ce_serial e)) ` set (c_cache c)"

definition pin_card :: "core \<Rightarrow> bool" where
  "pin_card c \<longleftrightarrow> (\<forall>p. c_pin c = Some p \<longrightarrow> buffer c p \<noteq> [] \<and> (\<forall>(k, s)\<in>cached_serials c. s = c_pin_serial c))"

definition unmarked :: "core \<Rightarrow> bool" where
  "unmarked c \<longleftrightarrow> (\<forall>(k, s)\<in>cached_serials c. \<not> watermarked k c)"

definition consent_inv :: "core \<Rightarrow> bool" where
  "consent_inv c \<longleftrightarrow> pin_card c \<and> unmarked c"

definition no_wider :: "core \<Rightarrow> core \<Rightarrow> bool" where
  "no_wider c c' \<longleftrightarrow> cached_serials c' \<subseteq> cached_serials c \<and> c_invalidated c' = c_invalidated c \<and>
     (c_pin c' = None \<or> c_pin c' = c_pin c \<and> c_pin_serial c' = c_pin_serial c \<and>
        map length (c_bufs c') = map length (c_bufs c))"

lemma watermarked_cong: "c_invalidated c' = c_invalidated c \<Longrightarrow> watermarked k c' = watermarked k c"
  by (simp add: watermarked_def)

lemma consent_no_wider:
  assumes "no_wider c c'" and "consent_inv c"
  shows "consent_inv c'"
proof -
  from assms(1) have s: "cached_serials c' \<subseteq> cached_serials c" and m: "c_invalidated c' = c_invalidated c"
    and p: "c_pin c' = None \<or> c_pin c' = c_pin c \<and> c_pin_serial c' = c_pin_serial c \<and>
      map length (c_bufs c') = map length (c_bufs c)" by (simp_all add: no_wider_def)
  have "unmarked c'" using assms(2) s watermarked_cong [OF m] by (auto simp: consent_inv_def unmarked_def)
  moreover have "pin_card c'"
    using p
  proof
    assume e: "c_pin c' = c_pin c \<and> c_pin_serial c' = c_pin_serial c \<and> map length (c_bufs c') = map length (c_bufs c)"
    with buffer_empty_cong [of c' c] have "buffer c' a = [] \<longleftrightarrow> buffer c a = []" for a by blast
    with e s assms(2) show ?thesis by (fastforce simp: consent_inv_def pin_card_def)
  qed (simp add: pin_card_def)
  ultimately show ?thesis by (simp add: consent_inv_def)
qed

lemma cached_serials_filter: "c_cache c' = filter P (c_cache c) \<Longrightarrow> cached_serials c' \<subseteq> cached_serials c"
  by (auto simp: cached_serials_def)

lemma no_wider_purge: "no_wider c (snd (purge_where P c))"
  by (simp add: no_wider_def cached_serials_filter [of _ "\<lambda>(k, e). \<not> P k e"])

lemma no_wider_trans: "no_wider c c1 \<Longrightarrow> no_wider c1 c2 \<Longrightarrow> no_wider c c2"
  unfolding no_wider_def by auto

lemma no_wider_frame:
  "c_cache c' = c_cache c \<Longrightarrow> c_invalidated c' = c_invalidated c \<Longrightarrow> c_pin c' = c_pin c \<Longrightarrow>
     c_pin_serial c' = c_pin_serial c \<Longrightarrow> map length (c_bufs c') = map length (c_bufs c) \<Longrightarrow> no_wider c c'"
  by (simp add: no_wider_def cached_serials_def)

lemma no_wider_clearPIN: "no_wider c (clearPIN c)"
  by (simp add: no_wider_def cached_serials_def)

lemma no_wider_dropEntry: "no_wider c (dropEntry k c)"
  by (auto simp: no_wider_def cached_serials_def length_dropEntry)
    (auto simp: dropEntry_def delete_filter split: option.splits)

subsection \<open>The notifier's sections\<close>

text \<open>A sweep drops the finished entries and only sets notice flags on the others.\<close>

definition finished :: "gotime \<Rightarrow> reuse_key \<Rightarrow> cache_entry \<Rightarrow> bool" where
  "finished now k e \<longleftrightarrow> fst (sweepEntry now k e) = None"

definition swept :: "gotime \<Rightarrow> reuse_key \<Rightarrow> cache_entry \<Rightarrow> cache_entry" where
  "swept now k e = the (fst (sweepEntry now k e))"

lemma sweep_kept_eq:
  "sweep_kept now m = map (\<lambda>(k, e). (k, swept now k e)) (filter (\<lambda>(k, e). \<not> finished now k e) m)"
  by (induction now m rule: sweep_kept.induct) (auto simp: finished_def swept_def split: option.split prod.split)

lemma finished_iff: "finished now k e \<longleftrightarrow> windowed e \<and> ce_window_ends e \<le> now \<or> ce_expires e \<le> now"
  by (auto simp: finished_def sweepEntry_def Let_def)

lemma swept_cases: "\<not> finished now k e \<Longrightarrow> swept now k e = e \<or> swept now k e = e\<lparr>ce_notified_pre := True\<rparr>"
  by (auto simp: finished_def swept_def sweepEntry_def Let_def split: if_splits)

lemma notifierSweep_core:
  "snd (notifierSweep now c) =
     (let d = snd (drop_where (finished now) c) in d\<lparr>c_cache := map (\<lambda>(k, e). (k, swept now k e)) (c_cache d)\<rparr>)"
  by (simp add: notifierSweep_def drop_where_def Let_def sweep_kept_eq finished_def [abs_def] case_prod_unfold)

text \<open>Rewriting entries without touching their key and token is invisible to the heap invariant.\<close>

lemma core_inv_retouch:
  assumes "\<forall>(k, e)\<in>set (c_cache c). ce_token (g k e) = ce_token e \<and> ce_key (g k e) = ce_key e" and "core_inv L c"
  shows "core_inv L (c\<lparr>c_cache := map (\<lambda>(k, e). (k, g k e)) (c_cache c)\<rparr>)"
proof -
  let ?c = "c\<lparr>c_cache := map (\<lambda>(k, e). (k, g k e)) (c_cache c)\<rparr>"
  have t: "tokens ?c = tokens c" using assms(1) by (auto simp: tokens_def)
  have k: "map fst (c_cache ?c) = map fst (c_cache c)" by auto
  have e: "\<forall>(k, e)\<in>set (c_cache ?c). ce_key e = k \<and> ce_token e < length (c_bufs c)"
    using assms by (fastforce simp: core_inv_def core_wf_def core_shape_def)
  have "keys_distinct (c_cache ?c)" using assms(2) k by (simp only: core_inv_def core_wf_def core_shape_def)
  then have "core_shape ?c" using assms(2) e by (simp add: core_inv_def core_wf_def core_shape_def t)
  moreover have "core_bounds ?c" "marks_ok ?c" "zeroized L ?c"
    using assms(2) by (simp_all add: core_inv_def core_wf_def core_bounds_def marks_ok_def zeroized_def t)
  ultimately show ?thesis by (simp add: core_inv_def core_wf_def)
qed

lemma notifierSweep_inv: "core_inv L c \<Longrightarrow> core_inv L (snd (notifierSweep now c))"
proof -
  let ?d = "snd (drop_where (finished now) c)"
  assume "core_inv L c"
  then have "core_inv L ?d"
    by (simp add: core_inv_def core_wf_drop_where zeroized_drop_where marks_ok_def)
  moreover have "\<forall>(k, e)\<in>set (c_cache ?d). ce_token (swept now k e) = ce_token e \<and> ce_key (swept now k e) = ce_key e"
    using swept_cases by fastforce
  ultimately show ?thesis unfolding notifierSweep_core Let_def by (intro core_inv_retouch)
qed

lemma notifierSweep_frame [simp]:
  "c_pin (snd (notifierSweep now c)) = c_pin c" "c_pin_serial (snd (notifierSweep now c)) = c_pin_serial c"
  "c_pending (snd (notifierSweep now c)) = c_pending c" "c_invalidated (snd (notifierSweep now c)) = c_invalidated c"
  "c_cfg (snd (notifierSweep now c)) = c_cfg c" "map length (c_bufs (snd (notifierSweep now c))) = map length (c_bufs c)"
  by (simp_all add: notifierSweep_core Let_def)

lemma notifierSweep_shrinks:
  "cached_serials (snd (notifierSweep now c)) \<subseteq> cached_serials c" "set (tokens (snd (notifierSweep now c))) \<subseteq> set (tokens c)"
proof -
  have "ce_serial (swept now k e) = ce_serial e \<and> ce_token (swept now k e) = ce_token e" if "\<not> finished now k e" for k e
    using swept_cases [OF that] by auto
  then show "cached_serials (snd (notifierSweep now c)) \<subseteq> cached_serials c"
    "set (tokens (snd (notifierSweep now c))) \<subseteq> set (tokens c)"
    by (force simp: notifierSweep_core Let_def cached_serials_def tokens_def)+
qed

lemma pollReaders_eq:
  "pollReaders r c = c \<or> (\<exists>P. pollReaders r c = snd (purge_where P c))"
  by (auto simp: pollReaders_def split: prod.split)


subsection \<open>Every section keeps consent\<close>

lemma no_wider_poll: "no_wider c (pollReaders r c)"
  using pollReaders_eq [of r c] no_wider_purge no_wider_frame [of c c] by metis

lemma no_wider_sweep: "no_wider c (snd (notifierSweep now c))"
  by (simp add: no_wider_def notifierSweep_shrinks)

lemma map_of_bound_watermarks:
  "keys_distinct m \<Longrightarrow> map_of (bound_watermarks n m) w = Some g \<Longrightarrow> map_of m w = Some g"
  using map_of_SomeD [of "bound_watermarks n m" w g] set_bound_watermarks [of n m] by (auto simp: map_of_distinct_iff)

lemma watermarked_record:
  assumes "core_bounds c" and "watermarked k (recordWatermark w g c)"
  shows "watermarked k c \<or> rk_workspace k = w \<and> rk_generation k \<le> g"
proof (cases "recordWatermark w g c = c")
  case False
  let ?m = "AList.update w g (c_invalidated c)"
  have d: "keys_distinct ?m" using assms(1) by (auto simp: core_bounds_def intro: distinct_update)
  have i: "c_invalidated (recordWatermark w g c) = bound_watermarks (length ?m) ?m"
    using False by (auto simp: recordWatermark_def Let_def split: option.splits if_splits)
  from assms(2) obtain mark where m: "map_of (bound_watermarks (length ?m) ?m) (rk_workspace k) = Some mark"
    and g: "rk_workspace k \<noteq> []" "rk_generation k \<le> mark" by (auto simp: watermarked_def i split: option.splits)
  from map_of_bound_watermarks [OF d m] have "map_of ?m (rk_workspace k) = Some mark" .
  then show ?thesis using g by (auto simp: watermarked_def update_conv' split: if_splits)
qed (use assms in simp)

lemma InvalidateWorkspace_consent:
  assumes "core_bounds c" and "consent_inv c"
  shows "consent_inv (snd (InvalidateWorkspace w g c))"
proof (cases "w = []")
  case False
  let ?c = "snd (InvalidateWorkspace w g c)" and ?d = "snd (drop_where (\<lambda>k e. claim_covered w g k) c)"
  have s: "cached_serials ?c = cached_serials ?d" "cached_serials ?d \<subseteq> cached_serials c"
    using InvalidateWorkspace_cache [OF False, of g c] by (auto simp: cached_serials_def)
  have p: "pin_card ?c"
    using assms(2) s buffer_empty_cong [OF length_invalidate, of w g c]
    by (fastforce simp: consent_inv_def pin_card_def)
  have u: "unmarked c" using assms(2) by (simp add: consent_inv_def)
  obtain mark where inv: "c_invalidated ?c = c_invalidated (if mark \<noteq> 0 then recordWatermark w mark ?d else ?d)"
    and mk: "g \<noteq> 0 \<Longrightarrow> mark = g"
    by (rule that [of "if g = 0 then (if fst (c_pending c) = w \<and> snd (c_pending c) >
          highest_generation (filter (\<lambda>(k, e). claim_covered w g k) (c_cache c)) then snd (c_pending c)
        else highest_generation (filter (\<lambda>(k, e). claim_covered w g k) (c_cache c))) else g"])
      (simp_all add: InvalidateWorkspace_eq [OF False] Let_def)
  have "\<not> watermarked k ?c" if k: "(k, s) \<in> cached_serials ?c" for k s
  proof
    assume "watermarked k ?c"
    then have w: "watermarked k (if mark \<noteq> 0 then recordWatermark w mark ?d else ?d)" using watermarked_cong [OF inv] by simp
    from k s have "(k, s) \<in> cached_serials c" and n: "\<not> claim_covered w g k"
      using InvalidateWorkspace_cache [OF False, of g c] by (auto simp: cached_serials_def)
    with u have "\<not> watermarked k c" by (auto simp: unmarked_def)
    then have "\<not> watermarked k ?d" using watermarked_cong [of ?d c] by simp
    with w watermarked_record [OF core_bounds_drop_where [OF assms(1)]] have "rk_workspace k = w \<and> rk_generation k \<le> mark"
      by (cases "mark \<noteq> 0") auto
    with n mk show False by (auto simp: claim_covered_def)
  qed
  with p show ?thesis by (auto simp: consent_inv_def unmarked_def)
qed (use assms(2) in \<open>simp add: InvalidateWorkspace_def\<close>)

text \<open>An insertion adds at most the entry itself, and only when no watermark covers it.\<close>

lemma insert_entry_facts:
  assumes "core_inv (insert (ce_token e) L) c" and "ce_token e < length (c_bufs c)"
    and "ce_token e \<notin> set (tokens c)" and "c_pin c \<noteq> Some (ce_token e)"
  shows "cached_serials (snd (insert_entry (Some e) c)) \<subseteq> insert (ce_key e, ce_serial e) (cached_serials c) \<and>
    c_invalidated (snd (insert_entry (Some e) c)) = c_invalidated c \<and> c_pin (snd (insert_entry (Some e) c)) = c_pin c \<and>
    c_pin_serial (snd (insert_entry (Some e) c)) = c_pin_serial c \<and> c_pending (snd (insert_entry (Some e) c)) = c_pending c \<and>
    c_cfg (snd (insert_entry (Some e) c)) = c_cfg c \<and>
    (watermarked (ce_key e) c \<longrightarrow> c_cache (snd (insert_entry (Some e) c)) = c_cache c)"
proof (cases "watermarked (ce_key e) c")
  case True
  then show ?thesis by (simp add: insert_entry_def cached_serials_def subset_insertI)
next
  case False
  from assms have w: "core_wf c" "zeroized (insert (ce_token e) L) c" by (simp_all add: core_inv_def)
  note i = insert_shape [OF w assms(2-4) False]
  let ?c = "(snd (drop_where (\<lambda>j _. j = ce_key e) c))\<lparr>c_cache := AList.update (ce_key e) e (c_cache c)\<rparr>"
  from evict_spec [OF i(2,3)] have "evicted_to ?c (evict ?c)" by blast
  then show ?thesis
    using set_update_distinct [OF wf_keys [OF w(1)], of "ce_key e" e] False
    unfolding i(1) evicted_to_def cached_serials_def by auto
qed

lemma insert_entry_consent:
  assumes "core_inv (insert (ce_token e) L) c" and "ce_token e < length (c_bufs c)"
    and "ce_token e \<notin> set (tokens c)" and "c_pin c \<noteq> Some (ce_token e)" and "consent_inv c"
    and "c_pin c \<noteq> None \<longrightarrow> c_pin_serial c = ce_serial e"
  shows "consent_inv (snd (insert_entry (Some e) c))"
proof -
  let ?c = "snd (insert_entry (Some e) c)"
  note f = insert_entry_facts [OF assms(1-4)]
  have b: "buffer ?c a = [] \<longleftrightarrow> buffer c a = []" for a by (rule buffer_empty_cong [OF length_insert_entry])
  have "pin_card ?c" using assms(5,6) f b by (fastforce simp: consent_inv_def pin_card_def)
  moreover have "unmarked ?c"
  proof (cases "watermarked (ce_key e) c")
    case True
    with f have "cached_serials ?c = cached_serials c" by (simp add: cached_serials_def)
    with f assms(5) show ?thesis by (simp add: consent_inv_def unmarked_def watermarked_def)
  next
    case False
    with f assms(5) watermarked_cong [of ?c c] show ?thesis by (fastforce simp: consent_inv_def unmarked_def)
  qed
  ultimately show ?thesis by (simp add: consent_inv_def)
qed

lemma alloc_consent: "core_shape c \<Longrightarrow> consent_inv c \<Longrightarrow> consent_inv (c\<lparr>c_bufs := c_bufs c @ [b]\<rparr>)"
  by (auto simp: consent_inv_def pin_card_def unmarked_def watermarked_def cached_serials_def core_shape_def buffer_def nth_append)

lemma core_inv_shape: "core_inv L c \<Longrightarrow> core_shape c"
  by (simp add: core_inv_def core_wf_def)

lemma takePIN_consent:
  assumes "core_inv L c" and "consent_inv c" and "takePIN c = (r, c')"
  shows "consent_inv c' \<and> c_cfg c' = c_cfg c \<and> c_pending c' = c_pending c"
proof (cases r)
  case (Inl e)
  then have "c' = c" using assms(3) by (auto simp: takePIN_def Let_def split: option.splits if_splits prod.splits)
  with assms(2) show ?thesis by simp
next
  case (Inr a)
  let ?c1 = "c\<lparr>c_bufs := c_bufs c @ [buffer c (the (c_pin c))]\<rparr>"
  have "c' = ?c1 \<or> c' = clearPIN ?c1"
    using takePIN_Inr [OF assms(3) [unfolded Inr]] by (auto simp: alloc_def Let_def)
  moreover have "consent_inv ?c1" by (rule alloc_consent [OF core_inv_shape [OF assms(1)] assms(2)])
  ultimately show ?thesis using consent_no_wider [OF no_wider_clearPIN] by auto
qed

lemma newCacheEntry_consent:
  assumes "core_inv L c" and "consent_inv c" and "newCacheEntry mx token x t serial kid spki r c = (entry, c')"
  shows "consent_inv c' \<and> c_cfg c' = c_cfg c \<and> c_pending c' = c_pending c \<and> c_pin c' = c_pin c \<and> c_pin_serial c' = c_pin_serial c"
proof (cases entry)
  case None
  with newCacheEntry_inv [OF assms(1,3)] assms(2) show ?thesis by simp
next
  case (Some e)
  with newCacheEntry_inv [OF assms(1,3)] have "c' = c\<lparr>c_bufs := c_bufs c @ [token]\<rparr>" by simp
  with alloc_consent [OF core_inv_shape [OF assms(1)] assms(2)] show ?thesis by simp
qed

text \<open>Setting the serial and dropping every other card's assertions makes \<open>pin_card\<close> true.\<close>

lemma purgeOtherSerials_consent:
  assumes "c_pin c = Some p" and "buffer c p \<noteq> []" and "unmarked c" and "c_pin_serial c = serial"
  shows "consent_inv (snd (purgeOtherSerials serial c))"
proof -
  have "buffer (snd (purgeOtherSerials serial c)) p = [] \<longleftrightarrow> buffer c p = []"
    unfolding purgeOtherSerials_def by (rule buffer_empty_cong) simp
  with assms show ?thesis
    by (fastforce simp: consent_inv_def pin_card_def unmarked_def watermarked_def cached_serials_def purgeOtherSerials_def)
qed

lemma Unlock_consent:
  assumes "core_inv {} c" and "consent_inv c"
  shows "consent_inv (snd (Unlock pin verified c))"
proof (cases "pin = [] \<or> CardFree (c_cfg c) \<or> snd (snd verified) \<noteq> None")
  case True
  with assms(2) show ?thesis by (cases verified) (auto simp: Unlock_def split: option.split)
next
  case False
  obtain serial retries where v: "verified = (serial, retries, None)" using False by (cases verified) auto
  let ?c1 = "clearPIN c"
  let ?c3 = "?c1\<lparr>c_bufs := c_bufs ?c1 @ [pin], c_pin := Some (length (c_bufs ?c1)), c_pin_serial := serial\<rparr>"
  have "unmarked ?c1" using consent_no_wider [OF no_wider_clearPIN assms(2)] by (simp add: consent_inv_def)
  then have "unmarked ?c3" by (simp add: unmarked_def watermarked_def cached_serials_def)
  moreover have "buffer ?c3 (length (c_bufs ?c1)) = pin" by (simp add: buffer_def nth_append)
  ultimately have "consent_inv (snd (purgeOtherSerials serial ?c3))"
    using False by (intro purgeOtherSerials_consent [where p = "length (c_bufs ?c1)"]) simp_all
  with False v show ?thesis by (simp add: Unlock_def alloc_def Let_def)
qed

lemma Lock_consent: "consent_inv c \<Longrightarrow> consent_inv (Lock c)"
  unfolding Lock_def purgeAll_def
  by (rule consent_no_wider [OF no_wider_trans [OF no_wider_trans [OF no_wider_clearPIN no_wider_frame] no_wider_purge]]) simp_all

lemma recordPIN_consent:
  assumes "consent_inv c"
  shows "consent_inv (recordPINVerification serial err c)"
    and "c_pending (recordPINVerification serial err c) = c_pending c"
    and "err = None \<Longrightarrow> serial \<noteq> 0 \<Longrightarrow> c_pin (recordPINVerification serial err c) \<noteq> None \<Longrightarrow>
      c_pin_serial (recordPINVerification serial err c) = serial"
proof -
  let ?c = "recordPINVerification serial err c"
  have n: "c_pin c = Some p \<Longrightarrow> buffer c p \<noteq> []" for p using assms by (simp add: consent_inv_def pin_card_def)
  have cl: "consent_inv (snd (purgeAll (clearPIN c)))"
    unfolding purgeAll_def by (rule consent_no_wider [OF no_wider_trans [OF no_wider_clearPIN no_wider_purge] assms])
  have pu: "consent_inv (snd (purgeOtherSerials serial (c\<lparr>c_pin_serial := serial\<rparr>)))" if "c_pin c = Some p" for p
    using assms n [OF that] that
    by (intro purgeOtherSerials_consent [where p = p]) (simp_all add: consent_inv_def unmarked_def watermarked_def cached_serials_def)
  show "consent_inv ?c"
    using assms cl pu by (auto simp: recordPINVerification_def split: option.split prod.split)
  show "c_pending ?c = c_pending c"
    by (auto simp: recordPINVerification_def purgeAll_def purgeOtherSerials_def clearPIN_eq split: option.split prod.split)
  show "c_pin_serial ?c = serial" if "err = None" "serial \<noteq> 0" "c_pin ?c \<noteq> None"
    using that n by (auto simp: recordPINVerification_def purgeOtherSerials_def split: if_splits)
qed

lemma keys_by_serial_nonzero:
  "map_of acc 0 = None \<Longrightarrow> map_of (keys_by_serial ks acc) (0 :: u32) = None"
proof (induction ks acc rule: keys_by_serial.induct)
  case (2 name key ks acc)
  have "(of_nat n :: u32) \<noteq> 0" if "parse_uint 32 name = Some n" "n \<noteq> 0" for n
    using that parse_uint_bound [of 32 name n] of_nat_u32_inject [of n 0] by auto
  with 2 show ?case by (auto simp: update_conv' split: option.split)
qed simp

lemma enrolled_nonzero: "map_of (KeysBySerial cfg) serial = Some k \<Longrightarrow> serial \<noteq> 0"
  using keys_by_serial_nonzero [of "[]" "cf_keys cfg"] by (auto simp: KeysBySerial_def)

end
