(* ===== verification/Core_Steps.thy ===== *)
theory Core_Steps
  imports Core_Consent
begin

text \<open>
  The core under concurrency. \<open>mintMu\<close> serialises mints, \<open>Unlock\<close> and \<open>Lock\<close>; invalidations, the
  notifier's sweeps and reader polls and the bookkeeping of routed mints run between any two
  critical sections of a mint. The step relation has one rule per section of the code; what
  holds over every interleaving is proved by rule induction.
\<close>

subsection \<open>Where the mint that holds \<open>mintMu\<close> is\<close>

datatype phase =
    Idle
  | Probing mint_ctx gotime cache_entry
  | Missed mint_ctx
  | Holding mint_ctx addr
  | Signing mint_ctx addr gotime string
  | Signed mint_ctx addr gotime u32 mint_vars string
  | Keeping mint_ctx addr gotime u32 string "cache_entry option"
  | Finishing addr

type_synonym sys = "core \<times> phase"

text \<open>What the hardware signer returns to the mint.\<close>

definition signs :: "crypto \<Rightarrow> core \<Rightarrow> mint_ctx \<Rightarrow> addr \<Rightarrow> gotime \<Rightarrow> string \<Rightarrow> sign_env \<Rightarrow> hardware \<Rightarrow>
    (bytes \<times> u32 \<times> gerror option) \<times> mint_vars" where
  "signs cr c mx pin now jti senv hw =
     hardware_signer senv hw (mx_op mx) (signingLabel (mx_req mx) (al_target (mx_alias mx)) (mx_reuse mx) (mx_lifetime mx))
       (buffer c pin) (digestFor cr (c_cfg c) mx now jti) no_vars"

inductive core_step :: "crypto \<Rightarrow> sys \<Rightarrow> sys \<Rightarrow> bool" for cr :: crypto where
  hit: "core_step cr (c, Idle) (c, Probing mx now e)"
    if "prepareMint (c_cfg c) req arrival = Inr mx" and "serveLookup mx now c = Some e"
| miss: "core_step cr (c, Idle) (c, Missed mx)"
    if "prepareMint (c_cfg c) req arrival = Inr mx" and "serveLookup mx now c = None"
| card_changed: "core_step cr (c, Probing mx now e) (dropEntry (mx_key mx) c, Missed mx)"
    if "\<not> cardUnchanged probe (ce_readers e)"
| served: "core_step cr (c, Probing mx now e) (c', Idle)"
    if "cardUnchanged probe (ce_readers e)" and "serveFinish mx now e c = (Some r, c')"
| overtaken: "core_step cr (c, Probing mx now e) (c', Missed mx)"
    if "cardUnchanged probe (ce_readers e)" and "serveFinish mx now e c = (None, c')"
| locked: "core_step cr (c, Missed mx) (c', Idle)" if "takePIN c = (Inl x, c')"
| taken: "core_step cr (c, Missed mx) (c', Holding mx pin)" if "takePIN c = (Inr pin, c')"
| no_jti: "core_step cr (c, Holding mx pin) (zero pin c, Idle)" if "NewJTI random = Inl x"
| begin_mint: "core_step cr (c, Holding mx pin) (beginPendingMint (mx_key mx) c, Signing mx pin now jti)"
    if "NewJTI random = Inr jti"
| sign_failed: "core_step cr (c, Signing mx pin now jti) (recordPINVerification serial err c, Finishing pin)"
    if "signs cr c mx pin now jti senv hw = ((sig, serial, err), v)" and "assembleMint sig err v = Inl x"
| signed: "core_step cr (c, Signing mx pin now jti) (recordPINVerification serial err c, Signed mx pin now serial v token)"
    if "signs cr c mx pin now jti senv hw = ((sig, serial, err), v)" and "assembleMint sig err v = Inr token"
| prepared: "core_step cr (c, Signed mx pin now serial v token) (c', Keeping mx pin now serial (mv_kid v) entry)"
    if "newCacheEntry mx token (ExpiresAt (mv_claims v)) completed serial (mv_kid v) (mv_spki v) snapshot c = (entry, c')"
| kept: "core_step cr (c, Keeping mx pin now serial kid entry) (keepMint mx now serial kid entry c, Finishing pin)"
| finish: "core_step cr (c, Finishing pin) (zero pin (endPendingMint c), Idle)"
| unlock: "core_step cr (c, Idle) (snd (Unlock pin verified c), Idle)"
| lock: "core_step cr (c, Idle) (Lock c, Idle)"
| invalidate: "core_step cr (c, p) (snd (InvalidateWorkspace w g c), p)"
| sweep: "core_step cr (c, p) (snd (notifierSweep now c), p)"
| poll: "core_step cr (c, p) (pollReaders r c, p)"
| routed: "core_step cr (c, p) (recordMint rec (c\<lparr>c_last := ev\<rparr>), p)"

inductive core_reachable :: "crypto \<Rightarrow> config \<Rightarrow> string \<Rightarrow> sys \<Rightarrow> bool" for cr :: crypto and cfg :: config and version :: string where
  start: "core_reachable cr cfg version (New cfg version, Idle)"
| step: "core_reachable cr cfg version s \<Longrightarrow> core_step cr s s' \<Longrightarrow> core_reachable cr cfg version s'"

inductive_cases core_stepE: "core_step cr (c, p) (c', p')"

subsection \<open>The invariant\<close>

fun live :: "phase \<Rightarrow> addr set" where
  "live (Holding mx pin) = {pin}"
| "live (Signing mx pin now jti) = {pin}"
| "live (Signed mx pin now serial v token) = {pin}"
| "live (Keeping mx pin now serial kid entry) = (case entry of None \<Rightarrow> {pin} | Some e \<Rightarrow> {ce_token e, pin})"
| "live (Finishing pin) = {pin}"
| "live p = {}"

definition fresh_entry :: "mint_ctx \<Rightarrow> u32 \<Rightarrow> cache_entry option \<Rightarrow> core \<Rightarrow> bool" where
  "fresh_entry mx serial entry c \<longleftrightarrow>
     (case entry of None \<Rightarrow> True
      | Some e \<Rightarrow> ce_token e < length (c_bufs c) \<and> ce_token e \<notin> set (tokens c) \<and> c_pin c \<noteq> Some (ce_token e) \<and>
          ce_key e = mx_key mx \<and> ce_serial e = serial)"

definition announced :: "mint_ctx \<Rightarrow> core \<Rightarrow> bool" where
  "announced mx c \<longleftrightarrow> c_pending c = (rk_workspace (mx_key mx), rk_generation (mx_key mx))"

definition on_card :: "u32 \<Rightarrow> core \<Rightarrow> bool" where
  "on_card serial c \<longleftrightarrow> (c_pin c \<noteq> None \<longrightarrow> c_pin_serial c = serial)"

fun phase_ok :: "phase \<Rightarrow> core \<Rightarrow> bool" where
  "phase_ok (Signing mx pin now jti) c = announced mx c"
| "phase_ok (Signed mx pin now serial v token) c = (announced mx c \<and> on_card serial c)"
| "phase_ok (Keeping mx pin now serial kid entry) c = (announced mx c \<and> on_card serial c \<and> fresh_entry mx serial entry c)"
| "phase_ok p c = True"

definition sys_inv :: "config \<Rightarrow> sys \<Rightarrow> bool" where
  "sys_inv cfg s \<longleftrightarrow> (case s of (c, p) \<Rightarrow> core_inv (live p) c \<and> consent_inv c \<and> c_cfg c = cfg \<and> phase_ok p c)"

text \<open>The sections that run beside a mint leave it alone.\<close>

definition beside :: "core \<Rightarrow> core \<Rightarrow> bool" where
  "beside c c' \<longleftrightarrow> c_pin c' = c_pin c \<and> c_pin_serial c' = c_pin_serial c \<and> c_pending c' = c_pending c \<and> c_cfg c' = c_cfg c \<and>
     length (c_bufs c') = length (c_bufs c) \<and> set (tokens c') \<subseteq> set (tokens c)"

lemma phase_ok_beside: "beside c c' \<Longrightarrow> phase_ok p c \<Longrightarrow> phase_ok p c'"
  by (cases p) (auto simp: beside_def announced_def on_card_def fresh_entry_def split: option.splits)

lemma beside_refl: "c_pin c' = c_pin c \<Longrightarrow> c_pin_serial c' = c_pin_serial c \<Longrightarrow> c_pending c' = c_pending c \<Longrightarrow> c_cfg c' = c_cfg c \<Longrightarrow>
    c_bufs c' = c_bufs c \<Longrightarrow> c_cache c' = c_cache c \<Longrightarrow> beside c c'"
  by (simp add: beside_def tokens_def)

lemma beside_purge: "beside c (snd (purge_where P c))"
  by (auto simp: beside_def tokens_def)

lemma beside_sweep: "beside c (snd (notifierSweep now c))"
proof -
  have "length (c_bufs (snd (notifierSweep now c))) = length (c_bufs c)"
    using notifierSweep_frame(6) by (metis length_map)
  then show ?thesis using notifierSweep_shrinks(2) by (simp add: beside_def)
qed

lemma beside_invalidate: "beside c (snd (InvalidateWorkspace w g c))"
proof -
  have "length (c_bufs (snd (InvalidateWorkspace w g c))) = length (c_bufs c)"
    using length_invalidate by (metis length_map)
  moreover have "set (tokens (snd (InvalidateWorkspace w g c))) \<subseteq> set (tokens c)"
    by (cases "w = []") (auto simp: InvalidateWorkspace_def [of "[]"] InvalidateWorkspace_cache tokens_def)
  ultimately show ?thesis by (simp add: beside_def)
qed

lemma invalidate_inv: "core_inv L c \<Longrightarrow> core_inv L (snd (InvalidateWorkspace w g c))"
  using InvalidateWorkspace_wf [of c L w g] by (simp add: core_inv_def)

lemma sys_inv_beside:
  assumes "sys_inv cfg (c, p)" and "beside c c'" and "core_inv (live p) c \<Longrightarrow> core_inv (live p) c'"
    and "consent_inv c \<Longrightarrow> core_bounds c \<Longrightarrow> consent_inv c'"
  shows "sys_inv cfg (c', p)"
  using assms phase_ok_beside [OF assms(2)] by (simp add: sys_inv_def beside_def core_inv_def core_wf_def)

lemma sys_inv_frame:
  assumes "sys_inv cfg (c, p)" and "c_pin c' = c_pin c" and "c_pin_serial c' = c_pin_serial c" and "c_pending c' = c_pending c"
    and "c_cfg c' = c_cfg c" and "c_bufs c' = c_bufs c" and "c_cache c' = c_cache c" and "c_invalidated c' = c_invalidated c"
    and "length (c_ring c') \<le> mintRingCap"
  shows "sys_inv cfg (c', p)"
proof (rule sys_inv_beside [OF assms(1)])
  show "beside c c'" using assms(2-7) by (rule beside_refl)
  show "core_inv (live p) c \<Longrightarrow> core_inv (live p) c'" by (rule core_inv_cong) (use assms in auto)
  show "consent_inv c \<Longrightarrow> consent_inv c'" by (rule consent_no_wider [OF no_wider_frame]) (use assms in auto)
qed

text \<open>Keeping is recording and inserting.\<close>

lemma keepMint_ex:
  "\<exists>r l. keepMint mx now serial kid entry c =
     (let q = insert_entry entry (recordMint r (c\<lparr>c_last := l\<rparr>)) in if fst q then wakeNotifier (snd q) else snd q)"
  unfolding keepMint_def Let_def case_prod_unfold by blast

lemma wake_consent [simp]: "consent_inv (wakeNotifier c) = consent_inv c"
  by (simp add: consent_inv_def pin_card_def unmarked_def cached_serials_def watermarked_def)

lemma keepMint_consent:
  assumes "core_inv (live (Keeping mx pin now serial kid entry)) c" and "consent_inv c" and "on_card serial c"
    and "fresh_entry mx serial entry c"
  shows "consent_inv (keepMint mx now serial kid entry c) \<and> c_cfg (keepMint mx now serial kid entry c) = c_cfg c"
proof -
  obtain r l where k: "keepMint mx now serial kid entry c =
      (let q = insert_entry entry (recordMint r (c\<lparr>c_last := l\<rparr>)) in if fst q then wakeNotifier (snd q) else snd q)"
    using keepMint_ex by blast
  define c2 where "c2 = recordMint r (c\<lparr>c_last := l\<rparr>)"
  have v: "consent_inv c2" by (rule consent_no_wider [OF no_wider_frame assms(2)]) (simp_all add: c2_def)
  show ?thesis
  proof (cases entry)
    case None
    have "keepMint mx now serial kid entry c = c2" unfolding k c2_def by (simp add: None insert_entry_def Let_def)
    moreover have "c_cfg c2 = c_cfg c" by (simp add: c2_def)
    ultimately show ?thesis using v by simp
  next
    case (Some e)
    have i: "core_inv (insert (ce_token e) {pin}) c2"
      using recordMint_inv assms(1) by (simp add: Some c2_def)
    have f: "ce_token e < length (c_bufs c2)" "ce_token e \<notin> set (tokens c2)" "c_pin c2 \<noteq> Some (ce_token e)"
        "c_pin c2 \<noteq> None \<longrightarrow> c_pin_serial c2 = ce_serial e"
      using assms(3,4) by (simp_all add: Some c2_def fresh_entry_def on_card_def tokens_def)
    have "c_cfg c2 = c_cfg c" by (simp add: c2_def)
    with insert_entry_consent [OF i f(1-3) v f(4)] insert_entry_facts [OF i f(1-3)] show ?thesis
      unfolding k c2_def [symmetric] by (simp add: Some Let_def)
  qed
qed

lemma core_step_inv: "core_step cr s s' \<Longrightarrow> sys_inv cfg s \<Longrightarrow> sys_inv cfg s'"
proof (induction rule: core_step.induct)
  case (card_changed probe e c mx now)
  then show ?case
    using dropEntry_inv consent_no_wider [OF no_wider_dropEntry]
    by (auto simp: sys_inv_def) (simp add: dropEntry_def split: option.split)
next
  case (served probe e mx now c r c')
  have "c_cfg c' = c_cfg c \<and> no_wider c c'"
    using served(2) by (auto simp: serveFinish_def Let_def intro!: no_wider_frame split: option.splits if_splits)
  with served serveFinish_inv [of "{}" c mx now e] consent_no_wider show ?case by (auto simp: sys_inv_def)
next
  case (overtaken probe e mx now c c')
  then have "c' = c" by (auto simp: serveFinish_def Let_def split: option.splits if_splits)
  with overtaken show ?case by (simp add: sys_inv_def)
next
  case (locked c x c' mx)
  then have "c' = c" by (auto simp: takePIN_def Let_def split: option.splits if_splits prod.splits)
  with locked show ?case by (simp add: sys_inv_def)
next
  case (taken c pin c' mx)
  then have i: "core_inv {} c" "consent_inv c" "c_cfg c = cfg" by (simp_all add: sys_inv_def)
  from takePIN_inv [OF i(1)] have "core_inv {pin} c'" by (simp add: taken(1))
  with takePIN_consent [OF i(1,2) taken(1)] i(3) show ?case by (simp add: sys_inv_def)
next
  case (no_jti random x c mx pin)
  have "no_wider c (zero pin c)" by (rule no_wider_frame) simp_all
  with no_jti zero_inv [of pin "{}" c] consent_no_wider show ?case by (auto simp: sys_inv_def)
next
  case (begin_mint random jti c mx pin now)
  have "no_wider c (beginPendingMint (mx_key mx) c)" by (rule no_wider_frame) (simp_all add: beginPendingMint_def)
  with begin_mint consent_no_wider show ?case by (auto simp: sys_inv_def announced_def) (simp_all add: beginPendingMint_def)
next
  case (sign_failed c mx pin now jti senv hw sig serial err v x)
  then show ?case using recordPIN_inv recordPIN_consent(1) by (auto simp: sys_inv_def)
next
  case (signed c mx pin now jti senv hw sig serial err v token)
  from signed(2) have e: "err = None" by (auto simp: assembleMint_def split: option.splits)
  from hw_mint.signed_vars [OF signed(1) [unfolded signs_def e]] have "serial \<noteq> 0"
    using enrolled_nonzero by (auto simp: bound_claims_def)
  moreover have "consent_inv c" using signed(3) by (simp add: sys_inv_def)
  ultimately have "consent_inv (recordPINVerification serial err c)" "on_card serial (recordPINVerification serial err c)"
      "c_pending (recordPINVerification serial err c) = c_pending c"
    using recordPIN_consent e by (auto simp: on_card_def)
  with signed(3) recordPIN_inv show ?case by (auto simp: sys_inv_def announced_def)
next
  case (prepared mx token v completed serial snapshot c entry c' pin now)
  then have i: "core_inv {pin} c" "consent_inv c" "c_cfg c = cfg" "announced mx c" "on_card serial c" by (simp_all add: sys_inv_def)
  note f = newCacheEntry_consent [OF i(1,2) prepared(1)]
  have "core_inv (live (Keeping mx pin now serial (mv_kid v) entry)) c' \<and> fresh_entry mx serial entry c'"
  proof (cases entry)
    case None
    with newCacheEntry_inv [OF i(1) prepared(1)] i(1) show ?thesis by (simp add: fresh_entry_def)
  next
    case (Some e)
    from newCacheEntry_inv [OF i(1) prepared(1)] have "core_inv (insert (ce_token e) {pin}) c'" "ce_token e < length (c_bufs c')"
        "ce_token e \<notin> set (tokens c')" "c_pin c' \<noteq> Some (ce_token e)" "ce_key e = mx_key mx" "ce_serial e = serial"
      unfolding Some option.case by blast+
    then show ?thesis by (simp add: Some fresh_entry_def)
  qed
  with f i show ?case by (simp add: sys_inv_def announced_def on_card_def)
next
  case (kept c mx pin now serial kid entry)
  then have i: "core_inv (live (Keeping mx pin now serial kid entry)) c" "consent_inv c" "on_card serial c" "fresh_entry mx serial entry c"
    "c_cfg c = cfg" by (simp_all add: sys_inv_def)
  have "core_inv {pin} (keepMint mx now serial kid entry c)"
    by (rule keepMint_inv) (use i(1,4) in \<open>auto simp: fresh_entry_def split: option.splits\<close>)
  with keepMint_consent [OF i(1-4)] i(5) show ?case by (simp add: sys_inv_def)
next
  case (finish c pin)
  have "core_inv {} (zero pin (endPendingMint c))" by (rule zero_inv) (use finish in \<open>simp add: sys_inv_def\<close>)
  moreover have "no_wider c (zero pin (endPendingMint c))" by (rule no_wider_frame) (simp_all add: endPendingMint_def)
  ultimately show ?case using finish consent_no_wider by (auto simp: sys_inv_def) (simp add: endPendingMint_def)
next
  case (unlock c pin verified)
  then show ?case using Unlock_inv [of c pin verified] Unlock_consent [of c pin verified]
    by (auto simp: sys_inv_def Unlock_def alloc_def purgeOtherSerials_def Let_def split: prod.split option.split)
next
  case (lock c)
  then show ?case using Lock_inv Lock_consent by (auto simp: sys_inv_def Lock_def purgeAll_def)
next
  case (invalidate c p w g)
  then show ?case by (rule sys_inv_beside [OF _ beside_invalidate invalidate_inv InvalidateWorkspace_consent])
next
  case (sweep c p now)
  then show ?case by (rule sys_inv_beside [OF _ beside_sweep notifierSweep_inv consent_no_wider [OF no_wider_sweep]])
next
  case (poll c p r)
  consider "pollReaders r c = c" | P where "pollReaders r c = snd (purge_where P c)" using pollReaders_eq by blast
  then show ?case
  proof cases
    case 2
    show ?thesis unfolding 2
      by (rule sys_inv_beside [OF poll beside_purge purge_where_inv consent_no_wider [OF no_wider_purge]])
  qed (use poll in simp)
next
  case (routed c p rec ev)
  then have "length (c_ring (recordMint rec (c\<lparr>c_last := ev\<rparr>))) \<le> mintRingCap"
    by (intro core_inv_ring [of "live p"] recordMint_inv) (simp add: sys_inv_def)
  then show ?case by (intro sys_inv_frame [OF routed]) simp_all
qed (auto simp: sys_inv_def)

lemma core_reachable_inv: "core_reachable cr cfg version s \<Longrightarrow> sys_inv cfg s"
proof (induction rule: core_reachable.induct)
  case start
  have "consent_inv (New cfg version)" by (simp add: consent_inv_def pin_card_def unmarked_def cached_serials_def New_def)
  then show ?case by (simp add: sys_inv_def core_inv_New) (simp add: New_def)
next
  case (step s s')
  then show ?case by (blast intro: core_step_inv)
qed

subsection \<open>What holds over every interleaving\<close>

text \<open>C5: secrets do not outlive their use, however requests interleave. In every state the daemon
  can reach, with sweeps, polls, invalidations and routed mints running between any two
  sections of a mint, each buffer ever allocated for a PIN or a token is zero unless it is
  the cached PIN, the token of a cached assertion, or held by the mint in progress; when no
  mint is in progress and nothing is cached, no secret is left in memory at all.\<close>

theorem secrets_zeroized:
  assumes "core_reachable cr cfg version (c, p)" and "c_pin c \<noteq> Some a" and "a \<notin> set (tokens c)" and "a \<notin> live p"
  shows "all_zero (buffer c a)"
  using core_reachable_inv [OF assms(1)] assms(2-4) by (simp add: sys_inv_def core_inv_def zeroized_def)

text \<open>C7: what a cached assertion is worth, however requests interleave. In every reachable state
  a cached assertion is filed under its own requester tuple, is not covered by any
  invalidation on record, comes from the card the cached PIN was verified on while a PIN is
  cached, and is the only one under its key; cache and invalidation record stay within their
  bounds.\<close>

theorem cached_assertions:
  assumes "core_reachable cr cfg version (c, p)" and "(k, e) \<in> set (c_cache c)"
  shows "ce_key e = k \<and> map_of (c_cache c) k = Some e \<and> \<not> watermarked k c \<and>
    (c_pin c = None \<or> ce_serial e = c_pin_serial c) \<and>
    length (c_cache c) \<le> reuseCacheCap \<and> length (c_invalidated c) \<le> invalidatedCap"
proof -
  from core_reachable_inv [OF assms(1)] have i: "core_inv (live p) c" and v: "pin_card c" "unmarked c"
    by (simp_all add: sys_inv_def consent_inv_def)
  from assms(2) have s: "(k, ce_serial e) \<in> cached_serials c" by (force simp: cached_serials_def)
  from i assms(2) have "ce_key e = k" "map_of (c_cache c) k = Some e"
    by (auto simp: core_inv_def core_wf_def core_shape_def map_of_distinct_iff)
  moreover have "\<not> watermarked k c" using v(2) s by (auto simp: unmarked_def)
  moreover have "c_pin c = None \<or> ce_serial e = c_pin_serial c" using v(1) s by (cases "c_pin c") (auto simp: pin_card_def)
  ultimately show ?thesis using i by (simp add: core_inv_def core_wf_def core_bounds_def)
qed


lemma signMint_runs:
  assumes "me_sign env = hardware_signer senv hw"
  shows "(core_step cr)\<^sup>*\<^sup>* (d, Missed mx) (snd (signMint cr env mx d), Idle)"
proof (cases "takePIN d")
  case (Pair r c1)
  show ?thesis
  proof (cases r)
    case (Inl e)
    with core_step.locked [of d e c1 cr mx] Pair show ?thesis by (simp add: signMint_def r_into_rtranclp)
  next
    case (Inr pin)
    have 1: "(core_step cr)\<^sup>*\<^sup>* (d, Missed mx) (c1, Holding mx pin)" using core_step.taken Pair Inr by blast
    show ?thesis
    proof (cases "NewJTI (me_random env)")
      case (Inl e)
      have "core_step cr (c1, Holding mx pin) (zero pin c1, Idle)" by (rule core_step.no_jti [OF Inl])
      with 1 show ?thesis by (simp add: signMint_def Pair \<open>r = Inr pin\<close> Inl rtranclp.rtrancl_into_rtrancl)
    next
      case (Inr jti)
      let ?c2 = "beginPendingMint (mx_key mx) c1"
      obtain sig serial err v where s: "signs cr ?c2 mx pin (me_now env) jti senv hw = ((sig, serial, err), v)"
        by (metis prod.exhaust)
      let ?c3 = "recordPINVerification serial err ?c2"
      have 2: "(core_step cr)\<^sup>*\<^sup>* (d, Missed mx) (?c2, Signing mx pin (me_now env) jti)"
        by (rule rtranclp.rtrancl_into_rtrancl [OF 1 core_step.begin_mint [OF Inr]])
      have m: "signMint cr env mx d = (case assembleMint sig err v of
           Inl e \<Rightarrow> (Inl e, zero pin (endPendingMint ?c3))
         | Inr token \<Rightarrow>
             let (entry, c4) = newCacheEntry mx token (ExpiresAt (mv_claims v)) (me_completed env) serial
                   (mv_kid v) (mv_spki v) (me_snapshot env) ?c3;
                 c5 = keepMint mx (me_now env) serial (mv_kid v) entry c4
             in (Inr (mintResult mx token serial v), zero pin (endPendingMint c5)))"
        using s by (simp add: signMint_def Pair \<open>r = Inr pin\<close> Inr assms signs_def Let_def)
      show ?thesis
      proof (cases "assembleMint sig err v")
        case (Inl e)
        have "core_step cr (?c2, Signing mx pin (me_now env) jti) (?c3, Finishing pin)"
          by (rule core_step.sign_failed [OF s Inl])
        from rtranclp.rtrancl_into_rtrancl [OF rtranclp.rtrancl_into_rtrancl [OF 2 this] core_step.finish]
        show ?thesis by (simp add: m Inl)
      next
        case (Inr token)
        obtain entry c4 where n: "newCacheEntry mx token (ExpiresAt (mv_claims v)) (me_completed env) serial (mv_kid v) (mv_spki v)
            (me_snapshot env) ?c3 = (entry, c4)" by (metis prod.exhaust)
        have "core_step cr (?c2, Signing mx pin (me_now env) jti) (?c3, Signed mx pin (me_now env) serial v token)"
          by (rule core_step.signed [OF s Inr])
        note r = rtranclp.rtrancl_into_rtrancl [OF 2 this]
        note r = rtranclp.rtrancl_into_rtrancl [OF r core_step.prepared [OF n]]
        note r = rtranclp.rtrancl_into_rtrancl [OF r core_step.kept]
        from rtranclp.rtrancl_into_rtrancl [OF r core_step.finish] show ?thesis by (simp add: m Inr n Let_def)
      qed
    qed
  qed
qed

text \<open>The sequential mint is one of the interleavings. Whatever the request, the clock, the
  readers and the card, a call of \<open>LocalSubjectToken\<close> that nothing interrupts is a run of the
  step relation from an idle daemon to an idle daemon.\<close>

lemma LocalSubjectToken_steps:
  assumes "me_sign env = hardware_signer senv hw"
  shows "(core_step cr)\<^sup>*\<^sup>* (c, Idle) (snd (LocalSubjectToken cr env req c), Idle)"
proof -
  note mint = signMint_runs [OF assms]
  show ?thesis
  proof (cases "prepareMint (c_cfg c) req (me_arrival env)")
    case (Inr mx)
    note p = Inr
    show ?thesis
    proof (cases "serveLookup mx (me_serve_now env) c")
      case None
      from converse_rtranclp_into_rtranclp [OF core_step.miss [OF p None] mint] show ?thesis
        by (simp add: LocalSubjectToken_def p serveAuthorised_def None)
    next
      case (Some e)
      let ?probing = "Probing mx (me_serve_now env) e"
      have h: "core_step cr (c, Idle) (c, ?probing)" by (rule core_step.hit [OF p Some])
      show ?thesis
      proof (cases "cardUnchanged (me_probe env) (ce_readers e)")
        case False
        from converse_rtranclp_into_rtranclp [OF h converse_rtranclp_into_rtranclp [OF core_step.card_changed [OF False] mint]]
        show ?thesis by (simp add: LocalSubjectToken_def p serveAuthorised_def Some False)
      next
        case True
        obtain r c' where f: "serveFinish mx (me_serve_now env) e c = (r, c')" by (metis prod.exhaust)
        show ?thesis
        proof (cases r)
          case None
          from converse_rtranclp_into_rtranclp [OF h converse_rtranclp_into_rtranclp [OF core_step.overtaken [OF True f [unfolded None]] mint]]
          show ?thesis by (simp add: LocalSubjectToken_def p serveAuthorised_def Some True f None)
        next
          case (Some t)
          from converse_rtranclp_into_rtranclp [OF h r_into_rtranclp [of "core_step cr", OF core_step.served [OF True f [unfolded Some]]]]
          show ?thesis by (simp add: LocalSubjectToken_def p serveAuthorised_def \<open>serveLookup mx (me_serve_now env) c = Some e\<close> True f Some)
        qed
      qed
    qed
  qed (simp add: LocalSubjectToken_def)
qed

subsection \<open>One concrete run\<close>

lemma demo_unlock: "snd (Unlock ''1234'' (7, 3, None) (New demo_config ''1'')) = demo_unlocked"
  by (simp add: Unlock_def CardFree_def alloc_def Let_def purgeOtherSerials_def purge_where_def drop_where_def New_def
      clearPIN_def demo_unlocked_def) (simp add: demo_config_def CardNone_def)

theorem secrets_zeroized_witness: "all_zero (buffer (Lock demo_unlocked) 0)"
proof -
  have "core_reachable demo_crypto demo_config ''1'' (Lock demo_unlocked, Idle)"
    using core_reachable.step [OF core_reachable.step [OF core_reachable.start core_step.unlock] core_step.lock] by (metis demo_unlock)
  from secrets_zeroized [OF this, of 0] show ?thesis
    by (simp add: Lock_def tokens_def)
qed

lemma newCacheEntry_single:
  "c_single c \<Longrightarrow> \<exists>e c'. newCacheEntry mx token x t serial kid spki None c = (Some e, c') \<and>
     c_invalidated c' = c_invalidated c \<and> c_cache c' = c_cache c"
  by (simp add: newCacheEntry_def readerSnapshot_def alloc_def)

lemma demo_keeping:
  "\<exists>c e. core_reachable demo_crypto demo_config ''1'' (c, Keeping demo_mx 1 demo_now 7 demo_kid (Some e)) \<and>
     c_invalidated c = [] \<and> c_cache c = []"
proof -
  let ?jti = "b64_encode demo_random"
  let ?c1 = "demo_unlocked\<lparr>c_bufs := [''1234'', ''1234'']\<rparr>"
  let ?c2 = "beginPendingMint (mx_key demo_mx) ?c1"
  have u: "c_cfg demo_unlocked = demo_config" "c_cache demo_unlocked = []" "c_invalidated demo_unlocked = []" "c_single demo_unlocked"
    by (simp_all add: demo_unlocked_def New_def defaultSingleFlight_def)
  have "core_reachable demo_crypto demo_config ''1'' (demo_unlocked, Idle)"
    using core_reachable.step [OF core_reachable.start core_step.unlock] demo_unlock by metis
  moreover have "core_step demo_crypto (demo_unlocked, Idle) (demo_unlocked, Missed demo_mx)"
    by (rule core_step.miss [where req = demo_request and arrival = second and now = 0])
      (simp_all only: u demo_prepare, simp add: serveLookup_def u)
  ultimately have "core_reachable demo_crypto demo_config ''1'' (demo_unlocked, Missed demo_mx)" by (rule core_reachable.step)
  from core_reachable.step [OF this core_step.taken [OF demo_take]]
  have "core_reachable demo_crypto demo_config ''1'' (?c1, Holding demo_mx 1)" .
  moreover have "NewJTI (Inr demo_random) = Inr ?jti" by (simp add: NewJTI_def)
  ultimately have r: "core_reachable demo_crypto demo_config ''1'' (?c2, Signing demo_mx 1 demo_now ?jti)"
    using core_reachable.step core_step.begin_mint by blast
  have cfg: "c_cfg ?c2 = demo_config" by (simp add: beginPendingMint_def u)
  obtain cl input where i: "SigningInput cl = Inr input"
    and s: "signs demo_crypto ?c2 demo_mx 1 demo_now ?jti demo_sign_env demo_hardware = ((SigningDigest demo_crypto input, 7, None),
      \<lparr>mv_input = input, mv_claims = cl, mv_kid = demo_kid, mv_spki = ct_raw_spki demo_cert\<rparr>)" (is "_ = (_, ?v)")
    using demo_signs [OF refl demo_bound] unfolding signs_def cfg by blast
  let ?c3 = "recordPINVerification 7 None ?c2"
  have c3: "c_invalidated ?c3 = []" "c_cache ?c3 = []" "c_single ?c3"
    by (auto simp: recordPINVerification_def beginPendingMint_def purgeOtherSerials_def u)
  from core_reachable.step [OF r core_step.signed [OF s demo_assembled [OF i]]]
  have r3: "core_reachable demo_crypto demo_config ''1'' (?c3, Signed demo_mx 1 demo_now 7 ?v
      (input @ ''.'' @ b64_encode (SigningDigest demo_crypto input)))" .
  obtain e c4 where n: "newCacheEntry demo_mx (input @ ''.'' @ b64_encode (SigningDigest demo_crypto input)) (ExpiresAt (mv_claims ?v))
      demo_now 7 (mv_kid ?v) (mv_spki ?v) None ?c3 = (Some e, c4)"
    and c4: "c_invalidated c4 = []" "c_cache c4 = []"
    using newCacheEntry_single [OF c3(3)] c3(1,2) by metis
  from core_reachable.step [OF r3 core_step.prepared [OF n]] c4 show ?thesis by auto
qed


theorem cached_assertions_witness:
  "\<exists>c e. (mx_key demo_mx, e) \<in> set (c_cache c) \<and> \<not> watermarked (mx_key demo_mx) c"
proof -
  obtain c e where r: "core_reachable demo_crypto demo_config ''1'' (c, Keeping demo_mx 1 demo_now 7 demo_kid (Some e))"
    and i: "c_invalidated c = []" "c_cache c = []" using demo_keeping by blast
  let ?c = "keepMint demo_mx demo_now 7 demo_kid (Some e) c"
  have k: "ce_key e = mx_key demo_mx" using core_reachable_inv [OF r] by (simp add: sys_inv_def fresh_entry_def)
  have "c_cache ?c = [(mx_key demo_mx, e)]"
    using keepMint_ex [of demo_mx demo_now 7 demo_kid "Some e" c] i
    by (auto simp: insert_entry_def watermarked_def evict_def reuseCacheCap_def k Let_def)
  then have m: "(mx_key demo_mx, e) \<in> set (c_cache ?c)" by simp
  from cached_assertions [OF core_reachable.step [OF r core_step.kept] m] m show ?thesis by blast
qed

end
