(* ===== verification/Core_Genuine.thy ===== *)
theory Core_Genuine
  imports Core_Steps
begin

text \<open>
  What a cached assertion is: a token assembled over claims that the core built for exactly
  the requester tuple it is filed under, on the card that signed it. The critical sections of
  the core, however they interleave, never change the token, the card or the expiry of a
  cached entry and never file one under a tuple it was not minted for.
\<close>

subsection \<open>Assertions and what mints them\<close>

definition entry_card :: "cache_entry \<Rightarrow> card_identity" where
  "entry_card e = \<lparr>ci_serial = ce_serial e, ci_key_id = ce_key_id e, ci_spki = ce_spki e\<rparr>"

definition assertions :: "core \<Rightarrow> (reuse_key \<times> card_identity \<times> gotime \<times> string) set" where
  "assertions c = (\<lambda>(k, e). (k, entry_card e, ce_expires e, buffer c (ce_token e))) ` set (c_cache c)"

definition minted :: "crypto \<Rightarrow> config \<Rightarrow> reuse_key \<Rightarrow> card_identity \<Rightarrow> gotime \<Rightarrow> string \<Rightarrow> bool" where
  "minted cr cfg k crd expires token \<longleftrightarrow>
     (\<exists>a cert jti now cl input sig. map_of (cf_aliases cfg) (rk_alias k) = Some a \<and> rk_target k = al_target a \<and>
        map_of (KeysBySerial cfg) (ci_serial crd) = Some \<lparr>kc_jwk_kid = ci_key_id crd\<rparr> \<and>
        CertificateKeyID cr cert = Inr (ci_key_id crd) \<and> ci_spki crd = ct_raw_spki cert \<and>
        (rk_serial k \<noteq> 0 \<longrightarrow> ci_serial crd = rk_serial k \<and> ci_key_id crd = rk_kid k) \<and>
        (rk_spki k \<noteq> [] \<longrightarrow> ci_spki crd = rk_spki k) \<and>
        NewClaims (Provider cfg) (rk_alias k) (rk_target k) (ci_serial crd) (ci_key_id crd) jti now
          (aliasAssertionLifetime a) = Inr cl \<and>
        SigningInput cl = Inr input \<and> Assemble input sig = Inr token \<and> expires = ExpiresAt cl)"

definition genuine :: "crypto \<Rightarrow> config \<Rightarrow> core \<Rightarrow> bool" where
  "genuine cr cfg c \<longleftrightarrow> (\<forall>(k, crd, expires, token)\<in>assertions c. minted cr cfg k crd expires token)"

text \<open>What \<open>prepareMint\<close> leaves in the context of a mint.\<close>

definition prepared_for :: "config \<Rightarrow> mint_ctx \<Rightarrow> bool" where
  "prepared_for cfg mx \<longleftrightarrow>
     map_of (cf_aliases cfg) (rq_alias (mx_req mx)) = Some (mx_alias mx) \<and>
     mx_key mx = reuseKeyFor (mx_req mx) (mx_alias mx) \<and> mx_lifetime mx = aliasAssertionLifetime (mx_alias mx)"

lemma prepareMint_prepared: "prepareMint cfg req arrival = Inr mx \<Longrightarrow> prepared_for cfg mx"
  using prepareMint_Inr [of cfg req arrival mx] by (auto simp: prepared_for_def)

text \<open>What the digest callback binds is minted for the requester tuple.\<close>

lemma bound_minted:
  assumes "prepared_for cfg mx" and "bound_claims cr cfg mx now jti serial cert kid cl"
    and "SigningInput cl = Inr input" and "Assemble input sig = Inr token"
  shows "minted cr cfg (mx_key mx) \<lparr>ci_serial = serial, ci_key_id = kid, ci_spki = ct_raw_spki cert\<rparr> (ExpiresAt cl) token"
proof -
  have k: "mx_key mx = reuseKeyFor (mx_req mx) (mx_alias mx)" using assms(1) by (simp add: prepared_for_def)
  have "rk_alias (mx_key mx) = rq_alias (mx_req mx)" "rk_target (mx_key mx) = al_target (mx_alias mx)"
    "rk_serial (mx_key mx) = ci_serial (rq_card (mx_req mx))" "rk_kid (mx_key mx) = ci_key_id (rq_card (mx_req mx))"
    "rk_spki (mx_key mx) = ci_spki (rq_card (mx_req mx))" by (simp_all add: k reuseKeyFor_def Let_def)
  with assms show ?thesis
    unfolding minted_def prepared_for_def bound_claims_def
    by (intro exI [of _ "mx_alias mx"] exI [of _ cert] exI [of _ jti] exI [of _ now] exI [of _ cl] exI [of _ input] exI [of _ sig]) simp
qed

subsection \<open>Sections that only drop\<close>

text \<open>No section but a mint's own writes a buffer that is neither a cached token nor the cached
  PIN, and what stays cached stays as it was.\<close>

definition spares :: "core \<Rightarrow> core \<Rightarrow> bool" where
  "spares c c' \<longleftrightarrow> assertions c' \<subseteq> assertions c \<and> set (tokens c') \<subseteq> set (tokens c) \<and>
     length (c_bufs c) \<le> length (c_bufs c') \<and> (c_pin c' = None \<or> c_pin c' = c_pin c) \<and>
     (\<forall>a<length (c_bufs c). a \<notin> set (tokens c) \<and> c_pin c \<noteq> Some a \<longrightarrow> buffer c' a = buffer c a)"

lemma spares_trans:
  assumes "spares c c1" and "spares c1 c2"
  shows "spares c c2"
proof -
  have "buffer c2 a = buffer c a" if a: "a < length (c_bufs c)" "a \<notin> set (tokens c)" "c_pin c \<noteq> Some a" for a
  proof -
    have "a < length (c_bufs c1)" "a \<notin> set (tokens c1)" "c_pin c1 \<noteq> Some a" "buffer c1 a = buffer c a"
      using assms(1) a by (auto simp: spares_def)
    with assms(2) show ?thesis by (auto simp: spares_def)
  qed
  with assms show ?thesis unfolding spares_def by auto
qed

lemma assertions_frame: "c_cache c' = c_cache c \<Longrightarrow> (\<forall>a\<in>set (tokens c). buffer c' a = buffer c a) \<Longrightarrow> assertions c' = assertions c"
  by (force simp: assertions_def tokens_def intro!: image_cong)

lemma spares_frame:
  assumes "c_cache c' = c_cache c" and "c_bufs c' = c_bufs c" and "c_pin c' = c_pin c"
  shows "spares c c'"
proof -
  have "buffer c' = buffer c" using assms(2) by (simp add: buffer_def fun_eq_iff)
  with assms assertions_frame [of c' c] show ?thesis by (simp add: spares_def tokens_def)
qed

lemma spares_drop:
  assumes "core_shape c"
  shows "spares c (snd (drop_where P c))"
proof -
  let ?c = "snd (drop_where P c)"
  have "assertions ?c \<subseteq> assertions c"
    using buffer_drop_where_kept [OF assms] by (force simp: assertions_def)
  moreover have "buffer ?c a = buffer c a" if "a \<notin> set (tokens c)" for a
    using that by (force simp: buffer_drop_where tokens_def)
  moreover have "set (tokens ?c) \<subseteq> set (tokens c)" by (auto simp: tokens_def)
  ultimately show ?thesis by (simp add: spares_def)
qed

lemma spares_wake: "spares c c' \<Longrightarrow> spares c (wakeNotifier c')"
  using spares_trans [OF _ spares_frame [of "wakeNotifier c'" c']] by simp

lemma spares_purge: "core_shape c \<Longrightarrow> spares c (snd (purge_where P c))"
  using spares_drop [of c P] spares_wake [of c] by (simp add: purge_where_eq Let_def)

lemma spares_dropEntry: "core_shape c \<Longrightarrow> spares c (dropEntry k c)"
  using spares_drop [of c] spares_wake [of c] spares_frame [of c c] by (simp add: dropEntry_eq shape_keys)

lemma spares_clearPIN:
  assumes "core_shape c"
  shows "spares c (clearPIN c)"
proof -
  have "\<forall>a\<in>set (tokens c). buffer (clearPIN c) a = buffer c a"
    using assms buffer_clearPIN [of c] by (auto simp: core_shape_def)
  with assertions_frame [of "clearPIN c" c] show ?thesis by (simp add: spares_def buffer_clearPIN)
qed

lemma spares_invalidate:
  assumes "core_shape c"
  shows "spares c (snd (InvalidateWorkspace w g c))"
proof (cases "w = []")
  case False
  let ?d = "snd (drop_where (\<lambda>k e. claim_covered w g k) c)" and ?c = "snd (InvalidateWorkspace w g c)"
  have b: "buffer ?c = buffer ?d" and m: "c_cache ?c = c_cache ?d"
    using False by (simp_all add: InvalidateWorkspace_buffer InvalidateWorkspace_cache)
  have l: "length (c_bufs ?c) = length (c_bufs c)" using length_invalidate by (metis length_map)
  have "assertions ?c = assertions ?d" "tokens ?c = tokens ?d" by (simp_all add: assertions_def tokens_def b m)
  with spares_drop [OF assms] l show ?thesis by (simp add: spares_def b)
qed (use spares_frame [of c c] in \<open>simp add: InvalidateWorkspace_def\<close>)

lemma spares_sweep:
  assumes "core_shape c"
  shows "spares c (snd (notifierSweep now c))"
proof -
  let ?d = "snd (drop_where (finished now) c)" and ?c = "snd (notifierSweep now c)"
  have b: "buffer ?c = buffer ?d" by (simp add: notifierSweep_core Let_def)
  have s: "entry_card (swept now k e) = entry_card e \<and> ce_expires (swept now k e) = ce_expires e \<and> ce_token (swept now k e) = ce_token e"
    if "\<not> finished now k e" for k e
    using swept_cases [OF that] by (auto simp: entry_card_def)
  have "assertions ?c \<subseteq> assertions ?d" using s by (force simp: notifierSweep_core Let_def assertions_def b)
  moreover have "set (tokens ?c) \<subseteq> set (tokens ?d)" using s by (force simp: notifierSweep_core Let_def tokens_def)
  moreover have "length (c_bufs ?c) = length (c_bufs c)" using notifierSweep_frame(6) by (metis length_map)
  ultimately show ?thesis using spares_drop [OF assms, of "finished now"] by (auto simp: spares_def b)
qed

lemma spares_poll: "core_shape c \<Longrightarrow> spares c (pollReaders r c)"
  using pollReaders_eq [of r c] spares_purge [of c] spares_frame [of c c] by auto

lemma spares_recordPIN:
  assumes "core_inv L c"
  shows "spares c (recordPINVerification serial err c)"
proof -
  have s: "core_shape c" "core_shape (clearPIN c)" using assms clearPIN_inv [OF assms] core_inv_shape by auto
  have "spares c (snd (purgeAll (clearPIN c)))"
    unfolding purgeAll_def by (rule spares_trans [OF spares_clearPIN spares_purge]) (use s in auto)
  moreover have "spares c (snd (purgeOtherSerials serial (c\<lparr>c_pin_serial := serial\<rparr>)))"
    unfolding purgeOtherSerials_def
    by (rule spares_trans [OF spares_frame spares_purge]) (use s in \<open>simp_all add: core_shape_def tokens_def\<close>)
  ultimately show ?thesis
    using spares_frame [of c c] by (auto simp: recordPINVerification_def split: option.split prod.split)
qed

subsection \<open>Keeping an assertion\<close>

definition assertion_of :: "core \<Rightarrow> cache_entry \<Rightarrow> reuse_key \<times> card_identity \<times> gotime \<times> string" where
  "assertion_of c e = (ce_key e, entry_card e, ce_expires e, buffer c (ce_token e))"

lemma insert_assertions:
  assumes "core_inv (insert (ce_token e) L) c" and "ce_token e < length (c_bufs c)"
    and "ce_token e \<notin> set (tokens c)" and "c_pin c \<noteq> Some (ce_token e)"
  shows "assertions (snd (insert_entry (Some e) c)) \<subseteq> insert (assertion_of c e) (assertions c) \<and>
    set (tokens (snd (insert_entry (Some e) c))) \<subseteq> insert (ce_token e) (set (tokens c)) \<and>
    length (c_bufs (snd (insert_entry (Some e) c))) = length (c_bufs c)"
proof (cases "watermarked (ce_key e) c")
  case True
  then have i: "snd (insert_entry (Some e) c) = zero (ce_token e) c" by (simp add: insert_entry_def)
  have "\<forall>a\<in>set (tokens c). buffer (zero (ce_token e) c) a = buffer c a" using assms(3) by auto
  with assertions_frame [of "zero (ce_token e) c" c] show ?thesis by (auto simp: i tokens_def)
next
  case False
  from assms have w: "core_wf c" "zeroized (insert (ce_token e) L) c" by (simp_all add: core_inv_def)
  note i = insert_shape [OF w assms(2-4) False]
  let ?d = "snd (drop_where (\<lambda>j _. j = ce_key e) c)"
  let ?c = "?d\<lparr>c_cache := AList.update (ce_key e) e (c_cache c)\<rparr>"
  have ev: "evicted_to ?c (evict ?c)" using evict_spec [OF i(2,3)] by blast
  have upd: "set (c_cache ?c) = insert (ce_key e, e) {p \<in> set (c_cache c). fst p \<noteq> ce_key e}"
    using set_update_distinct [OF wf_keys [OF w(1)], of "ce_key e" e] by simp
  have own: "buffer ?d (ce_token e) = buffer c (ce_token e)" using assms(3) by (force simp: buffer_drop_where tokens_def)
  have "assertions (evict ?c) \<subseteq> assertions ?c" using ev by (force simp: evicted_to_def assertions_def)
  moreover have "assertions ?c \<subseteq> insert (assertion_of c e) (assertions c)"
  proof
    fix x assume "x \<in> assertions ?c"
    then obtain k e' where m: "(k, e') \<in> set (c_cache ?c)" and x: "x = (k, entry_card e', ce_expires e', buffer ?d (ce_token e'))"
      by (auto simp: assertions_def)
    from m upd have "(k, e') = (ce_key e, e) \<or> (k, e') \<in> set (c_cache c) \<and> k \<noteq> ce_key e" by auto
    then show "x \<in> insert (assertion_of c e) (assertions c)"
    proof
      assume "(k, e') = (ce_key e, e)"
      then show ?thesis using x own by (simp add: assertion_of_def)
    next
      assume k: "(k, e') \<in> set (c_cache c) \<and> k \<noteq> ce_key e"
      then have "buffer ?d (ce_token e') = buffer c (ce_token e')"
        by (intro buffer_drop_where_kept [OF wf_shape [OF w(1)], of k]) auto
      with k x have "x \<in> assertions c" by (force simp: assertions_def)
      then show ?thesis by simp
    qed
  qed
  moreover have "set (tokens (evict ?c)) \<subseteq> insert (ce_token e) (set (tokens c))"
  proof -
    have "set (c_cache (evict ?c)) \<subseteq> insert (ce_key e, e) (set (c_cache c))"
      using ev upd by (auto simp: evicted_to_def)
    then show ?thesis by (force simp: tokens_def)
  qed
  moreover have "length (c_bufs (evict ?c)) = length (c_bufs c)" using ev by (simp add: evicted_to_def)
  ultimately show ?thesis by (auto simp: i(1))
qed

subsection \<open>Every section keeps the cache genuine\<close>

definition held :: "addr \<Rightarrow> core \<Rightarrow> bool" where
  "held a c \<longleftrightarrow> a < length (c_bufs c) \<and> a \<notin> set (tokens c)"

definition own_entry :: "crypto \<Rightarrow> config \<Rightarrow> addr \<Rightarrow> cache_entry option \<Rightarrow> core \<Rightarrow> bool" where
  "own_entry cr cfg pin entry c \<longleftrightarrow>
     (case entry of None \<Rightarrow> True
      | Some e \<Rightarrow> ce_token e \<noteq> pin \<and> minted cr cfg (ce_key e) (entry_card e) (ce_expires e) (buffer c (ce_token e)))"

fun phase_genuine :: "crypto \<Rightarrow> config \<Rightarrow> phase \<Rightarrow> core \<Rightarrow> bool" where
  "phase_genuine cr cfg Idle c = True"
| "phase_genuine cr cfg (Probing mx now e) c = prepared_for cfg mx"
| "phase_genuine cr cfg (Missed mx) c = prepared_for cfg mx"
| "phase_genuine cr cfg (Holding mx pin) c = (prepared_for cfg mx \<and> held pin c)"
| "phase_genuine cr cfg (Signing mx pin now jti) c = (prepared_for cfg mx \<and> held pin c)"
| "phase_genuine cr cfg (Signed mx pin now serial v token) c = (prepared_for cfg mx \<and> held pin c \<and>
     minted cr cfg (mx_key mx) \<lparr>ci_serial = serial, ci_key_id = mv_kid v, ci_spki = mv_spki v\<rparr> (ExpiresAt (mv_claims v)) token)"
| "phase_genuine cr cfg (Keeping mx pin now serial kid entry) c = (prepared_for cfg mx \<and> held pin c \<and> own_entry cr cfg pin entry c)"
| "phase_genuine cr cfg (Finishing pin) c = held pin c"

definition genuine_inv :: "crypto \<Rightarrow> config \<Rightarrow> sys \<Rightarrow> bool" where
  "genuine_inv cr cfg s \<longleftrightarrow> (case s of (c, p) \<Rightarrow> genuine cr cfg c \<and> phase_genuine cr cfg p c)"

lemma genuine_mono: "assertions c' \<subseteq> assertions c \<Longrightarrow> genuine cr cfg c \<Longrightarrow> genuine cr cfg c'"
  by (auto simp: genuine_def)

lemma held_spares: "spares c c' \<Longrightarrow> held a c \<Longrightarrow> held a c'"
  by (auto simp: spares_def held_def)

text \<open>A section that runs beside a mint, or that a mint runs on the way, keeps the invariant.\<close>

lemma genuine_spares:
  assumes "spares c c'" and "genuine_inv cr cfg (c, p)" and "sys_inv cfg (c, p)"
  shows "genuine_inv cr cfg (c', p)"
proof -
  have "genuine cr cfg c'" using assms(1,2) genuine_mono by (auto simp: spares_def genuine_inv_def)
  moreover have "phase_genuine cr cfg p c'"
  proof (cases p)
    case (Keeping mx pin now serial kid entry)
    have "own_entry cr cfg pin entry c'"
    proof (cases entry)
      case (Some e)
      have "ce_token e < length (c_bufs c) \<and> ce_token e \<notin> set (tokens c) \<and> c_pin c \<noteq> Some (ce_token e)"
        using assms(3) by (simp add: Keeping Some sys_inv_def fresh_entry_def)
      with assms(1) have "buffer c' (ce_token e) = buffer c (ce_token e)" by (simp add: spares_def)
      with assms(2) show ?thesis by (simp add: Keeping Some genuine_inv_def own_entry_def)
    qed (simp add: own_entry_def)
    with assms(1,2) held_spares [OF assms(1)] show ?thesis by (simp add: Keeping genuine_inv_def)
  qed (use assms(2) held_spares [OF assms(1)] in \<open>auto simp: genuine_inv_def\<close>)
  ultimately show ?thesis by (simp add: genuine_inv_def)
qed

lemma sys_shape: "sys_inv cfg (c, p) \<Longrightarrow> core_shape c"
  using core_inv_shape [of "live p" c] by (simp add: sys_inv_def)

text \<open>A mint's step from one of its phases to the next along a section that only drops.\<close>

lemma genuine_next:
  assumes "spares c c'" and "genuine_inv cr cfg (c, p)" and "phase_genuine cr cfg p' c'"
  shows "genuine_inv cr cfg (c', p')"
  using assms genuine_mono by (auto simp: spares_def genuine_inv_def)

lemma signed_minted:
  assumes "signs cr c mx pin now jti senv hw = ((sig, serial, err), v)" and "assembleMint sig err v = Inr token"
    and "prepared_for (c_cfg c) mx"
  shows "minted cr (c_cfg c) (mx_key mx) \<lparr>ci_serial = serial, ci_key_id = mv_kid v, ci_spki = mv_spki v\<rparr> (ExpiresAt (mv_claims v)) token"
proof -
  from assms(2) have e: "err = None" and t: "Assemble (mv_input v) sig = Inr token"
    by (auto simp: assembleMint_def split: option.splits if_splits)
  from hw_mint.signed_vars [OF assms(1) [unfolded signs_def e]] obtain cert cl where
    "bound_claims cr (c_cfg c) mx now jti serial cert (mv_kid v) cl" "SigningInput cl = Inr (mv_input v)"
    "mv_claims v = cl" "mv_spki v = ct_raw_spki cert" by blast
  with bound_minted [OF assms(3) _ _ t] show ?thesis by simp
qed

lemma keepMint_genuine:
  assumes "sys_inv cfg (c, Keeping mx pin now serial kid entry)" and "genuine_inv cr cfg (c, Keeping mx pin now serial kid entry)"
  shows "genuine_inv cr cfg (keepMint mx now serial kid entry c, Finishing pin)"
proof -
  obtain r l where k: "keepMint mx now serial kid entry c =
      (let q = insert_entry entry (recordMint r (c\<lparr>c_last := l\<rparr>)) in if fst q then wakeNotifier (snd q) else snd q)"
    using keepMint_ex by blast
  define c2 where "c2 = recordMint r (c\<lparr>c_last := l\<rparr>)"
  have t: "tokens c2 = tokens c" "buffer c2 = buffer c" "length (c_bufs c2) = length (c_bufs c)" "c_pin c2 = c_pin c"
    by (simp_all add: c2_def tokens_def)
  have a: "assertions c2 = assertions c" by (simp add: c2_def assertions_def)
  from assms(2) have g: "genuine cr cfg c" and h: "held pin c" and o: "own_entry cr cfg pin entry c"
    by (simp_all add: genuine_inv_def)
  show ?thesis
  proof (cases entry)
    case None
    have "keepMint mx now serial kid entry c = c2" unfolding k c2_def by (simp add: None insert_entry_def Let_def)
    with g h a t show ?thesis by (simp add: genuine_inv_def genuine_def held_def)
  next
    case (Some e)
    from assms(1) have f: "core_inv (insert (ce_token e) {pin}) c" "ce_token e < length (c_bufs c)" "ce_token e \<notin> set (tokens c)"
        "c_pin c \<noteq> Some (ce_token e)"
      by (simp_all add: Some sys_inv_def fresh_entry_def)
    have i: "core_inv (insert (ce_token e) {pin}) c2" using recordMint_inv f(1) by (simp add: c2_def)
    note q = insert_assertions [OF i, unfolded t a, OF f(2-4)]
    let ?q = "snd (insert_entry (Some e) c2)"
    have w: "assertions (wakeNotifier d) = assertions d" "tokens (wakeNotifier d) = tokens d" for d
      by (simp_all add: assertions_def tokens_def)
    have "genuine cr cfg ?q" using q g o by (auto simp: Some genuine_def own_entry_def assertion_of_def t)
    moreover have "held pin ?q" using q h o by (auto simp: Some held_def own_entry_def t)
    ultimately show ?thesis
      unfolding k c2_def [symmetric] by (simp add: Some Let_def genuine_inv_def genuine_def held_def w)
  qed
qed

lemma alloc_assertions: "core_shape c \<Longrightarrow> assertions (c\<lparr>c_bufs := c_bufs c @ [b]\<rparr>) = assertions c"
  by (rule assertions_frame) (auto simp: core_shape_def tokens_def buffer_def nth_append)

lemma takePIN_genuine:
  assumes "core_inv L c" and "takePIN c = (Inr pin, c')"
  shows "assertions c' = assertions c \<and> held pin c'"
proof -
  from takePIN_inv [OF assms(1)] have "c_cache c' = c_cache c" "\<forall>t\<in>set (tokens c). buffer c' t = buffer c t"
      "pin \<notin> set (tokens c')" "pin < length (c_bufs c')" by (simp_all add: assms(2))
  with assertions_frame [of c' c] show ?thesis by (simp add: held_def)
qed

lemma Unlock_assertions:
  assumes "core_inv {} c"
  shows "assertions (snd (Unlock pin verified c)) \<subseteq> assertions c"
proof (cases "pin = [] \<or> CardFree (c_cfg c) \<or> snd (snd verified) \<noteq> None")
  case True
  then show ?thesis by (cases verified) (auto simp: Unlock_def split: option.split)
next
  case False
  obtain serial retries where v: "verified = (serial, retries, None)" using False by (cases verified) auto
  let ?c1 = "clearPIN c" let ?c2 = "?c1\<lparr>c_bufs := c_bufs ?c1 @ [pin]\<rparr>"
  let ?c3 = "?c2\<lparr>c_pin := Some (length (c_bufs ?c1)), c_pin_serial := serial\<rparr>"
  have s: "core_shape c" "core_shape ?c1" using core_inv_shape assms clearPIN_inv [OF assms] by auto
  have "core_inv {} ?c3" using set_pin_inv [of "length (c_bufs ?c1)" "{}" ?c2 serial]
      alloc_inv [OF clearPIN_inv [OF assms], of pin "length (c_bufs ?c1)" ?c2] by (simp add: alloc_def tokens_def)
  then have "assertions (snd (purgeOtherSerials serial ?c3)) \<subseteq> assertions ?c3"
    using spares_purge core_inv_shape unfolding purgeOtherSerials_def spares_def by blast
  moreover have "assertions ?c3 = assertions ?c2" by (simp add: assertions_def)
  moreover have "assertions ?c2 = assertions ?c1" by (rule alloc_assertions [OF s(2)])
  moreover have "assertions ?c1 \<subseteq> assertions c" using spares_clearPIN [OF s(1)] by (simp add: spares_def)
  ultimately show ?thesis using False v by (simp add: Unlock_def alloc_def Let_def)
qed

lemma zero_held_assertions: "held pin c \<Longrightarrow> assertions (zero pin c) = assertions c"
  by (rule assertions_frame) (auto simp: held_def)

lemma core_step_genuine:
  "core_step cr s s' \<Longrightarrow> sys_inv cfg s \<Longrightarrow> genuine_inv cr cfg s \<Longrightarrow> genuine_inv cr cfg s'"
proof (induction rule: core_step.induct)
  case (hit c req arrival mx now e)
  then show ?case using prepareMint_prepared by (auto simp: genuine_inv_def sys_inv_def)
next
  case (miss c req arrival mx now)
  then show ?case using prepareMint_prepared by (auto simp: genuine_inv_def sys_inv_def)
next
  case (card_changed probe e c mx now)
  show ?case
    by (rule genuine_next [OF spares_dropEntry card_changed(3)])
      (use card_changed sys_shape in \<open>auto simp: genuine_inv_def\<close>)
next
  case (served probe e mx now c r c')
  have "spares c c'" using served(2) by (auto simp: serveFinish_def Let_def intro!: spares_frame split: option.splits if_splits)
  then show ?case by (rule genuine_next [OF _ served(4)]) simp
next
  case (overtaken probe e mx now c c')
  then have "c' = c" by (auto simp: serveFinish_def Let_def split: option.splits if_splits)
  with overtaken show ?case by (simp add: genuine_inv_def)
next
  case (locked c x c' mx)
  then have "c' = c" by (auto simp: takePIN_def Let_def split: option.splits if_splits prod.splits)
  with locked show ?case by (simp add: genuine_inv_def)
next
  case (taken c pin c' mx)
  then have "core_inv {} c" by (simp add: sys_inv_def)
  from takePIN_genuine [OF this taken(1)] taken(3) show ?case by (simp add: genuine_inv_def genuine_def)
next
  case (no_jti random x c mx pin)
  then show ?case using zero_held_assertions [of pin c] by (simp add: genuine_inv_def genuine_def)
next
  case (begin_mint random jti c mx pin now)
  show ?case
    by (rule genuine_next [OF spares_frame begin_mint(3)])
      (use begin_mint in \<open>simp_all add: beginPendingMint_def genuine_inv_def held_def tokens_def\<close>)
next
  case (sign_failed c mx pin now jti senv hw sig serial err v x)
  have "spares c (recordPINVerification serial err c)"
    by (rule spares_recordPIN [where L = "{pin}"]) (use sign_failed(3) in \<open>simp add: sys_inv_def\<close>)
  then show ?case
    by (rule genuine_next [OF _ sign_failed(4)]) (use held_spares sign_failed(4) \<open>spares _ _\<close> in \<open>auto simp: genuine_inv_def\<close>)
next
  case (signed c mx pin now jti senv hw sig serial err v token)
  have sp: "spares c (recordPINVerification serial err c)"
    by (rule spares_recordPIN [where L = "{pin}"]) (use signed(3) in \<open>simp add: sys_inv_def\<close>)
  have cfg: "c_cfg c = cfg" and pr: "prepared_for cfg mx" "held pin c"
    using signed(3,4) by (simp_all add: sys_inv_def genuine_inv_def)
  from signed_minted [OF signed(1,2), unfolded cfg, OF pr(1)] held_spares [OF sp pr(2)] pr(1)
  show ?case by (intro genuine_next [OF sp signed(4)]) simp
next
  case (prepared mx token v completed serial snapshot c entry c' pin now)
  then have i: "core_inv {pin} c" and g: "genuine cr cfg c" "prepared_for cfg mx" "held pin c"
    and m: "minted cr cfg (mx_key mx) \<lparr>ci_serial = serial, ci_key_id = mv_kid v, ci_spki = mv_spki v\<rparr> (ExpiresAt (mv_claims v)) token"
    by (simp_all add: sys_inv_def genuine_inv_def)
  show ?case
  proof (cases entry)
    case None
    with newCacheEntry_inv [OF i prepared(1)] g show ?thesis by (simp add: genuine_inv_def own_entry_def)
  next
    case (Some e)
    from newCacheEntry_inv [OF i prepared(1)] have c': "c' = c\<lparr>c_bufs := c_bufs c @ [token]\<rparr>"
      and e: "ce_key e = mx_key mx" "ce_expires e = ExpiresAt (mv_claims v)"
        "buffer c' (ce_token e) = token" and f: "ce_serial e = serial" "ce_key_id e = mv_kid v" "ce_spki e = mv_spki v"
      unfolding Some option.case by blast+
    from f have e': "entry_card e = \<lparr>ci_serial = serial, ci_key_id = mv_kid v, ci_spki = mv_spki v\<rparr>" by (simp add: entry_card_def)
    have tok: "ce_token e = length (c_bufs c)"
      using prepared(1) by (auto simp: Some newCacheEntry_def alloc_def split: if_splits prod.splits)
    have "genuine cr cfg c'" using g(1) alloc_assertions [OF core_inv_shape [OF i]] by (simp add: c' genuine_def)
    moreover have "own_entry cr cfg pin entry c'" using m g(3) tok e(3) unfolding own_entry_def Some option.case e(1,2) e'
      by (auto simp: held_def)
    moreover have "held pin c'" using g(3) by (simp add: held_def c' tokens_def)
    ultimately show ?thesis using g(2) by (simp add: genuine_inv_def)
  qed
next
  case (kept c mx pin now serial kid entry)
  then show ?case by (rule keepMint_genuine)
next
  case (finish c pin)
  then have "held pin (endPendingMint c)" by (simp add: genuine_inv_def held_def endPendingMint_def tokens_def)
  from zero_held_assertions [OF this] have "assertions (zero pin (endPendingMint c)) = assertions c"
    by (simp add: endPendingMint_def assertions_def)
  with finish show ?case by (simp add: genuine_inv_def genuine_def)
next
  case (unlock c pin verified)
  then have "core_inv {} c" by (simp add: sys_inv_def)
  with genuine_mono [OF Unlock_assertions] unlock show ?case by (auto simp: genuine_inv_def)
next
  case (lock c)
  have i: "core_inv {} c" using lock by (simp add: sys_inv_def)
  have "spares c (Lock c)"
    unfolding Lock_def purgeAll_def
    by (rule spares_trans [OF spares_trans [OF spares_clearPIN spares_frame] spares_purge])
      (use core_inv_shape [OF i] core_inv_shape [OF clearPIN_inv [OF i]] in \<open>simp_all add: core_shape_def tokens_def\<close>)
  then show ?case by (rule genuine_next [OF _ lock(2)]) simp
next
  case (invalidate c p w g)
  then show ?case using genuine_spares spares_invalidate sys_shape by blast
next
  case (sweep c p now)
  then show ?case using genuine_spares spares_sweep sys_shape by blast
next
  case (poll c p r)
  then show ?case using genuine_spares spares_poll sys_shape by blast
next
  case (routed c p rec ev)
  show ?case by (rule genuine_spares [OF spares_frame routed(2,1)]) simp_all
qed

lemma core_reachable_genuine: "core_reachable cr cfg version s \<Longrightarrow> genuine_inv cr cfg s"
proof (induction rule: core_reachable.induct)
  case start
  show ?case by (simp add: genuine_inv_def genuine_def assertions_def New_def)
next
  case (step s s')
  then show ?case using core_step_genuine core_reachable_inv by blast
qed

subsection \<open>What is handed out\<close>

lemma serveFinish_result:
  assumes "serveFinish mx now e c = (Some r, c')"
  shows "\<exists>e'. map_of (c_cache c) (mx_key mx) = Some e' \<and> st_token r = buffer c (ce_token e') \<and> st_expires r = ce_expires e' \<and>
    entry_card e' = \<lparr>ci_serial = st_serial r, ci_key_id = st_key_id r, ci_spki = st_spki r\<rparr>"
  using assms by (auto simp: serveFinish_def Let_def entry_card_def split: option.splits if_splits)

text \<open>A local request answered in a reachable state, from the card or from the cache.\<close>

lemma handed_out:
  assumes "core_reachable cr cfg version (c, Idle)" and "LocalSubjectToken cr env req c = (Inr r, c')"
    and "me_sign env = hardware_signer senv hw"
  shows "\<exists>a cert jti now cl input sig. map_of (cf_aliases cfg) (rq_alias req) = Some a \<and>
    rq_audience req = ExternalAccountAudience (Provider cfg) \<and> rq_email req = al_target a \<and>
    map_of (KeysBySerial cfg) (st_serial r) = Some \<lparr>kc_jwk_kid = st_key_id r\<rparr> \<and>
    CertificateKeyID cr cert = Inr (st_key_id r) \<and> st_spki r = ct_raw_spki cert \<and>
    (ci_serial (rq_card req) \<noteq> 0 \<longrightarrow> st_serial r = ci_serial (rq_card req) \<and> st_key_id r = ci_key_id (rq_card req)) \<and>
    (ci_spki (rq_card req) \<noteq> [] \<longrightarrow> st_spki r = ci_spki (rq_card req)) \<and>
    NewClaims (Provider cfg) (rq_alias req) (al_target a) (st_serial r) (st_key_id r) jti now (aliasAssertionLifetime a) = Inr cl \<and>
    SigningInput cl = Inr input \<and> Assemble input sig = Inr (st_token r) \<and> st_expires r = ExpiresAt cl"
proof -
  have cfg: "c_cfg c = cfg" and g: "genuine cr cfg c"
    using core_reachable_inv [OF assms(1)] core_reachable_genuine [OF assms(1)] by (simp_all add: sys_inv_def genuine_inv_def)
  obtain mx where p: "prepareMint cfg req (me_arrival env) = Inr mx"
    using assms(2) by (auto simp: LocalSubjectToken_def cfg split: sum.splits)
  note f = prepareMint_Inr [OF p] and pr = prepareMint_prepared [OF p]
  obtain served c1 where s: "serveAuthorised mx (me_serve_now env) (me_probe env) c = (served, c1)" by (metis prod.exhaust)
  have "minted cr cfg (mx_key mx) \<lparr>ci_serial = st_serial r, ci_key_id = st_key_id r, ci_spki = st_spki r\<rparr> (st_expires r) (st_token r)"
  proof (cases served)
    case (Some r')
    with assms(2) p s cfg have "r' = r" by (simp add: LocalSubjectToken_def)
    with serveAuthorised_Some [OF s [unfolded Some]] serveFinish_result obtain e where
      e: "map_of (c_cache c) (mx_key mx) = Some e" "st_token r = buffer c (ce_token e)" "st_expires r = ce_expires e"
        "entry_card e = \<lparr>ci_serial = st_serial r, ci_key_id = st_key_id r, ci_spki = st_spki r\<rparr>" by blast
    have "(mx_key mx, entry_card e, ce_expires e, buffer c (ce_token e)) \<in> assertions c"
      using map_of_SomeD [OF e(1)] by (force simp: assertions_def)
    with g e show ?thesis by (auto simp: genuine_def)
  next
    case None
    with assms(2) p s cfg have m: "signMint cr env mx c1 = (Inr r, c')" by (simp add: LocalSubjectToken_def)
    have "c_cfg c1 = cfg"
      using s None cfg by (auto simp: serveAuthorised_def dropEntry_def serveFinish_def Let_def split: option.splits if_splits)
    with hw_mint.signMint_fresh [OF m assms(3)] bound_minted [OF pr] show ?thesis unfolding fresh_result_def by metis
  qed
  moreover have "rk_alias (mx_key mx) = rq_alias req" "rk_target (mx_key mx) = al_target (mx_alias mx)"
      "rk_serial (mx_key mx) = ci_serial (rq_card req)" "rk_kid (mx_key mx) = ci_key_id (rq_card req)"
      "rk_spki (mx_key mx) = ci_spki (rq_card req)"
    using f by (simp_all add: reuseKeyFor_def Let_def)
  ultimately show ?thesis using f unfolding minted_def by auto
qed

text \<open>C3: every token the daemon hands out was minted for exactly what was asked. In any state the
  daemon can reach, however mints, unlocks, invalidations, sweeps and routed mints interleaved
  before, a local request is answered, from the card or from the cache, only when its alias
  is configured and its audience and target are the configured ones; and the token, the
  serial, the key and the expiry of the answer belong to claims the core built for that
  alias and target on a key enrolled under that serial, on the very card the request
  claimed when it claimed one.\<close>

theorem served_genuine:
  assumes "core_reachable cr cfg version (c, Idle)" and "LocalSubjectToken cr env req c = (Inr r, c')"
    and "me_sign env = hardware_signer senv hw"
  shows "\<exists>a cert jti now cl input sig. map_of (cf_aliases cfg) (rq_alias req) = Some a \<and>
    rq_audience req = ExternalAccountAudience (Provider cfg) \<and> rq_email req = al_target a \<and>
    map_of (KeysBySerial cfg) (st_serial r) = Some \<lparr>kc_jwk_kid = st_key_id r\<rparr> \<and>
    CertificateKeyID cr cert = Inr (st_key_id r) \<and> st_spki r = ct_raw_spki cert \<and>
    (ci_serial (rq_card req) \<noteq> 0 \<longrightarrow> st_serial r = ci_serial (rq_card req) \<and> st_key_id r = ci_key_id (rq_card req)) \<and>
    (ci_spki (rq_card req) \<noteq> [] \<longrightarrow> st_spki r = ci_spki (rq_card req)) \<and>
    NewClaims (Provider cfg) (rq_alias req) (al_target a) (st_serial r) (st_key_id r) jti now (aliasAssertionLifetime a) = Inr cl \<and>
    SigningInput cl = Inr input \<and> Assemble input sig = Inr (st_token r) \<and> st_expires r = ExpiresAt cl"
  by (rule handed_out [OF assms])

lemma demo_reachable: "core_reachable demo_crypto demo_config ''1'' (demo_unlocked, Idle)"
  using core_reachable.step [OF core_reachable.start core_step.unlock] demo_unlock by metis

theorem served_genuine_witness:
  "\<exists>r. fst (LocalSubjectToken demo_crypto demo_mint_env demo_request demo_unlocked) = Inr r \<and> st_serial r = 7 \<and>
     st_key_id r = demo_kid"
proof -
  from demo_mint obtain r c' where m: "LocalSubjectToken demo_crypto demo_mint_env demo_request demo_unlocked = (Inr r, c')"
    and f: "st_serial r = 7" by blast
  have "me_sign demo_mint_env = hardware_signer demo_sign_env demo_hardware" by (simp add: demo_mint_env_def)
  from served_genuine [OF demo_reachable m this] have "map_of (KeysBySerial demo_config) (st_serial r) = Some \<lparr>kc_jwk_kid = st_key_id r\<rparr>"
    by blast
  then have "st_key_id r = demo_kid" by (simp add: f demo_keys)
  with m f show ?thesis by (metis fst_conv)
qed

end
