(* ===== verification/Core_Route.thy ===== *)
theory Core_Route
  imports Core_Sign
begin

text \<open>
  The routed branch of \<open>internal/core\<close>: \<open>RouteSubjectToken\<close> mints through a ZKA workspace
  route and accepts what comes back only when it is the token this origin's configuration
  asked for, and \<open>Core.SubjectToken\<close> chooses between the route and the local card. The
  socket exchange and the clock readings are the environment \<open>route_env\<close>.
\<close>

subsection \<open>Errors\<close>

definition route_remedy :: string where
  "route_remedy = ''inspect the selected ZKA workspace route, provider identity, and enrolled card; release and re-claim the bundle only if the binding is wrong''"

definition routeProtocolError :: "string \<Rightarrow> gerror" where
  "routeProtocolError message = APIErr \<lparr>ae_status = 502, ae_code = CodeConfig, ae_message = message,
     ae_remedy = ''upgrade PIVB and ZKA together and re-claim the workspace bundle'', ae_security = False\<rparr>"

definition routeSecurityError :: "string \<Rightarrow> gerror" where
  "routeSecurityError message = APIErr \<lparr>ae_status = 502, ae_code = CodeConfig, ae_message = message,
     ae_remedy = route_remedy, ae_security = True\<rparr>"

definition routeAgreementError :: "string \<Rightarrow> gerror" where
  "routeAgreementError message = APIErr \<lparr>ae_status = 502, ae_code = CodeConfig, ae_message = message,
     ae_remedy = ''align assertion_lifetime_s for this alias in the origin and provider pivb configurations, then retry'',
     ae_security = False\<rparr>"

definition routeFreshnessError :: "string \<Rightarrow> gerror" where
  "routeFreshnessError message = APIErr \<lparr>ae_status = 502, ae_code = CodeConfig, ae_message = message,
     ae_remedy = ''check the origin and provider clocks, then inspect the selected ZKA workspace route before retrying'',
     ae_security = False\<rparr>"

definition mapRouteError :: "gerror \<Rightarrow> gerror" where
  "mapRouteError e =
     (case errors_as node_api e of
        Some a \<Rightarrow> APIErr a
      | None \<Rightarrow>
          (case errors_as node_protocol e of
             Some p \<Rightarrow> routeProtocolError (err_text (ProtocolError p))
           | None \<Rightarrow> APIErr \<lparr>ae_status = 503, ae_code = CodeUnavailable,
               ae_message = ''selected PIVB workspace route is unavailable'',
               ae_remedy = ''check the ZKA workspace claim and route status'', ae_security = False\<rparr>))"

subsection \<open>The routed mint\<close>

record route_env =
  re_exchange :: "string \<Rightarrow> mint_request \<Rightarrow> mint_response exchange"
  re_started :: gotime
  re_now1 :: gotime
  re_now2 :: gotime

text \<open>The request the origin sends: no card and no context of its own choosing.\<close>

definition route_request :: "request \<Rightarrow> mint_request" where
  "route_request req = mint_wire \<lparr>mq_version = 0, mq_alias = rq_alias req, mq_audience = rq_audience req,
     mq_email = rq_email req, mq_source = Some (rq_source req), mq_expected_card = no_card, mq_context = no_context\<rparr>"

definition claims_agree :: "config \<Rightarrow> request \<Rightarrow> alias_config \<Rightarrow> card_identity \<Rightarrow> claims \<Rightarrow> bool" where
  "claims_agree cfg req alias crd c \<longleftrightarrow>
     \<not> (cl_iss c \<noteq> pv_issuer (Provider cfg) \<or> cl_aud c \<noteq> OIDCAudience (Provider cfg) \<or>
        cl_sub c \<noteq> SubjectPrefix @ ci_key_id crd \<or> cl_alias c \<noteq> rq_alias req \<or>
        cl_target c \<noteq> al_target alias \<or> cl_serial c \<noteq> serial_text (ci_serial crd) \<or> cl_jti c = [])"

definition claims_fresh :: "alias_config \<Rightarrow> route_env \<Rightarrow> int \<Rightarrow> claims \<Rightarrow> bool" where
  "claims_fresh alias env expiration c \<longleftrightarrow>
     (let originReuse = dur_seconds (al_reuse_s alias);
          oldest = time_add (re_started env) (wrap64 (- 2 * ClockSkew - originReuse))
      in \<not> (expiration \<noteq> cl_exp c \<or> \<not> ExpiresAt c > re_now1 env \<or>
            cl_iat c < unix_of oldest \<or> cl_iat c > unix_of (time_add (re_now2 env) ClockSkew)))"

text \<open>The checks on the response, in the code's order.\<close>

definition verifyResponse :: "crypto \<Rightarrow> config \<Rightarrow> request \<Rightarrow> alias_config \<Rightarrow> route_env \<Rightarrow> mint_response \<Rightarrow> token_result res" where
  "verifyResponse cr cfg req alias env response =
     (let crd = mp_card response; expected = mp_expected_card response in
      if ci_serial crd \<noteq> ci_serial expected \<or> ci_key_id crd \<noteq> ci_key_id expected \<or>
         \<not> equalBytes (ci_spki crd) (ci_spki expected)
      then Inl (routeSecurityError ''forwarded PIVB response card does not match the active workspace route'')
      else case VerifyForwarded cr (mp_id_token response) (ci_spki crd) of
          Inl e \<Rightarrow> Inl (routeSecurityError (''verify forwarded PIVB assertion: '' @ err_text e))
        | Inr verified \<Rightarrow>
            let c = vt_claims verified in
            (case map_of (KeysBySerial cfg) (ci_serial crd) of
               None \<Rightarrow> Inl (routeSecurityError (''forwarded PIVB card '' @ serial_text (ci_serial crd) @ ''/''
                 @ ci_key_id crd @ '' is not enrolled on this origin''))
             | Some key \<Rightarrow>
                 if kc_jwk_kid key \<noteq> ci_key_id crd \<or> cl_key_id c \<noteq> ci_key_id crd
                 then Inl (routeSecurityError (''forwarded PIVB card '' @ serial_text (ci_serial crd) @ ''/''
                   @ ci_key_id crd @ '' is not enrolled on this origin''))
                 else if \<not> claims_agree cfg req alias crd c
                 then Inl (routeSecurityError ''forwarded PIVB assertion claims do not match the requested local configuration'')
                 else
                   let want = dur_in_seconds (aliasAssertionLifetime alias) in
                   if wrap64 (cl_exp c - cl_iat c) \<noteq> want
                   then Inl (routeAgreementError (''forwarded PIVB assertion for alias '' @ go_quote (rq_alias req)
                     @ '' is valid for '' @ fmt_int (wrap64 (cl_exp c - cl_iat c))
                     @ ''s but this origin configures assertion_lifetime_s = '' @ fmt_int want))
                   else if \<not> claims_fresh alias env (mp_expiration response) c
                   then Inl (routeFreshnessError ''forwarded PIVB assertion is stale or its expiry envelope disagrees'')
                   else if ci_key_id crd \<noteq> vt_header_kid verified
                   then Inl (routeSecurityError ''forwarded PIVB response card does not match the signed token'')
                   else Inr \<lparr>st_token = mp_id_token response, st_expires = ExpiresAt c, st_serial = ci_serial crd,
                       st_key_id = ci_key_id crd, st_spki = ci_spki crd, st_context = mp_context response,
                       st_reused = False, st_granted_s = 0, st_granted_deadline = 0\<rparr>))"

definition RouteSubjectToken :: "crypto \<Rightarrow> route_env \<Rightarrow> config option \<Rightarrow> request \<Rightarrow> token_result res" where
  "RouteSubjectToken cr env config req =
     (case config of
        None \<Rightarrow> Inl (APIErr \<lparr>ae_status = 500, ae_code = CodeConfig, ae_message = ''PIVB configuration is unavailable'',
          ae_remedy = [], ae_security = False\<rparr>)
      | Some cfg \<Rightarrow>
     (case attachment_Validate (rq_attachment req) of
        Some e \<Rightarrow> Inl e
      | None \<Rightarrow>
     if \<not> RouteRequired (rq_attachment req)
     then Inl (PolicyError ''routed mint requires route-required attachment policy'')
     else
     (case source_Validate (rq_source req) (rq_alias req) of
        Inl e \<Rightarrow> Inl (RequestSource e)
      | Inr (source, _) \<Rightarrow>
     let req1 = req\<lparr>rq_source := source, rq_route_socket := at_route (rq_attachment req)\<rparr> in
     (case map_of (cf_aliases cfg) (rq_alias req1) of
        None \<Rightarrow> Inl (UnknownAlias (rq_alias req1))
      | Some alias \<Rightarrow>
     if rq_audience req1 \<noteq> ExternalAccountAudience (Provider cfg)
     then Inl (RequestMismatch ''external_account_audience'' (rq_audience req1) (ExternalAccountAudience (Provider cfg)))
     else if rq_email req1 \<noteq> al_target alias
     then Inl (RequestMismatch ''impersonated_email'' (rq_email req1) (al_target alias))
     else
     (case client_Mint (re_exchange env (rq_route_socket req1) (route_request req1)) of
        Inl e \<Rightarrow> Inl (mapRouteError e)
      | Inr response \<Rightarrow> verifyResponse cr cfg req1 alias env response)))))"

subsection \<open>\<open>Core.SubjectToken\<close>\<close>

record token_env =
  te_route :: route_env
  te_recorded :: gotime
  te_mint :: mint_env

definition SubjectToken :: "crypto \<Rightarrow> token_env \<Rightarrow> request \<Rightarrow> core \<Rightarrow> token_result res \<times> core" where
  "SubjectToken cr env req c =
     (case attachment_Validate (rq_attachment req) of
        Some e \<Rightarrow> (Inl e, c)
      | None \<Rightarrow>
          if RouteRequired (rq_attachment req) then
            (if rq_route_socket req \<noteq> [] \<and> rq_route_socket req \<noteq> at_route (rq_attachment req)
             then (Inl (PolicyError ''trusted request route conflicts with its attachment policy''), c)
             else
               let req1 = req\<lparr>rq_route_socket := at_route (rq_attachment req)\<rparr> in
               (case RouteSubjectToken cr (te_route env) (Some (c_cfg c)) req1 of
                  Inl e \<Rightarrow> (Inl e, c)
                | Inr result \<Rightarrow>
                    let at = te_recorded env in
                    (Inr result,
                     recordMint \<lparr>mr_at = at, mr_alias = rq_alias req1, mr_session = src_session (rq_source req1),
                         mr_reused = False, mr_forwarded = True\<rparr>
                       (c\<lparr>c_last := Some \<lparr>se_alias = rq_alias req1, se_target = rq_email req1,
                          se_serial = st_serial result, se_key_id = st_key_id result, se_at = at,
                          se_route = ''zka-workspace-forwarded'', se_context = st_context result\<rparr>\<rparr>))))
          else LocalSubjectToken cr (te_mint env) req c)"

subsection \<open>What an accepted route answer guarantees\<close>

lemma claims_agree_iff:
  "claims_agree cfg req alias crd c \<longleftrightarrow>
     cl_iss c = pv_issuer (Provider cfg) \<and> cl_aud c = OIDCAudience (Provider cfg) \<and>
     cl_sub c = SubjectPrefix @ ci_key_id crd \<and> cl_alias c = rq_alias req \<and> cl_target c = al_target alias \<and>
     cl_serial c = serial_text (ci_serial crd) \<and> cl_jti c \<noteq> []"
  by (auto simp: claims_agree_def)

lemma verifyResponse_Inr:
  "verifyResponse cr cfg req alias env response = Inr r \<longleftrightarrow>
     mp_card response = mp_expected_card response \<and>
     (\<exists>v. VerifyForwarded cr (mp_id_token response) (ci_spki (mp_card response)) = Inr v \<and>
        map_of (KeysBySerial cfg) (ci_serial (mp_card response)) = Some \<lparr>kc_jwk_kid = ci_key_id (mp_card response)\<rparr> \<and>
        cl_key_id (vt_claims v) = ci_key_id (mp_card response) \<and> vt_header_kid v = ci_key_id (mp_card response) \<and>
        claims_agree cfg req alias (mp_card response) (vt_claims v) \<and>
        wrap64 (cl_exp (vt_claims v) - cl_iat (vt_claims v)) = dur_in_seconds (aliasAssertionLifetime alias) \<and>
        claims_fresh alias env (mp_expiration response) (vt_claims v) \<and>
        r = \<lparr>st_token = mp_id_token response, st_expires = ExpiresAt (vt_claims v), st_serial = ci_serial (mp_card response),
          st_key_id = ci_key_id (mp_card response), st_spki = ci_spki (mp_card response), st_context = mp_context response,
          st_reused = False, st_granted_s = 0, st_granted_deadline = 0\<rparr>)"
  (is "?L = ?R")
proof
  assume ?L
  then show ?R
    by (auto simp: verifyResponse_def Let_def equalBytes_iff split: if_splits sum.splits option.splits)
next
  assume ?R
  then show ?L
    by (elim conjE exE) (simp add: verifyResponse_def Let_def equalBytes_iff)
qed

lemma RouteSubjectToken_Inr:
  "RouteSubjectToken cr env (Some cfg) req = Inr r \<longleftrightarrow>
     attachment_Validate (rq_attachment req) = None \<and> RouteRequired (rq_attachment req) \<and>
     (\<exists>source l alias response. source_Validate (rq_source req) (rq_alias req) = Inr (source, l) \<and>
        map_of (cf_aliases cfg) (rq_alias req) = Some alias \<and>
        rq_audience req = ExternalAccountAudience (Provider cfg) \<and> rq_email req = al_target alias \<and>
        client_Mint (re_exchange env (at_route (rq_attachment req)) (route_request (req\<lparr>rq_source := source\<rparr>))) = Inr response \<and>
        verifyResponse cr cfg (req\<lparr>rq_source := source, rq_route_socket := at_route (rq_attachment req)\<rparr>) alias env response = Inr r)"
  by (auto simp: RouteSubjectToken_def Let_def route_request_def split: option.split sum.split)

text \<open>C12: an origin hands out only what its own configuration asked for. A token accepted over
  the route at a request for a configured alias, audience and target was signed by a key
  enrolled under the serial the response names, its claims name this origin's issuer and
  audience and exactly the requested alias and its configured target, it lives as long as
  the alias configures, has not expired, and was dated no earlier than the alias's reuse
  plus two clock skews before the request started.\<close>

theorem RouteSubjectToken_sound:
  assumes "RouteSubjectToken cr env (Some cfg) req = Inr r"
  shows "\<exists>alias v. map_of (cf_aliases cfg) (rq_alias req) = Some alias \<and>
    rq_audience req = ExternalAccountAudience (Provider cfg) \<and> rq_email req = al_target alias \<and>
    VerifyForwarded cr (st_token r) (st_spki r) = Inr v \<and>
    map_of (KeysBySerial cfg) (st_serial r) = Some \<lparr>kc_jwk_kid = vt_header_kid v\<rparr> \<and> st_key_id r = vt_header_kid v \<and>
    cl_iss (vt_claims v) = pv_issuer (Provider cfg) \<and> cl_aud (vt_claims v) = OIDCAudience (Provider cfg) \<and>
    cl_sub (vt_claims v) = SubjectPrefix @ vt_header_kid v \<and> cl_serial (vt_claims v) = serial_text (st_serial r) \<and>
    cl_alias (vt_claims v) = rq_alias req \<and> cl_target (vt_claims v) = al_target alias \<and>
    wrap64 (cl_exp (vt_claims v) - cl_iat (vt_claims v)) = dur_in_seconds (aliasAssertionLifetime alias) \<and>
    st_expires r = ExpiresAt (vt_claims v) \<and> re_now1 env < st_expires r \<and>
    unix_of (time_add (re_started env) (wrap64 (- 2 * ClockSkew - dur_seconds (al_reuse_s alias)))) \<le> cl_iat (vt_claims v) \<and>
    cl_iat (vt_claims v) \<le> unix_of (time_add (re_now2 env) ClockSkew)"
proof -
  from assms obtain source al response where a: "map_of (cf_aliases cfg) (rq_alias req) = Some al"
      "rq_audience req = ExternalAccountAudience (Provider cfg)" "rq_email req = al_target al"
    and v: "verifyResponse cr cfg (req\<lparr>rq_source := source, rq_route_socket := at_route (rq_attachment req)\<rparr>) al env response = Inr r"
    unfolding RouteSubjectToken_Inr by blast
  from v obtain w where w: "VerifyForwarded cr (mp_id_token response) (ci_spki (mp_card response)) = Inr w"
      "map_of (KeysBySerial cfg) (ci_serial (mp_card response)) = Some \<lparr>kc_jwk_kid = ci_key_id (mp_card response)\<rparr>"
      "vt_header_kid w = ci_key_id (mp_card response)"
      "claims_agree cfg (req\<lparr>rq_source := source, rq_route_socket := at_route (rq_attachment req)\<rparr>) al (mp_card response) (vt_claims w)"
      "wrap64 (cl_exp (vt_claims w) - cl_iat (vt_claims w)) = dur_in_seconds (aliasAssertionLifetime al)"
      "claims_fresh al env (mp_expiration response) (vt_claims w)"
    and r: "st_token r = mp_id_token response" "st_spki r = ci_spki (mp_card response)"
      "st_serial r = ci_serial (mp_card response)" "st_key_id r = ci_key_id (mp_card response)" "st_expires r = ExpiresAt (vt_claims w)"
    unfolding verifyResponse_Inr by auto
  have f: "re_now1 env < ExpiresAt (vt_claims w) \<and>
      unix_of (time_add (re_started env) (wrap64 (- 2 * ClockSkew - dur_seconds (al_reuse_s al)))) \<le> cl_iat (vt_claims w) \<and>
      cl_iat (vt_claims w) \<le> unix_of (time_add (re_now2 env) ClockSkew)"
    using w(6) by (simp add: claims_fresh_def Let_def not_less)
  show ?thesis
    using a w(1-3,5) w(4) [unfolded claims_agree_iff] r f by (intro exI [of _ al] exI [of _ w]) simp
qed

text \<open>When the clocks of origin and provider agree to within one skew and the assertion is no
  older than the reuse the origin configures, the freshness check passes.\<close>

lemma NewClaims_iat: "NewClaims p al target serial kid jti now lifetime = Inr c \<Longrightarrow>
    cl_iat c = unix_of (time_add now (- ClockSkew))"
  by (auto simp: NewClaims_def Let_def split: if_splits)

lemma claims_fresh_signed:
  assumes "clock_ok now" and "ClockSkew \<le> now" and "NewClaims p al target serial kid jti now lifetime = Inr c"
    and "clock_ok (re_started env)" and "clock_ok (re_now2 env)" and "clock_ok (re_now2 env + ClockSkew)"
    and "0 \<le> al_reuse_s a" and "al_reuse_s a \<le> 3600"
    and "re_started env \<le> now + ClockSkew + al_reuse_s a * second" and "now \<le> re_now2 env + 2 * ClockSkew"
    and "3690 * second \<le> re_started env" and "re_now1 env < ExpiresAt c"
  shows "claims_fresh a env (cl_exp c) c"
proof -
  let ?r = "al_reuse_s a * second"
  have iat: "cl_iat c = (now + (- 30) * second) div second - unix_to_internal"
    using NewClaims_iat [OF assms(3)] unix_of_backdated [OF assms(1,2)] div_mult_self1 [of second now "- 30"] by simp
  have ds: "dur_seconds (al_reuse_s a) = ?r" using assms(7,8) by (intro dur_seconds_exact) simp
  have w: "wrap64 (- 2 * ClockSkew - dur_seconds (al_reuse_s a)) = - (60 * second) - ?r"
    unfolding ds ClockSkew_def using assms(7,8) by (subst wrap64_exact) (auto simp: in_int64_def)
  have d: "dur_ok (- (60 * second) - ?r)" using assms(7,8) by (simp add: dur_ok_def)
  have t1: "time_add (re_started env) (- (60 * second) - ?r) = re_started env - 60 * second - ?r"
    using time_add_clock [OF assms(4) d] by simp
  have t2: "time_add (re_now2 env) ClockSkew = re_now2 env + ClockSkew"
    using time_add_clock [OF assms(5), of ClockSkew] by (simp add: dur_ok_def ClockSkew_def)
  have c1: "clock_ok (re_started env - 60 * second - ?r)" using assms(4,7,8,11) by (simp add: clock_ok_def)
  have "(re_started env - 60 * second - ?r) div second \<le> (now + (- 30) * second) div second"
    using assms(9) by (intro zdiv_mono1) (simp_all add: ClockSkew_def)
  moreover have "(now + (- 30) * second) div second \<le> (re_now2 env + ClockSkew) div second"
    using assms(10) by (intro zdiv_mono1) (simp_all add: ClockSkew_def)
  ultimately show ?thesis
    using assms(12) unfolding claims_fresh_def Let_def w t1 t2 unix_of_exact [OF c1] unix_of_exact [OF assms(6)] iat
    by (simp add: not_less)
qed

subsection \<open>A provider and an origin that agree\<close>

text \<open>What a provider's card signs over the digest its core built is accepted by an origin whose
  configuration names the same provider, target, lifetime and key.\<close>

lemma verifyResponse_signed:
  assumes b: "bound_claims cr pcfg mx now jti serial cert kid c"
    and i: "SigningInput c = Inr input" and t: "Assemble input sig = Inr token"
    and k: "RSAPublicKey cert = Inr pub" "cr_parse_pkix cr (ct_raw_spki cert) = Inr (RSAKey pub)"
    and v: "cr_verify cr pub (SigningDigest cr input) sig = None" and a: "claims_ascii c"
    and o: "Provider cfg = Provider pcfg" "al_target al = al_target (mx_alias mx)" "rq_alias req = rq_alias (mx_req mx)"
      "aliasAssertionLifetime al = mx_lifetime mx" "map_of (KeysBySerial cfg) serial = Some \<lparr>kc_jwk_kid = kid\<rparr>"
    and now: "clock_ok now" "ClockSkew \<le> now"
    and r: "mp_card response = \<lparr>ci_serial = serial, ci_key_id = kid, ci_spki = ct_raw_spki cert\<rparr>"
      "mp_expected_card response = mp_card response" "mp_id_token response = token" "mp_expiration response = cl_exp c"
    and f: "claims_fresh al env (cl_exp c) c"
  shows "verifyResponse cr cfg req al env response =
    Inr \<lparr>st_token = token, st_expires = ExpiresAt c, st_serial = serial, st_key_id = kid, st_spki = ct_raw_spki cert,
      st_context = mp_context response, st_reused = False, st_granted_s = 0, st_granted_deadline = 0\<rparr>"
proof -
  from b have n: "NewClaims (Provider pcfg) (rq_alias (mx_req mx)) (al_target (mx_alias mx)) serial kid jti now (mx_lifetime mx) = Inr c"
    and kc: "CertificateKeyID cr cert = Inr kid" by (simp_all add: bound_claims_def)
  note s = NewClaims_signed [OF now n]
  have kid: "cl_key_id c = kid" by (subst s(1)) simp
  have pub: "KeyID cr pub = Inr (cl_key_id c)" "cl_key_id c \<noteq> []" using kc s(3) by (simp_all add: CertificateKeyID_def k kid)
  have m: "bit_len (rsa_n pub) = 2048" "rsa_e pub = rsaPublicExponent"
    using k(1) by (auto simp: RSAPublicKey_def split: public_key.splits if_splits)
  from t have "token = input @ ''.'' @ b64_encode sig" by (simp add: Assemble_def split: if_splits)
  with VerifyForwarded_signed [OF a pub k(2) m i v] have vf: "VerifyForwarded cr token (ct_raw_spki cert) =
      Inr \<lparr>vt_header_kid = kid, vt_claims = c, vt_public = pub\<rparr>" by (simp add: kid)
  have l: "wrap64 (cl_exp c - cl_iat c) = dur_in_seconds (mx_lifetime mx)"
  proof -
    have "DefaultLifetime \<le> mx_lifetime mx" "mx_lifetime mx \<le> MaxLifetime"
      using s(2) by (simp_all add: DefaultLifetime_def MaxLifetime_def)
    note d = dur_in_seconds_range [OF this]
    have "cl_exp c - cl_iat c = mx_lifetime mx div second" by (subst s(1)) simp
    with d show ?thesis by (simp add: wrap64_exact in_int64_def)
  qed
  have "claims_agree cfg req al (mp_card response) c"
    unfolding claims_agree_iff o r using s(3) by (subst (1 2 3 4 5 6 7) s(1)) (simp add: serial_text_def)
  with vf l f show ?thesis
    unfolding verifyResponse_Inr r(2-4) by (simp add: r(1) o kid)
qed

text \<open>C15: an origin accepts what an agreeing provider signed. Let a provider's digest callback bind
  claims to a card, the card's key sign them, and the answer carry the assembled token with
  its expiry and the identity of that card as both the card and the expected card. An origin
  configured with the same external provider, target, lifetime and enrolled key, whose clock
  is within the stated distance, accepts it at its first mint, and hands out exactly that
  token with the card's identity and the expiry of the claims.\<close>

theorem route_round_trip:
  assumes "bound_claims cr pcfg mx now jti serial cert kid c" and "SigningInput c = Inr input" and "Assemble input sig = Inr token"
    and "RSAPublicKey cert = Inr pub" and "cr_parse_pkix cr (ct_raw_spki cert) = Inr (RSAKey pub)"
    and "cr_verify cr pub (SigningDigest cr input) sig = None" and "claims_ascii c"
    and "Provider cfg = Provider pcfg" and "map_of (cf_aliases cfg) (rq_alias req) = Some al"
    and "al_target al = al_target (mx_alias mx)" and "rq_alias req = rq_alias (mx_req mx)"
    and "aliasAssertionLifetime al = mx_lifetime mx" and "map_of (KeysBySerial cfg) serial = Some \<lparr>kc_jwk_kid = kid\<rparr>"
    and "rq_audience req = ExternalAccountAudience (Provider cfg)" and "rq_email req = al_target al"
    and "attachment_Validate (rq_attachment req) = None" and "RouteRequired (rq_attachment req)"
    and "source_Validate (rq_source req) (rq_alias req) = Inr (source, label)"
    and "client_Mint (re_exchange env (at_route (rq_attachment req)) (route_request (req\<lparr>rq_source := source\<rparr>))) = Inr response"
    and "mp_card response = \<lparr>ci_serial = serial, ci_key_id = kid, ci_spki = ct_raw_spki cert\<rparr>"
    and "mp_expected_card response = mp_card response" and "mp_id_token response = token" and "mp_expiration response = cl_exp c"
    and "clock_ok now" and "ClockSkew \<le> now" and "clock_ok (re_started env)" and "clock_ok (re_now2 env)"
    and "clock_ok (re_now2 env + ClockSkew)" and "0 \<le> al_reuse_s al" and "al_reuse_s al \<le> 3600"
    and "re_started env \<le> now + ClockSkew + al_reuse_s al * second" and "now \<le> re_now2 env + 2 * ClockSkew"
    and "3690 * second \<le> re_started env" and "re_now1 env < ExpiresAt c"
  shows "\<exists>r. RouteSubjectToken cr env (Some cfg) req = Inr r \<and> st_token r = token \<and> st_serial r = serial \<and>
    st_key_id r = kid \<and> st_spki r = ct_raw_spki cert \<and> st_expires r = ExpiresAt c"
proof -
  have "NewClaims (Provider pcfg) (rq_alias (mx_req mx)) (al_target (mx_alias mx)) serial kid jti now (mx_lifetime mx) = Inr c"
    using assms(1) by (simp add: bound_claims_def)
  note f = claims_fresh_signed [OF assms(24,25) this assms(26-34)]
  let ?req = "req\<lparr>rq_source := source, rq_route_socket := at_route (rq_attachment req)\<rparr>"
  have "rq_alias ?req = rq_alias (mx_req mx)" using assms(11) by simp
  note v = verifyResponse_signed [OF assms(1-8,10) this assms(12,13,24,25,20-23) f]
  show ?thesis unfolding RouteSubjectToken_Inr using assms(9,14-19) v by auto
qed

subsection \<open>One routed mint\<close>

definition demo_attachment :: attachment where
  "demo_attachment = RouteRequiredCtx ProtocolEnvironment ''/s''"

definition demo_routed :: request where
  "demo_routed = demo_request\<lparr>rq_attachment := demo_attachment\<rparr>"

definition demo_claim :: claims where
  "demo_claim = \<lparr>cl_iss = ''https://i.x'', cl_sub = SubjectPrefix @ demo_kid, cl_aud = OIDCAudience (Provider demo_config),
     cl_iat = 970, cl_exp = 1270, cl_jti = ''j'', cl_alias = ''ro'', cl_target = al_target demo_alias,
     cl_serial = fmt_nat 7, cl_key_id = demo_kid\<rparr>"

definition demo_wire :: "string \<Rightarrow> string" where
  "demo_wire input = input @ ''.'' @ b64_encode (SigningDigest demo_crypto input)"

definition demo_response :: "string \<Rightarrow> mint_response" where
  "demo_response input = \<lparr>mp_version = ProtocolVersion, mp_id_token = demo_wire input, mp_expiration = 1270,
     mp_card = \<lparr>ci_serial = 7, ci_key_id = demo_kid, ci_spki = ct_raw_spki demo_cert\<rparr>,
     mp_expected_card = \<lparr>ci_serial = 7, ci_key_id = demo_kid, ci_spki = ct_raw_spki demo_cert\<rparr>,
     mp_context = no_context\<lparr>fc_origin := ''o'', fc_workspace := ''w'', fc_operation := ''x''\<rparr>,
     mp_granted_s = 0, mp_granted_deadline = 0\<rparr>"

definition demo_route_env :: "string \<Rightarrow> route_env" where
  "demo_route_env input = \<lparr>re_exchange = (\<lambda>_ _. Answer \<lparr>rs_status = 200, rs_bytes = [], rs_error = None, rs_value = Inr (demo_response input),
       rs_more = False\<rparr>),
     re_started = demo_now, re_now1 = demo_now, re_now2 = demo_now\<rparr>"

lemma demo_claim_new:
  "NewClaims (Provider demo_config) ''ro'' (al_target demo_alias) 7 demo_kid ''j'' demo_now (300 * second) = Inr demo_claim"
proof -
  obtain c where n: "NewClaims (Provider demo_config) ''ro'' (al_target demo_alias) 7 demo_kid ''j'' demo_now (300 * second) = Inr c"
    using demo_new_claims [of "''j''"] by auto
  have k: "clock_ok demo_now" "ClockSkew \<le> demo_now" by (simp_all add: clock_ok_def ClockSkew_def demo_now_def)
  have d: "demo_now div second - unix_to_internal - 30 = 970" by (simp add: demo_now_def)
  have "cl_iat c = 970" by (subst NewClaims_signed(1) [OF k n]) (simp add: d [simplified])
  moreover have "pv_issuer (Provider demo_config) = ''https://i.x''" by (simp add: Provider_def demo_config_def)
  ultimately have "c = demo_claim"
    by (subst NewClaims_signed(1) [OF k n]) (simp add: demo_claim_def d [simplified])
  with n show ?thesis by simp
qed

lemma demo_claim_bound: "bound_claims demo_crypto demo_config demo_mx demo_now ''j'' 7 demo_cert demo_kid demo_claim"
  using demo_claim_new
  by (simp add: bound_claims_def demo_keys CertificateKeyID_demo demo_mx_def demo_request_def demo_card_def Let_def)

lemma demo_claim_ascii: "claims_ascii demo_claim"
  by (simp add: claims_ascii_def demo_claim_def ascii_demo_kid in_int64_def SubjectPrefix_def OIDCAudience_def
      Resource_def Provider_def demo_config_def demo_alias_def fmt_nat.simps digit_char_def)

lemma demo_clock: "clock_ok demo_now" "ClockSkew \<le> demo_now" "clock_ok (demo_now + ClockSkew)"
    "3690 * second \<le> demo_now" "demo_now < ExpiresAt demo_claim"
  by (simp_all add: clock_ok_def ClockSkew_def demo_now_def ExpiresAt_def demo_claim_def time_unix_def wrap64_def)

lemma demo_route_valid: "attachment_Validate demo_attachment = None" "RouteRequired demo_attachment"
proof -
  have "ValidateRoute ''/s'' = None"
    by (simp add: ValidateRoute_def is_abs_def has_prefix_def path_clean_def Let_def)
  then show "attachment_Validate demo_attachment = None"
    by (simp add: attachment_Validate_def demo_attachment_def RouteRequiredCtx_def)
  show "RouteRequired demo_attachment" by (simp add: demo_attachment_def RouteRequired_def RouteRequiredCtx_def)
qed

lemma demo_routed_fields:
  "rq_alias demo_routed = ''ro''" "rq_source demo_routed = zero_source" "rq_attachment demo_routed = demo_attachment"
  "rq_audience demo_routed = ExternalAccountAudience (Provider demo_config)" "rq_email demo_routed = al_target demo_alias"
  by (simp_all add: demo_routed_def demo_request_def demo_alias_def)

lemma demo_exchange: "client_Mint (re_exchange (demo_route_env input) p q) = Inr (demo_response input)"
  using demo_kid_nonempty
  by (simp add: demo_route_env_def client_Mint_def client_do_def demo_response_def demo_wire_def demo_cert_def no_context_def)

lemma demo_signing: obtains input where "SigningInput demo_claim = Inr input"
  using demo_kid_nonempty by (simp add: SigningInput_def demo_claim_def)

lemma demo_route_assembled:
  assumes "SigningInput demo_claim = Inr input"
  shows "Assemble input (SigningDigest demo_crypto input) = Inr (demo_wire input)"
  using SigningInput_nonempty [OF assms] by (simp add: Assemble_def demo_wire_def demo_signature)

lemma demo_agree:
  "mx_alias demo_mx = demo_alias" "rq_alias (mx_req demo_mx) = ''ro''" "mx_lifetime demo_mx = 300 * second"
  "aliasAssertionLifetime demo_alias = 300 * second" "al_reuse_s demo_alias = 0"
  "source_Validate zero_source ''ro'' = Inr (Local, zero_label)" "map_of (cf_aliases demo_config) ''ro'' = Some demo_alias"
  by (simp_all add: demo_mx_def demo_request_def Let_def demo_alias_def aliasAssertionLifetime_def dur_seconds_def wrap64_def
      demo_config_def) (simp add: source_Validate_def Local_def KindLocal_def)

lemma demo_answer:
  "mp_card (demo_response input) = \<lparr>ci_serial = 7, ci_key_id = demo_kid, ci_spki = ct_raw_spki demo_cert\<rparr>"
  "mp_expected_card (demo_response input) = mp_card (demo_response input)" "mp_id_token (demo_response input) = demo_wire input"
  "mp_expiration (demo_response input) = cl_exp demo_claim"
  "re_started (demo_route_env input) = demo_now" "re_now1 (demo_route_env input) = demo_now"
  "re_now2 (demo_route_env input) = demo_now"
  by (simp_all add: demo_response_def demo_claim_def demo_route_env_def)

lemma demo_fresh: "claims_fresh demo_alias (demo_route_env input) (cl_exp demo_claim) demo_claim"
  by (rule claims_fresh_signed [OF demo_clock(1,2) demo_claim_new])
    (use demo_clock in \<open>simp_all only: demo_answer demo_agree\<close>, simp_all add: ClockSkew_def)

lemma demo_route_token:
  assumes "SigningInput demo_claim = Inr input"
  shows "\<exists>r. RouteSubjectToken demo_crypto (demo_route_env input) (Some demo_config) demo_routed = Inr r \<and> st_serial r = 7"
proof -
  let ?req = "demo_routed\<lparr>rq_source := Local, rq_route_socket := at_route demo_attachment\<rparr>"
  have "rq_alias ?req = rq_alias (mx_req demo_mx)" by (simp add: demo_routed_fields demo_agree)
  have "\<exists>r. verifyResponse demo_crypto demo_config ?req demo_alias (demo_route_env input) (demo_response input) = Inr r \<and> st_serial r = 7"
    using verifyResponse_signed [OF demo_claim_bound assms demo_route_assembled [OF assms] RSAPublicKey_demo demo_parse
        demo_signature(1) demo_claim_ascii refl _ \<open>rq_alias ?req = rq_alias (mx_req demo_mx)\<close> _ demo_keys demo_clock(1,2)
        demo_answer(1-4) demo_fresh] by (simp add: demo_agree)
  then show ?thesis
    unfolding RouteSubjectToken_Inr by (auto simp: demo_routed_fields demo_agree demo_exchange demo_route_valid)
qed

theorem RouteSubjectToken_sound_witness:
  "\<exists>(r :: token_result) v. VerifyForwarded demo_crypto (st_token r) (st_spki r) = Inr v \<and> vt_header_kid v = demo_kid \<and> st_serial r = 7"
proof -
  obtain input where i: "SigningInput demo_claim = Inr input" by (rule demo_signing)
  from demo_route_token [OF i] obtain r where
    r: "RouteSubjectToken demo_crypto (demo_route_env input) (Some demo_config) demo_routed = Inr r" and s: "st_serial r = 7" by blast
  from RouteSubjectToken_sound [OF r] obtain v where v: "VerifyForwarded demo_crypto (st_token r) (st_spki r) = Inr v"
      "map_of (KeysBySerial demo_config) (st_serial r) = Some \<lparr>kc_jwk_kid = vt_header_kid v\<rparr>" by blast
  with s demo_keys have "vt_header_kid v = demo_kid" by simp
  with v(1) s show ?thesis by blast
qed

theorem route_round_trip_witness:
  "\<exists>input r. RouteSubjectToken demo_crypto (demo_route_env input) (Some demo_config) demo_routed = Inr r \<and>
     st_token r = demo_wire input"
proof -
  obtain input where i: "SigningInput demo_claim = Inr input" by (rule demo_signing)
  have "\<exists>r. RouteSubjectToken demo_crypto (demo_route_env input) (Some demo_config) demo_routed = Inr r \<and> st_token r = demo_wire input \<and>
      st_serial r = 7 \<and> st_key_id r = demo_kid \<and> st_spki r = ct_raw_spki demo_cert \<and> st_expires r = ExpiresAt demo_claim"
    by (rule route_round_trip [OF demo_claim_bound i demo_route_assembled [OF i] RSAPublicKey_demo demo_parse demo_signature(1)
        demo_claim_ascii refl])
      (use demo_clock in \<open>simp_all only: demo_routed_fields demo_agree demo_answer demo_exchange demo_keys demo_route_valid\<close>,
       simp_all add: ClockSkew_def demo_answer demo_agree)
  then show ?thesis by blast
qed

end
