(* ===== verification/Forward_Backend.thy ===== *)
theory Forward_Backend
  imports Core_Genuine Core_Route
begin

text \<open>
  The forwarding socket of the daemon (\<open>cmd/pivb/forward.go\<close>, \<open>forward_id.go\<close>): the backend that
  puts the core behind \<open>forwardapi\<close>'s handlers, with the checks on the authenticated ZKA
  context. What a handler may rely on of a backend is the locale \<open>careful_backend\<close>; the
  daemon's backend is its interpretation. Log lines and the peer they name are output.
\<close>

subsection \<open>Identifiers\<close>

definition validLowerHex :: "string \<Rightarrow> bool" where
  "validLowerHex value = list_all (\<lambda>c. \<not> (cp c < 48 \<or> cp c > 57 \<and> (cp c < 97 \<or> cp c > 102))) value"

definition validForwardID :: "string \<Rightarrow> bool" where
  "validForwardID value \<longleftrightarrow> length value = 32 \<and> validLowerHex value"

definition validForwardAttachmentID :: "string \<Rightarrow> bool" where
  "validForwardAttachmentID value \<longleftrightarrow> (length value = 24 \<or> length value = 32) \<and> validLowerHex value"

definition forward_name_char :: "nat \<Rightarrow> char \<Rightarrow> bool" where
  "forward_name_char i c \<longleftrightarrow>
     97 \<le> cp c \<and> cp c \<le> 122 \<or> 65 \<le> cp c \<and> cp c \<le> 90 \<or> 48 \<le> cp c \<and> cp c \<le> 57 \<or>
     i > 0 \<and> (c = CHR ''.'' \<or> c = CHR ''_'' \<or> c = CHR ''-'')"

fun forward_name_chars :: "nat \<Rightarrow> string \<Rightarrow> bool" where
  "forward_name_chars i [] = True"
| "forward_name_chars i (c # cs) = (if forward_name_char i c then forward_name_chars (Suc i) cs else False)"

definition validForwardName :: "string \<Rightarrow> bool" where
  "validForwardName value = (if length value = 0 \<or> length value > 64 then False else forward_name_chars 0 value)"

definition validForwardWindow :: "forward_context \<Rightarrow> bool" where
  "validForwardWindow fc =
     (if fc_window_s fc < 0 \<or> fc_window_deadline fc < 0 then False
      else (fc_window_s fc = 0) = (fc_window_deadline fc = 0))"

definition validForwardContext :: "forward_context \<Rightarrow> bool" where
  "validForwardContext fc \<longleftrightarrow>
     validForwardID (fc_origin fc) \<and> validForwardID (fc_workspace fc) \<and> validForwardName (fc_bundle fc) \<and>
     fc_generation fc \<noteq> 0 \<and> validForwardID (fc_provider fc) \<and> validForwardID (fc_operation fc) \<and>
     (fc_attach fc = [] \<or> validForwardAttachmentID (fc_attach fc)) \<and> validForwardWindow fc"

subsection \<open>Errors\<close>

definition WindowNotAllowedRemedy :: string where
  "WindowNotAllowedRemedy = ''raise max_grant_window_s in the provider pivb configuration or re-claim without a window''"

definition provider_unlock_remedy :: string where
  "provider_unlock_remedy = ''run `pivb unlock` on the YubiKey provider host''"

definition forward_error :: "int \<Rightarrow> string \<Rightarrow> string \<Rightarrow> string \<Rightarrow> api_error" where
  "forward_error status code message remedy =
     \<lparr>ae_status = status, ae_code = code, ae_message = message, ae_remedy = remedy, ae_security = False\<rparr>"

definition mapForwardError :: "gerror \<Rightarrow> api_error" where
  "mapForwardError e =
     (case errors_as node_api e of Some existing \<Rightarrow> existing
      | None \<Rightarrow>
     if errors_as node_window e \<noteq> None then forward_error 403 CodeWindowNotAllowed (err_text e) WindowNotAllowedRemedy
     else if errors_as node_locked e \<noteq> None then forward_error 409 CodeLocked (err_text e) provider_unlock_remedy
     else if errors_as node_source e \<noteq> None \<or> errors_as node_alias e \<noteq> None \<or> errors_as node_mismatch e \<noteq> None
     then forward_error 403 CodeConfig (err_text e) ''check the PIVB bundle and provider configuration''
     else (case errors_as node_pin e of
         Some (_, _, remedy, _) \<Rightarrow>
           forward_error 409 CodePIN (err_text e) (if remedy = [] then provider_unlock_remedy else remedy)
       | None \<Rightarrow>
          (case MapAPIError e of
             Some hardwareErr \<Rightarrow> hardwareErr
           | None \<Rightarrow> forward_error 502 CodeSign (''PIVB provider failed: '' @ err_text e)
               ''check the provider card, touch prompt, and daemon journal'')))"

subsection \<open>The backend\<close>

record forward_env =
  fw_token :: token_env
  fw_described :: "(gerror + u32 \<times> certificate) option"

definition forward_Describe :: "crypto \<Rightarrow> forward_env \<Rightarrow> core \<Rightarrow> (api_error + description) \<times> core" where
  "forward_Describe cr env c =
     (case DescribeForwardProvider cr (c_cfg c) (fw_described env) of
        Inl e \<Rightarrow> (Inl (mapForwardError e), c)
      | Inr result \<Rightarrow> (Inr result, c))"

definition forwarded_request :: "mint_request \<Rightarrow> source \<Rightarrow> request" where
  "forwarded_request q src =
     \<lparr>rq_alias = mq_alias q, rq_audience = mq_audience q, rq_email = mq_email q, rq_source = src,
      rq_attachment = LocalAllowed, rq_route_socket = [], rq_card = mq_expected_card q, rq_context = mq_context q\<rparr>"

lemma forwarded_fields:
  "rq_alias (forwarded_request q src) = mq_alias q" "rq_audience (forwarded_request q src) = mq_audience q"
  "rq_email (forwarded_request q src) = mq_email q" "rq_card (forwarded_request q src) = mq_expected_card q"
  "rq_attachment (forwarded_request q src) = LocalAllowed"
  by (simp_all add: forwarded_request_def)

definition forward_Mint :: "crypto \<Rightarrow> forward_env \<Rightarrow> mint_request \<Rightarrow> core \<Rightarrow> (api_error + mint_response) \<times> core" where
  "forward_Mint cr env q c =
     (case mq_source q of
        None \<Rightarrow> (Inl (forward_error 400 CodeConfig ''forwarded PIVB request lacks source or claimed card identity''
          ''release and re-claim the PIVB credential bundle''), c)
      | Some src \<Rightarrow>
     if ci_serial (mq_expected_card q) = 0 \<or> ci_key_id (mq_expected_card q) = [] \<or> ci_spki (mq_expected_card q) = []
     then (Inl (forward_error 400 CodeConfig ''forwarded PIVB request lacks source or claimed card identity''
       ''release and re-claim the PIVB credential bundle''), c)
     else if \<not> validForwardContext (mq_context q)
     then (Inl (forward_error 400 CodeConfig ''forwarded PIVB request lacks authenticated ZKA context''
       ''upgrade and re-claim the PIVB credential bundle''), c)
     else case SubjectToken cr (fw_token env) (forwarded_request q src) c of
         (Inl e, c') \<Rightarrow> (Inl (mapForwardError e), c')
       | (Inr result, c') \<Rightarrow>
           (Inr \<lparr>mp_version = ProtocolVersion, mp_id_token = st_token result, mp_expiration = unix_of (st_expires result),
             mp_card = \<lparr>ci_serial = st_serial result, ci_key_id = st_key_id result, ci_spki = st_spki result\<rparr>,
             mp_expected_card = mq_expected_card q, mp_context = mq_context q,
             mp_granted_s = st_granted_s result, mp_granted_deadline = st_granted_deadline result\<rparr>, c'))"

definition forward_Invalidate :: "invalidate_request \<Rightarrow> core \<Rightarrow> (api_error + invalidate_response) \<times> core" where
  "forward_Invalidate q c =
     (if \<not> validForwardID (iq_workspace q)
      then (Inl (forward_error 400 CodeConfig ''forwarded PIVB invalidation lacks an authenticated ZKA workspace''
        ''upgrade and re-claim the PIVB credential bundle''), c)
      else case InvalidateWorkspace (iq_workspace q) (iq_generation q) c of
          (purged, c') \<Rightarrow> (Inr \<lparr>ip_version = ProtocolVersion, ip_purged = int purged\<rparr>, c'))"

definition forwardBackend :: "crypto \<Rightarrow> forward_env \<Rightarrow> core backend" where
  "forwardBackend cr env =
     \<lparr>be_policy = (\<lambda>c. (Inr (ForwardPolicy (c_cfg c)), c)), be_describe = forward_Describe cr env,
      be_mint = forward_Mint cr env, be_invalidate = forward_Invalidate\<rparr>"

subsection \<open>What the handlers rely on\<close>

text \<open>The calls a peer of the forwarding socket can make.\<close>

datatype forward_call =
    CallPolicy
  | CallDescribe
  | CallMint "mint_request request_body"
  | CallInvalidate "invalidate_request request_body"

definition serve_call :: "'s backend \<Rightarrow> forward_call \<Rightarrow> 's \<Rightarrow> 's" where
  "serve_call be call s =
     (case call of
        CallPolicy \<Rightarrow> snd (handle_policy be s)
      | CallDescribe \<Rightarrow> snd (handle_describe be s)
      | CallMint b \<Rightarrow> snd (handle_mint be b s)
      | CallInvalidate b \<Rightarrow> snd (handle_invalidate be b s))"

locale careful_backend =
  fixes be :: "'s backend" and ok :: "'s \<Rightarrow> bool" and justified :: "mint_request \<Rightarrow> mint_response \<Rightarrow> bool"
  assumes policy_keeps: "ok s \<Longrightarrow> ok (snd (be_policy be s))"
    and describe_keeps: "ok s \<Longrightarrow> ok (snd (be_describe be s))"
    and mint_keeps: "ok s \<Longrightarrow> ok (snd (be_mint be q s))"
    and invalidate_keeps: "ok s \<Longrightarrow> ok (snd (be_invalidate be i s))"
    and mint_justified: "ok s \<Longrightarrow> be_mint be q s = (Inr r, s') \<Longrightarrow> justified q r"
    and version_free: "justified q r \<Longrightarrow> justified q (r\<lparr>mp_version := v\<rparr>)"
begin

lemma handle_mint_keeps: "ok s \<Longrightarrow> ok (snd (handle_mint be b s))"
proof -
  assume "ok s"
  with mint_keeps [of s] show ?thesis
    by (auto simp: handle_mint_def split: sum.split prod.split) (metis snd_conv)+
qed

lemma handle_invalidate_keeps: "ok s \<Longrightarrow> ok (snd (handle_invalidate be b s))"
proof -
  assume "ok s"
  with invalidate_keeps [of s] show ?thesis
    by (auto simp: handle_invalidate_def split: sum.split prod.split) (metis snd_conv)+
qed

lemma serve_keeps: "ok s \<Longrightarrow> ok (serve_call be call s)"
proof (cases call)
  case CallPolicy
  assume "ok s"
  with policy_keeps [of s] show ?thesis by (auto simp: CallPolicy serve_call_def handle_policy_def split: sum.split prod.split)
next
  case CallDescribe
  assume "ok s"
  with describe_keeps [of s] show ?thesis by (auto simp: CallDescribe serve_call_def handle_describe_def split: sum.split prod.split)
qed (simp_all add: serve_call_def handle_mint_keeps handle_invalidate_keeps)

lemma serves_keep: "ok s \<Longrightarrow> ok (fold (serve_call be) calls s)"
  by (induction calls arbitrary: s) (simp_all add: serve_keeps)

text \<open>A 200 reply to a mint is the backend's justified answer to a version 3 request.\<close>

lemma mint_reply:
  assumes "ok s" and "handle_mint be b s = (Reply n r, s')"
  shows "n = 200 \<and> ok s' \<and> mp_version r = ProtocolVersion \<and>
    (\<exists>q. rb_value b = Inr q \<and> mq_version q = ProtocolVersion \<and> justified q r)"
proof -
  from assms(2) obtain q where d: "decodeVersionedRequest b = Inr q" and v: "mq_version q = ProtocolVersion"
    by (auto simp: handle_mint_def writeAPIError_def split: sum.splits if_splits)
  obtain a s1 where m: "be_mint be q s = (a, s1)" by (metis prod.exhaust)
  with assms(2) d v obtain r0 where "a = Inr r0" "r = r0\<lparr>mp_version := ProtocolVersion\<rparr>" "n = 200"
    by (auto simp: handle_mint_def writeAPIError_def split: sum.splits)
  moreover have "ok s'" using handle_mint_keeps [OF assms(1), of b] by (simp add: assms(2))
  ultimately show ?thesis
    using mint_justified [OF assms(1), of q] m version_free d v by (auto simp: decodeVersionedRequest_Inr)
qed

end

subsection \<open>The daemon's backend is careful\<close>

text \<open>The environment of one request, with the PIV hardware behind the signer.\<close>

definition with_hardware :: "sign_env \<Rightarrow> hardware \<Rightarrow> forward_env \<Rightarrow> forward_env" where
  "with_hardware senv hw env =
     env\<lparr>fw_token := fw_token env\<lparr>te_mint := te_mint (fw_token env)\<lparr>me_sign := hardware_signer senv hw\<rparr>\<rparr>\<rparr>"

lemma with_hardware_sign: "me_sign (te_mint (fw_token (with_hardware senv hw env))) = hardware_signer senv hw"
  by (simp add: with_hardware_def)

text \<open>What an answer to a forwarded mint means.\<close>

definition forward_minted :: "config \<Rightarrow> mint_request \<Rightarrow> card_identity \<Rightarrow> int \<Rightarrow> string \<Rightarrow> bool" where
  "forward_minted cfg q crd expiration token \<longleftrightarrow>
     (\<exists>a jti now cl input sig. map_of (cf_aliases cfg) (mq_alias q) = Some a \<and>
        mq_audience q = ExternalAccountAudience (Provider cfg) \<and> mq_email q = al_target a \<and>
        map_of (KeysBySerial cfg) (ci_serial crd) = Some \<lparr>kc_jwk_kid = ci_key_id crd\<rparr> \<and>
        NewClaims (Provider cfg) (mq_alias q) (al_target a) (ci_serial crd) (ci_key_id crd) jti now
          (aliasAssertionLifetime a) = Inr cl \<and>
        SigningInput cl = Inr input \<and> Assemble input sig = Inr token \<and> expiration = unix_of (ExpiresAt cl))"

definition forward_justified :: "config \<Rightarrow> mint_request \<Rightarrow> mint_response \<Rightarrow> bool" where
  "forward_justified cfg q r \<longleftrightarrow>
     mq_source q \<noteq> None \<and> validForwardContext (mq_context q) \<and> card_complete (mq_expected_card q) \<and>
     mp_card r = mq_expected_card q \<and> mp_expected_card r = mq_expected_card q \<and> mp_context r = mq_context q \<and>
     forward_minted cfg q (mq_expected_card q) (mp_expiration r) (mp_id_token r)"

lemma reachable_steps:
  "(core_step cr)\<^sup>*\<^sup>* s s' \<Longrightarrow> core_reachable cr cfg version s \<Longrightarrow> core_reachable cr cfg version s'"
  by (induction rule: rtranclp_induct) (auto intro: core_reachable.step)

subsection \<open>A request is a run\<close>

lemma SubjectToken_steps:
  assumes "me_sign (te_mint env) = hardware_signer senv hw"
  shows "(core_step cr)\<^sup>*\<^sup>* (c, Idle) (snd (SubjectToken cr env req c), Idle)"
proof (cases "attachment_Validate (rq_attachment req) = None \<and> RouteRequired (rq_attachment req)")
  case True
  then have "snd (SubjectToken cr env req c) = c \<or> (\<exists>rec ev. snd (SubjectToken cr env req c) = recordMint rec (c\<lparr>c_last := ev\<rparr>))"
    by (auto simp: SubjectToken_def Let_def split: sum.split)
  then show ?thesis
    using r_into_rtranclp [of "core_step cr", OF core_step.routed] by (elim disjE exE) simp_all
next
  case False
  then show ?thesis
    using LocalSubjectToken_steps [OF assms, of cr c req] by (auto simp: SubjectToken_def split: option.split)
qed


lemma local_runs: "rq_attachment req = LocalAllowed \<Longrightarrow> SubjectToken cr env req c = LocalSubjectToken cr (te_mint env) req c"
  by (simp add: SubjectToken_def)

lemma forward_Mint_Inr:
  assumes "forward_Mint cr env q c = (Inr r, c')"
  obtains src result where "mq_source q = Some src" "card_complete (mq_expected_card q)" "validForwardContext (mq_context q)"
    "LocalSubjectToken cr (te_mint (fw_token env)) (forwarded_request q src) c = (Inr result, c')"
    "r = \<lparr>mp_version = ProtocolVersion, mp_id_token = st_token result, mp_expiration = unix_of (st_expires result),
       mp_card = \<lparr>ci_serial = st_serial result, ci_key_id = st_key_id result, ci_spki = st_spki result\<rparr>,
       mp_expected_card = mq_expected_card q, mp_context = mq_context q,
       mp_granted_s = st_granted_s result, mp_granted_deadline = st_granted_deadline result\<rparr>"
proof -
  from assms obtain src where s: "mq_source q = Some src" "card_complete (mq_expected_card q)" "validForwardContext (mq_context q)"
    by (auto simp: forward_Mint_def card_complete_def split: option.splits if_splits)
  then have "SubjectToken cr (fw_token env) (forwarded_request q src) c =
      LocalSubjectToken cr (te_mint (fw_token env)) (forwarded_request q src) c"
    by (intro local_runs) (simp add: forwarded_request_def)
  with assms s that show thesis
    by (auto simp: forward_Mint_def card_complete_def split: prod.splits sum.splits)
qed

lemma forward_Mint_justified:
  assumes "core_reachable cr cfg version (c, Idle)" and "me_sign (te_mint (fw_token env)) = hardware_signer senv hw"
    and "forward_Mint cr env q c = (Inr r, c')"
  shows "forward_justified cfg q r"
proof -
  from assms(3) obtain src result where f: "mq_source q = Some src" "card_complete (mq_expected_card q)"
      "validForwardContext (mq_context q)"
    and m: "LocalSubjectToken cr (te_mint (fw_token env)) (forwarded_request q src) c = (Inr result, c')"
    and r: "r = \<lparr>mp_version = ProtocolVersion, mp_id_token = st_token result, mp_expiration = unix_of (st_expires result),
       mp_card = \<lparr>ci_serial = st_serial result, ci_key_id = st_key_id result, ci_spki = st_spki result\<rparr>,
       mp_expected_card = mq_expected_card q, mp_context = mq_context q,
       mp_granted_s = st_granted_s result, mp_granted_deadline = st_granted_deadline result\<rparr>"
    by (rule forward_Mint_Inr)
  from handed_out [OF assms(1) m assms(2), unfolded forwarded_fields] obtain a cert jti now cl input sig where
    g: "map_of (cf_aliases cfg) (mq_alias q) = Some a" "mq_audience q = ExternalAccountAudience (Provider cfg)" "mq_email q = al_target a"
      "map_of (KeysBySerial cfg) (st_serial result) = Some \<lparr>kc_jwk_kid = st_key_id result\<rparr>"
      "ci_serial (mq_expected_card q) \<noteq> 0 \<longrightarrow> st_serial result = ci_serial (mq_expected_card q) \<and> st_key_id result = ci_key_id (mq_expected_card q)"
      "ci_spki (mq_expected_card q) \<noteq> [] \<longrightarrow> st_spki result = ci_spki (mq_expected_card q)"
      "NewClaims (Provider cfg) (mq_alias q) (al_target a) (st_serial result) (st_key_id result) jti now (aliasAssertionLifetime a) = Inr cl"
      "SigningInput cl = Inr input" "Assemble input sig = Inr (st_token result)" "st_expires result = ExpiresAt cl"
    by blast
  have crd: "mq_expected_card q = \<lparr>ci_serial = st_serial result, ci_key_id = st_key_id result, ci_spki = st_spki result\<rparr>"
    using g(5,6) f(2) by (simp add: card_complete_def)
  have "forward_minted cfg q \<lparr>ci_serial = st_serial result, ci_key_id = st_key_id result, ci_spki = st_spki result\<rparr>
      (unix_of (st_expires result)) (st_token result)"
    unfolding forward_minted_def using g(1-4,7-10)
    by (intro exI [of _ a] exI [of _ jti] exI [of _ now] exI [of _ cl] exI [of _ input] exI [of _ sig]) simp
  then show ?thesis using f by (simp add: forward_justified_def r crd)
qed

interpretation daemon: careful_backend "forwardBackend cr (with_hardware senv hw env)"
  "\<lambda>c. core_reachable cr cfg version (c, Idle)" "forward_justified cfg"
proof
  fix c q i r c'
  assume c: "core_reachable cr cfg version (c, Idle)"
  show "core_reachable cr cfg version (snd (be_policy (forwardBackend cr (with_hardware senv hw env)) c), Idle)"
    using c by (simp add: forwardBackend_def)
  show "core_reachable cr cfg version (snd (be_describe (forwardBackend cr (with_hardware senv hw env)) c), Idle)"
    using c by (simp add: forwardBackend_def forward_Describe_def split: sum.split)
  show "core_reachable cr cfg version (snd (be_invalidate (forwardBackend cr (with_hardware senv hw env)) i c), Idle)"
    using c core_reachable.step [OF c core_step.invalidate]
    by (auto simp: forwardBackend_def forward_Invalidate_def split: prod.split) (metis snd_conv)
  show "core_reachable cr cfg version (snd (be_mint (forwardBackend cr (with_hardware senv hw env)) q c), Idle)"
  proof -
    let ?env = "with_hardware senv hw env"
    have "core_reachable cr cfg version (snd (LocalSubjectToken cr (te_mint (fw_token ?env)) req c), Idle)" for req
      by (rule reachable_steps [OF LocalSubjectToken_steps [OF with_hardware_sign] c])
    then show ?thesis
      using c by (auto simp: forwardBackend_def forward_Mint_def local_runs forwarded_request_def
          split: option.split prod.split sum.split) (metis snd_conv)+
  qed
  show "forward_justified cfg q r"
    if "be_mint (forwardBackend cr (with_hardware senv hw env)) q c = (Inr r, c')"
    using forward_Mint_justified [OF c with_hardware_sign] that by (simp add: forwardBackend_def)
next
  show "forward_justified cfg q r \<Longrightarrow> forward_justified cfg q (r\<lparr>mp_version := v\<rparr>)" for q r v
    by (simp add: forward_justified_def)
qed

text \<open>C9: what the forwarding socket answers. In any state the daemon can reach, a forwarded mint
  is answered 200 only when the body is a version 3 request with a source, a complete claimed
  card and an authenticated ZKA context (32 digit origin, workspace, provider and operation
  identifiers and a nonzero claim generation); the answer then carries exactly that card and
  context, and a token over claims for the requested, configured alias and target on the key
  enrolled under the claimed card's serial. Every series of calls on the socket leaves the
  daemon in a reachable state.\<close>

theorem forwarded_mint_justified:
  assumes "core_reachable cr cfg version (c, Idle)"
    and "handle_mint (forwardBackend cr (with_hardware senv hw env)) body c = (Reply status r, c')"
  shows "status = 200 \<and> mp_version r = 3 \<and>
    (\<exists>q a jti now cl input sig. rb_value body = Inr q \<and> mq_version q = 3 \<and> mq_source q \<noteq> None \<and>
       mp_card r = mq_expected_card q \<and> mp_expected_card r = mq_expected_card q \<and> ci_serial (mp_card r) \<noteq> 0 \<and>
       mp_context r = mq_context q \<and> fc_generation (mq_context q) \<noteq> 0 \<and>
       list_all (\<lambda>i. length i = 32 \<and> validLowerHex i)
         [fc_origin (mq_context q), fc_workspace (mq_context q), fc_provider (mq_context q), fc_operation (mq_context q)] \<and>
       map_of (cf_aliases cfg) (mq_alias q) = Some a \<and> mq_email q = al_target a \<and>
       map_of (KeysBySerial cfg) (ci_serial (mp_card r)) = Some \<lparr>kc_jwk_kid = ci_key_id (mp_card r)\<rparr> \<and>
       NewClaims (Provider cfg) (mq_alias q) (al_target a) (ci_serial (mp_card r)) (ci_key_id (mp_card r)) jti now
         (aliasAssertionLifetime a) = Inr cl \<and>
       SigningInput cl = Inr input \<and> Assemble input sig = Inr (mp_id_token r) \<and> mp_expiration r = unix_of (ExpiresAt cl)) \<and>
    core_reachable cr cfg version (fold (serve_call (forwardBackend cr (with_hardware senv' hw' env'))) calls c', Idle)"
proof -
  from daemon.mint_reply [OF assms] obtain q where s: "status = 200" "mp_version r = ProtocolVersion"
      "core_reachable cr cfg version (c', Idle)"
    and q: "rb_value body = Inr q" "mq_version q = ProtocolVersion" "forward_justified cfg q r" by blast
  from q(3) obtain a jti now cl input sig where m: "map_of (cf_aliases cfg) (mq_alias q) = Some a" "mq_email q = al_target a"
      "map_of (KeysBySerial cfg) (ci_serial (mq_expected_card q)) = Some \<lparr>kc_jwk_kid = ci_key_id (mq_expected_card q)\<rparr>"
      "NewClaims (Provider cfg) (mq_alias q) (al_target a) (ci_serial (mq_expected_card q)) (ci_key_id (mq_expected_card q)) jti now
         (aliasAssertionLifetime a) = Inr cl"
      "SigningInput cl = Inr input" "Assemble input sig = Inr (mp_id_token r)" "mp_expiration r = unix_of (ExpiresAt cl)"
    unfolding forward_justified_def forward_minted_def by blast
  have c: "mp_card r = mq_expected_card q" "mp_expected_card r = mq_expected_card q" "mp_context r = mq_context q"
      "mq_source q \<noteq> None" "ci_serial (mq_expected_card q) \<noteq> 0" "fc_generation (mq_context q) \<noteq> 0"
      "list_all (\<lambda>i. length i = 32 \<and> validLowerHex i)
         [fc_origin (mq_context q), fc_workspace (mq_context q), fc_provider (mq_context q), fc_operation (mq_context q)]"
    using q(3) by (simp_all add: forward_justified_def card_complete_def validForwardContext_def validForwardID_def)
  show ?thesis
    using s daemon.serves_keep [OF s(3)] q(1,2) m c unfolding ProtocolVersion_def
    by (intro conjI exI [of _ q] exI [of _ a] exI [of _ jti] exI [of _ now] exI [of _ cl] exI [of _ input] exI [of _ sig]) simp_all
qed

subsection \<open>One forwarded mint\<close>

definition demo_forward :: mint_request where
  "demo_forward = \<lparr>mq_version = 3, mq_alias = rq_alias demo_request, mq_audience = rq_audience demo_request,
     mq_email = rq_email demo_request, mq_source = Some zero_source, mq_expected_card = demo_card, mq_context = demo_context\<rparr>"

definition demo_forward_env :: forward_env where
  "demo_forward_env = \<lparr>fw_token = \<lparr>te_route = demo_route_env [], te_recorded = demo_now, te_mint = demo_mint_env\<rparr>, fw_described = None\<rparr>"

lemma demo_forwarded: "forwarded_request demo_forward zero_source = demo_request"
  by (simp add: forwarded_request_def demo_forward_def demo_request_def)

lemma demo_hex: "validLowerHex demo_id" "length demo_id = 32" "demo_id \<noteq> []"
  by (simp_all add: validLowerHex_def demo_id_def list_all_iff)

lemma demo_valid: "validForwardContext demo_context" "card_complete demo_card"
  by (simp_all add: validForwardContext_def demo_context_def validForwardID_def demo_hex validForwardName_def
      forward_name_char_def validForwardWindow_def card_complete_def demo_card_def demo_kid_nonempty demo_cert_def)

theorem forwarded_mint_justified_witness:
  "\<exists>r :: mint_response. \<exists>c'. handle_mint (forwardBackend demo_crypto (with_hardware demo_sign_env demo_hardware demo_forward_env))
     \<lparr>rb_read = None, rb_peek = Some 3, rb_value = Inr demo_forward, rb_more = False\<rparr> demo_unlocked = (Reply 200 r, c') \<and>
     mp_card r = demo_card"
proof -
  let ?be = "forwardBackend demo_crypto (with_hardware demo_sign_env demo_hardware demo_forward_env)"
  define body where "body = \<lparr>rb_read = None, rb_peek = Some 3, rb_value = Inr demo_forward, rb_more = False\<rparr>"
  from demo_mint obtain t c' where m: "LocalSubjectToken demo_crypto demo_mint_env demo_request demo_unlocked = (Inr t, c')" by blast
  have e: "te_mint (fw_token (with_hardware demo_sign_env demo_hardware demo_forward_env)) = demo_mint_env"
    by (simp add: with_hardware_def demo_forward_env_def demo_mint_env_def)
  have f: "mq_source demo_forward = Some zero_source" "mq_expected_card demo_forward = demo_card"
      "mq_context demo_forward = demo_context" "mq_version demo_forward = ProtocolVersion"
    by (simp_all add: demo_forward_def ProtocolVersion_def)
  have l: "rq_attachment demo_request = LocalAllowed" by (simp add: demo_request_def)
  have "\<exists>r. be_mint ?be demo_forward demo_unlocked = (Inr r, c')"
    using demo_valid
    by (simp add: forwardBackend_def forward_Mint_def f demo_forwarded local_runs [OF l] e m card_complete_def)
  moreover have "decodeVersionedRequest body = Inr demo_forward"
    by (simp add: decodeVersionedRequest_Inr body_def ProtocolVersion_def)
  ultimately obtain r where h: "handle_mint ?be body demo_unlocked = (Reply 200 r, c')"
    by (auto simp: handle_mint_def f)
  have "rb_value body = Inr demo_forward" by (simp add: body_def)
  with forwarded_mint_justified [OF demo_reachable h] have "mp_card r = demo_card" by (auto simp: f)
  with h show ?thesis unfolding body_def by blast
qed


end
