(* ===== verification/Wif_Api.thy ===== *)
theory Wif_Api
  imports Forward_Backend
begin

text \<open>
  The WIF signing socket (\<open>internal/wifapi\<close>): one operation, which selects among configured
  values and introduces none, its table of error replies, and the client that reads them.
  The \<open>Core\<close> interface of the package is the locale \<open>token_core\<close>; the daemon's core is its
  interpretation. Log lines are output and not modelled.
\<close>

record wif_request =
  wr_alias :: string
  wr_audience :: string
  wr_email :: string
  wr_source :: "source option"
  wr_route_socket :: string
  wr_route_required :: bool

subsection \<open>Error replies\<close>

definition wif_error :: "int \<Rightarrow> string \<Rightarrow> string \<Rightarrow> string \<Rightarrow> 'r reply" where
  "wif_error status message code remedy = ErrorReply status \<lparr>er_error = message, er_code = code, er_remedy = remedy\<rparr>"

definition writeCoreError :: "gerror \<Rightarrow> 'r reply" where
  "writeCoreError e =
     (case errors_as node_policy e of
        Some message \<Rightarrow> wif_error 403 message CodeRouteRequired ''recreate the managed pane or agent session''
      | None \<Rightarrow>
     (case errors_as node_api e of
        Some a \<Rightarrow> wif_error (if ae_status a = 0 then 502 else ae_status a) (ae_message a) (ae_code a) (ae_remedy a)
      | None \<Rightarrow>
     if errors_as node_locked e \<noteq> None
     then wif_error 409 (err_text e) CodeLocked ''run `pivb unlock` on the trusted host''
     else if errors_as node_source e \<noteq> None
     then wif_error 400 (err_text e) CodeConfig ''send a valid trusted-host request source''
     else if errors_as node_alias e \<noteq> None
     then wif_error 400 (err_text e) CodeConfig ''choose an alias defined in the pivb config''
     else if errors_as node_mismatch e \<noteq> None
     then wif_error 403 (err_text e) CodeConfig ''regenerate the credential file with `pivb wif credentials`''
     else if errors_as node_window e \<noteq> None
     then wif_error 403 (err_text e) CodeWindowNotAllowed WindowNotAllowedRemedy
     else (case errors_as node_card_free e of
         Some (_, remedy) \<Rightarrow> wif_error 403 (err_text e) CodeCardFree (if remedy = [] then CardFreeRemedy else remedy)
       | None \<Rightarrow>
      (case errors_as node_pin e of
         Some (_, _, remedy, _) \<Rightarrow>
           wif_error 409 (err_text e) CodePIN (if remedy = [] then ''run `pivb unlock` with the inserted YubiKey and retry'' else remedy)
       | None \<Rightarrow>
      (case MapAPIError e of
         Some h \<Rightarrow> wif_error (ae_status h) (ae_message h) (ae_code h) (ae_remedy h)
       | None \<Rightarrow> wif_error 502 (err_text e) CodeSign
           ''touch the YubiKey when prompted, check the daemon journal, then retry'')))))"

subsection \<open>The handler\<close>

text \<open>The request the core sees, with the attachment the two route fields stand for.\<close>

definition wif_core_request :: "wif_request \<Rightarrow> attachment \<Rightarrow> request" where
  "wif_core_request q att =
     \<lparr>rq_alias = wr_alias q, rq_audience = wr_audience q, rq_email = wr_email q,
      rq_source = (case wr_source q of None \<Rightarrow> zero_source | Some s \<Rightarrow> s), rq_attachment = att,
      rq_route_socket = wr_route_socket q, rq_card = no_card, rq_context = no_context\<rparr>"

definition wif_attachment :: "wif_request \<Rightarrow> 'r reply + attachment" where
  "wif_attachment q =
     (if wr_route_required q then
        (case ValidateRoute (wr_route_socket q) of
           Some e \<Rightarrow> Inl (wif_error 400 (err_text e) CodeRouteRequired ''recreate the managed pane or agent session'')
         | None \<Rightarrow> Inr (RouteRequiredCtx ProtocolEnvironment (wr_route_socket q)))
      else if wr_route_socket q \<noteq> []
      then Inl (wif_error 400 ''route_socket requires route_required'' CodeRouteRequired ''use the complete managed attachment protocol'')
      else Inr LocalAllowed)"

definition wif_subjectToken ::
    "(request \<Rightarrow> 's \<Rightarrow> token_result res \<times> 's) \<Rightarrow> wif_request request_body \<Rightarrow> 's \<Rightarrow> token_response reply \<times> 's" where
  "wif_subjectToken mint b s =
     (case jsonhttp_Decode b of
        Inl e \<Rightarrow> (wif_error 400 (err_text e) CodeConfig ''send the fixed subject-token request shape'', s)
      | Inr q \<Rightarrow>
          (case wif_attachment q of
             Inl refused \<Rightarrow> (refused, s)
           | Inr att \<Rightarrow>
               (case mint (wif_core_request q att) s of
                  (Inl e, s') \<Rightarrow> (writeCoreError e, s')
                | (Inr result, s') \<Rightarrow>
                    (Reply 200 \<lparr>tr_id_token = st_token result, tr_expiration = unix_of (st_expires result)\<rparr>, s'))))"

subsection \<open>The client\<close>

text \<open>\<open>rs_error\<close> is what the error document holds after \<open>Unmarshal\<close>, \<open>None\<close> when nothing was set.\<close>

definition client_error :: "string \<Rightarrow> 'r response_body \<Rightarrow> gerror" where
  "client_error fallback b =
     (let er = (case rs_error b of None \<Rightarrow> \<lparr>er_error = [], er_code = [], er_remedy = []\<rparr> | Some er \<Rightarrow> er)
      in APIErr \<lparr>ae_status = rs_status b, ae_code = (if er_code er = [] then fallback else er_code er),
           ae_message = (if er_error er = [] then trim_space (rs_bytes b) else er_error er),
           ae_remedy = er_remedy er, ae_security = False\<rparr>)"

definition wif_client_SubjectToken :: "token_response exchange \<Rightarrow> token_response res" where
  "wif_client_SubjectToken x =
     (case x of
        NoConnection e \<Rightarrow> Inl (ErrWrap ''call pivb signing socket: '' e)
      | NoBody e \<Rightarrow> Inl (ErrWrap ''read pivb signing response: '' e)
      | Answer b \<Rightarrow>
          if rs_status b < 200 \<or> rs_status b \<ge> 300 then Inl (client_error CodeInternal b)
          else case rs_value b of
              Inl e \<Rightarrow> Inl (ErrWrap ''decode pivb signing response: '' e)
            | Inr out \<Rightarrow>
                if tr_id_token out = [] \<or> tr_expiration out \<le> 0
                then Inl (ErrText ''pivb signing response is incomplete'') else Inr out)"

subsection \<open>The interface \<open>Core\<close>\<close>

locale token_core =
  fixes mint :: "request \<Rightarrow> 's \<Rightarrow> token_result res \<times> 's" and ok :: "'s \<Rightarrow> bool" and sound :: "request \<Rightarrow> token_result \<Rightarrow> bool"
  assumes mint_keeps: "ok s \<Longrightarrow> ok (snd (mint req s))"
    and mint_sound: "ok s \<Longrightarrow> mint req s = (Inr r, s') \<Longrightarrow> sound req r"
begin

lemma subjectToken_keeps: "ok s \<Longrightarrow> ok (snd (wif_subjectToken mint b s))"
proof -
  assume "ok s"
  with mint_keeps [of s] show ?thesis
    by (auto simp: wif_subjectToken_def split: sum.split prod.split) (metis snd_conv)+
qed

lemma subjectToken_reply:
  assumes "ok s" and "wif_subjectToken mint b s = (Reply n t, s')"
  shows "\<exists>q att result. rb_value b = Inr q \<and> wif_attachment q = (Inr att :: token_response reply + attachment) \<and>
    n = 200 \<and> sound (wif_core_request q att) result \<and>
    t = \<lparr>tr_id_token = st_token result, tr_expiration = unix_of (st_expires result)\<rparr> \<and> ok s'"
proof -
  have w: "writeCoreError e \<noteq> Reply n t" "wif_error i m k d \<noteq> Reply n t" for e i m k d
    by (auto simp: writeCoreError_def wif_error_def split: option.split prod.split)
  from assms(2) obtain q where d: "jsonhttp_Decode b = Inr q" and q: "rb_value b = Inr q"
    by (auto simp: wif_subjectToken_def w jsonhttp_Decode_def decode_strict_def split: sum.splits option.splits if_splits)
  with assms(2) obtain att where a: "wif_attachment q = (Inr att :: token_response reply + attachment)"
    by (auto simp: wif_subjectToken_def wif_attachment_def w split: sum.splits option.splits if_splits)
  obtain m s1 where m: "mint (wif_core_request q att) s = (m, s1)" by (metis prod.exhaust)
  with assms(2) d a obtain result where "m = Inr result" "n = 200" "s' = s1"
      "t = \<lparr>tr_id_token = st_token result, tr_expiration = unix_of (st_expires result)\<rparr>"
    by (auto simp: wif_subjectToken_def w split: sum.splits)
  moreover from this m mint_sound [OF assms(1)] mint_keeps [OF assms(1), of "wif_core_request q att"]
    have "sound (wif_core_request q att) result" "ok s'" by auto
  ultimately show ?thesis using q a by blast
qed

end

subsection \<open>The daemon's core is one\<close>

text \<open>What a token of the core means to whoever asked: claims for the configured alias and target
  on an enrolled key, and a token that carries them, either assembled here from a card's
  signature or verified as forwarded.\<close>

definition token_claims :: "config \<Rightarrow> string \<Rightarrow> alias_config \<Rightarrow> u32 \<Rightarrow> string \<Rightarrow> claims \<Rightarrow> bool" where
  "token_claims cfg name a serial kid cl \<longleftrightarrow>
     map_of (KeysBySerial cfg) serial = Some \<lparr>kc_jwk_kid = kid\<rparr> \<and>
     cl_iss cl = pv_issuer (Provider cfg) \<and> cl_aud cl = OIDCAudience (Provider cfg) \<and> cl_sub cl = SubjectPrefix @ kid \<and>
     cl_alias cl = name \<and> cl_target cl = al_target a \<and> cl_serial cl = serial_text serial \<and> cl_key_id cl = kid"

definition token_carries :: "crypto \<Rightarrow> string \<Rightarrow> bytes \<Rightarrow> claims \<Rightarrow> bool" where
  "token_carries cr token spki cl \<longleftrightarrow>
     (\<exists>input sig. SigningInput cl = Inr input \<and> Assemble input sig = Inr token) \<or>
     (\<exists>v. VerifyForwarded cr token spki = Inr v \<and> vt_claims v = cl)"

definition token_for :: "crypto \<Rightarrow> config \<Rightarrow> request \<Rightarrow> token_result \<Rightarrow> bool" where
  "token_for cr cfg req r \<longleftrightarrow>
     (\<exists>a cl. map_of (cf_aliases cfg) (rq_alias req) = Some a \<and>
        rq_audience req = ExternalAccountAudience (Provider cfg) \<and> rq_email req = al_target a \<and>
        token_claims cfg (rq_alias req) a (st_serial r) (st_key_id r) cl \<and>
        token_carries cr (st_token r) (st_spki r) cl \<and> st_expires r = ExpiresAt cl)"

lemma NewClaims_fields:
  "NewClaims p name target serial kid jti now lifetime = Inr cl \<Longrightarrow>
     cl_iss cl = pv_issuer p \<and> cl_aud cl = OIDCAudience p \<and> cl_sub cl = SubjectPrefix @ kid \<and> cl_alias cl = name \<and>
     cl_target cl = target \<and> cl_serial cl = serial_text serial \<and> cl_key_id cl = kid"
  by (auto simp: NewClaims_def serial_text_def Let_def split: if_splits)

lemma local_token_for:
  assumes "core_reachable cr cfg version (c, Idle)" and "LocalSubjectToken cr env req c = (Inr r, c')"
    and "me_sign env = hardware_signer senv hw"
  shows "token_for cr cfg req r"
proof -
  from handed_out [OF assms] obtain a jti now cl input sig where
    g: "map_of (cf_aliases cfg) (rq_alias req) = Some a" "rq_audience req = ExternalAccountAudience (Provider cfg)"
      "rq_email req = al_target a" "map_of (KeysBySerial cfg) (st_serial r) = Some \<lparr>kc_jwk_kid = st_key_id r\<rparr>"
      "SigningInput cl = Inr input" "Assemble input sig = Inr (st_token r)" "st_expires r = ExpiresAt cl"
    and n: "NewClaims (Provider cfg) (rq_alias req) (al_target a) (st_serial r) (st_key_id r) jti now (aliasAssertionLifetime a) = Inr cl"
    by blast
  from g NewClaims_fields [OF n] show ?thesis
    unfolding token_for_def token_claims_def token_carries_def by blast
qed

lemma routed_token_for:
  assumes "RouteSubjectToken cr env (Some cfg) req = Inr r"
  shows "token_for cr cfg req r"
proof -
  from assms obtain source al response where a: "map_of (cf_aliases cfg) (rq_alias req) = Some al"
      "rq_audience req = ExternalAccountAudience (Provider cfg)" "rq_email req = al_target al"
    and v: "verifyResponse cr cfg (req\<lparr>rq_source := source, rq_route_socket := at_route (rq_attachment req)\<rparr>) al env response = Inr r"
    unfolding RouteSubjectToken_Inr by blast
  let ?crd = "mp_card response"
  from v obtain w where w: "VerifyForwarded cr (mp_id_token response) (ci_spki ?crd) = Inr w"
      "map_of (KeysBySerial cfg) (ci_serial ?crd) = Some \<lparr>kc_jwk_kid = ci_key_id ?crd\<rparr>" "cl_key_id (vt_claims w) = ci_key_id ?crd"
      "claims_agree cfg (req\<lparr>rq_source := source, rq_route_socket := at_route (rq_attachment req)\<rparr>) al ?crd (vt_claims w)"
    and r: "st_token r = mp_id_token response" "st_spki r = ci_spki ?crd" "st_serial r = ci_serial ?crd"
      "st_key_id r = ci_key_id ?crd" "st_expires r = ExpiresAt (vt_claims w)"
    unfolding verifyResponse_Inr by auto
  have "token_claims cfg (rq_alias req) al (st_serial r) (st_key_id r) (vt_claims w)"
    using w(2,3) w(4) [unfolded claims_agree_iff] by (simp add: token_claims_def r)
  moreover have "token_carries cr (st_token r) (st_spki r) (vt_claims w)" using w(1) by (auto simp: token_carries_def r)
  ultimately show ?thesis using a r(5) unfolding token_for_def by blast
qed

definition hardware_env :: "sign_env \<Rightarrow> hardware \<Rightarrow> token_env \<Rightarrow> token_env" where
  "hardware_env senv hw env = env\<lparr>te_mint := te_mint env\<lparr>me_sign := hardware_signer senv hw\<rparr>\<rparr>"

lemma hardware_env_sign: "me_sign (te_mint (hardware_env senv hw env)) = hardware_signer senv hw"
  by (simp add: hardware_env_def)

interpretation daemon_core: token_core "SubjectToken cr (hardware_env senv hw env)"
  "\<lambda>c. core_reachable cr cfg version (c, Idle)" "token_for cr cfg"
proof
  fix c req r c'
  assume c: "core_reachable cr cfg version (c, Idle)"
  show "core_reachable cr cfg version (snd (SubjectToken cr (hardware_env senv hw env) req c), Idle)"
    by (rule reachable_steps [OF SubjectToken_steps [OF hardware_env_sign] c])
  assume s: "SubjectToken cr (hardware_env senv hw env) req c = (Inr r, c')"
  have cfg: "c_cfg c = cfg" using core_reachable_inv [OF c] by (simp add: sys_inv_def)
  show "token_for cr cfg req r"
  proof (cases "RouteRequired (rq_attachment req)")
    case True
    with s obtain env' where "RouteSubjectToken cr env' (Some cfg) (req\<lparr>rq_route_socket := at_route (rq_attachment req)\<rparr>) = Inr r"
      by (auto simp: SubjectToken_def Let_def cfg split: option.splits if_splits sum.splits)
    from routed_token_for [OF this] show ?thesis by (simp add: token_for_def)
  next
    case False
    with s have "LocalSubjectToken cr (te_mint (hardware_env senv hw env)) req c = (Inr r, c')"
      by (auto simp: SubjectToken_def split: option.splits)
    from local_token_for [OF c this hardware_env_sign] show ?thesis .
  qed
qed

text \<open>What the signing socket hands out. In any state the daemon can reach, a request on the
  signing socket is answered 200 only for a configured alias with its own configured audience
  and target, whatever else the body says; and the token is over claims that name exactly that
  alias and target, this provider's issuer and audience, and a key enrolled under the serial
  the claims name, with the expiry of the answer. The daemon stays in a reachable state
  whatever it is asked.\<close>

lemma wif_token_sound:
  assumes "core_reachable cr cfg version (c, Idle)"
    and "wif_subjectToken (SubjectToken cr (hardware_env senv hw env)) body c = (reply, c')"
  shows "core_reachable cr cfg version (c', Idle) \<and>
    (case reply of ErrorReply n e \<Rightarrow> True
     | Reply n t \<Rightarrow> n = 200 \<and> (\<exists>q a cl serial spki. rb_value body = Inr q \<and> map_of (cf_aliases cfg) (wr_alias q) = Some a \<and>
         wr_audience q = ExternalAccountAudience (Provider cfg) \<and> wr_email q = al_target a \<and>
         map_of (KeysBySerial cfg) serial = Some \<lparr>kc_jwk_kid = cl_key_id cl\<rparr> \<and> cl_serial cl = serial_text serial \<and>
         cl_iss cl = pv_issuer (Provider cfg) \<and> cl_aud cl = OIDCAudience (Provider cfg) \<and>
         cl_sub cl = SubjectPrefix @ cl_key_id cl \<and> cl_alias cl = wr_alias q \<and> cl_target cl = wr_email q \<and>
         token_carries cr (tr_id_token t) spki cl \<and> tr_expiration t = unix_of (ExpiresAt cl)))"
proof
  show "core_reachable cr cfg version (c', Idle)"
    using daemon_core.subjectToken_keeps [OF assms(1), of senv hw env body] by (simp add: assms(2))
next
  show "case reply of ErrorReply n e \<Rightarrow> True | Reply n t \<Rightarrow> n = 200 \<and> (\<exists>q a cl serial spki. rb_value body = Inr q \<and> map_of (cf_aliases cfg) (wr_alias q) = Some a \<and>
         wr_audience q = ExternalAccountAudience (Provider cfg) \<and> wr_email q = al_target a \<and>
         map_of (KeysBySerial cfg) serial = Some \<lparr>kc_jwk_kid = cl_key_id cl\<rparr> \<and> cl_serial cl = serial_text serial \<and>
         cl_iss cl = pv_issuer (Provider cfg) \<and> cl_aud cl = OIDCAudience (Provider cfg) \<and>
         cl_sub cl = SubjectPrefix @ cl_key_id cl \<and> cl_alias cl = wr_alias q \<and> cl_target cl = wr_email q \<and>
         token_carries cr (tr_id_token t) spki cl \<and> tr_expiration t = unix_of (ExpiresAt cl))"
  proof (cases reply)
    case (Reply n t)
    from daemon_core.subjectToken_reply [OF assms(1) assms(2) [unfolded Reply]] obtain q att result where
      q: "rb_value body = Inr q" "n = 200" "t = \<lparr>tr_id_token = st_token result, tr_expiration = unix_of (st_expires result)\<rparr>"
      and f: "token_for cr cfg (wif_core_request q att) result" by blast
    from f obtain a cl where "map_of (cf_aliases cfg) (wr_alias q) = Some a" "wr_audience q = ExternalAccountAudience (Provider cfg)"
        "wr_email q = al_target a" "token_claims cfg (wr_alias q) a (st_serial result) (st_key_id result) cl"
        "token_carries cr (st_token result) (st_spki result) cl" "st_expires result = ExpiresAt cl"
      unfolding token_for_def wif_core_request_def request.simps by blast
    then show ?thesis
      unfolding Reply reply.case using q
      by (intro conjI exI [of _ q] exI [of _ a] exI [of _ cl] exI [of _ "st_serial result"] exI [of _ "st_spki result"])
        (simp_all add: token_claims_def)
  qed simp
qed

subsection \<open>One concrete request\<close>

definition demo_plain :: "source \<Rightarrow> request" where
  "demo_plain src = demo_request\<lparr>rq_source := src, rq_card := no_card, rq_context := no_context\<rparr>"

lemma demo_plain_mint:
  assumes "source_Validate src ''ro'' = Inr (src', l)"
  shows "\<exists>r c'. LocalSubjectToken demo_crypto demo_mint_env (demo_plain src) demo_unlocked = (Inr r, c') \<and> \<not> st_reused r \<and> st_serial r = 7"
proof -
  have a: "map_of (cf_aliases demo_config) ''ro'' = Some demo_alias" by (simp add: demo_config_def)
  have n: "\<not> CardFree demo_config" by (simp add: CardFree_def demo_config_def CardNone_def)
  have f: "rq_alias (demo_plain src) = ''ro''" "rq_source (demo_plain src) = src" "rq_route_socket (demo_plain src) = []"
      "rq_context (demo_plain src) = no_context" "rq_email (demo_plain src) = al_target demo_alias"
      "rq_audience (demo_plain src) = ExternalAccountAudience (Provider demo_config)" "rq_card (demo_plain src) = no_card"
    by (simp_all add: demo_plain_def demo_request_def demo_alias_def)
  have g: "grantedWindow demo_config no_context second = Inr (0, 0)" by (simp add: grantedWindow_def no_context_def)
  have l: "aliasAssertionLifetime demo_alias = 300 * second"
    by (simp add: demo_alias_def aliasAssertionLifetime_def dur_seconds_def wrap64_def)
  have "\<exists>mx. prepareMint demo_config (demo_plain src) second = Inr mx"
    unfolding prepareMint_def f assms Let_def by (simp add: n a f g Let_def)
  then obtain mx where p: "prepareMint demo_config (demo_plain src) second = Inr mx" by blast
  note m = prepareMint_Inr [OF p, unfolded f a l]
  have "\<exists>cl. bound_claims demo_crypto demo_config mx demo_now jti 7 demo_cert demo_kid cl" if "jti \<noteq> []" for jti
  proof -
    from demo_new_claims [OF that] obtain cl where cl:
      "NewClaims (Provider demo_config) ''ro'' (al_target demo_alias) 7 demo_kid jti demo_now (300 * second) = Inr cl" by blast
    have x: "mx_alias mx = demo_alias" using m a by simp
    have y: "rq_alias (mx_req mx) = ''ro''" "rq_card (mx_req mx) = no_card" using m by simp_all
    have z: "mx_lifetime mx = 300 * second" using m x l by argo
    show ?thesis unfolding bound_claims_def x y z
      by (simp only: demo_keys CertificateKeyID_demo no_card_def card_identity.simps cl simp_thms) blast
  qed
  from demo_mint_of [OF p this] show ?thesis by blast
qed

lemma demo_plain_token:
  assumes "source_Validate src ''ro'' = Inr (src', l)"
  shows "\<exists>r c'. LocalSubjectToken demo_crypto demo_mint_env (demo_plain src) demo_unlocked = (Inr r, c') \<and>
    st_token r \<noteq> [] \<and> 0 < unix_of (st_expires r)"
proof -
  from demo_plain_mint [OF assms] obtain r c' where m: "LocalSubjectToken demo_crypto demo_mint_env (demo_plain src) demo_unlocked = (Inr r, c')"
    and f: "\<not> st_reused r" by blast
  have e: "me_sign demo_mint_env = hardware_signer demo_sign_env demo_hardware" "me_now demo_mint_env = demo_now"
    by (simp_all add: demo_mint_env_def)
  from LocalSubjectToken_fresh [OF m f e(1)] obtain p name target serial kid jti cl input sig lifetime where
    n: "NewClaims p name target serial kid jti demo_now lifetime = Inr cl"
    and t: "SigningInput cl = Inr input" "Assemble input sig = Inr (st_token r)" "st_expires r = ExpiresAt cl"
    unfolding e(2) by blast
  note s = NewClaims_signed [OF demo_clock(1,2) n]
  have l: "300 \<le> lifetime div second" "lifetime div second \<le> 3600"
    using s(2) zdiv_mono1 [of "300 * second" lifetime second] zdiv_mono1 [of lifetime "3600 * second" second] by simp_all
  have i: "cl_iat cl = demo_now div second - unix_to_internal - 30" "cl_exp cl = cl_iat cl + lifetime div second"
    by (subst s(1), simp)+
  have "demo_now div second = unix_to_internal + 1000" by (simp add: demo_now_def)
  with i l have x: "1270 \<le> cl_exp cl" "cl_exp cl \<le> 4570" by linarith+
  have "unix_of (ExpiresAt cl) = cl_exp cl" unfolding ExpiresAt_def using x by (intro unix_of_time_unix) (simp_all add: in_int64_def)
  moreover have "st_token r \<noteq> []" using t(2) by (auto simp: Assemble_def split: if_splits)
  ultimately show ?thesis using m t(3) x by auto
qed

definition demo_wif :: "source option \<Rightarrow> wif_request" where
  "demo_wif src = \<lparr>wr_alias = ''ro'', wr_audience = rq_audience demo_request, wr_email = rq_email demo_request, wr_source = src,
     wr_route_socket = [], wr_route_required = False\<rparr>"

lemma demo_wif_reply:
  assumes "source_Validate (case src of None \<Rightarrow> zero_source | Some s \<Rightarrow> s) ''ro'' = Inr (src', l)"
    and "rb_read b = None" and "rb_value b = Inr (demo_wif src)" and "\<not> rb_more b"
  shows "\<exists>t c'. wif_subjectToken (SubjectToken demo_crypto (hardware_env demo_sign_env demo_hardware (fw_token demo_forward_env))) b
    demo_unlocked = (Reply 200 t, c') \<and> tr_id_token t \<noteq> [] \<and> 0 < tr_expiration t"
proof -
  let ?src = "case src of None \<Rightarrow> zero_source | Some s \<Rightarrow> s"
  have e: "te_mint (hardware_env demo_sign_env demo_hardware (fw_token demo_forward_env)) = demo_mint_env"
    by (simp add: hardware_env_def demo_forward_env_def demo_mint_env_def)
  have "jsonhttp_Decode b = Inr (demo_wif src)" using assms(2-4) by (simp add: jsonhttp_Decode_def decode_strict_def)
  moreover have "wif_attachment (demo_wif src) = (Inr LocalAllowed :: token_response reply + attachment)"
    by (simp add: wif_attachment_def demo_wif_def)
  moreover have r: "wif_core_request (demo_wif src) LocalAllowed = demo_plain ?src"
    by (simp add: wif_core_request_def demo_wif_def demo_plain_def demo_request_def)
  moreover have "rq_attachment (demo_plain ?src) = LocalAllowed" by (simp add: demo_plain_def demo_request_def)
  note l = local_runs [OF this]
  ultimately show ?thesis
    using demo_plain_token [OF assms(1)] by (auto simp: wif_subjectToken_def l e)
qed

lemma zero_source_valid: "source_Validate zero_source ''ro'' = Inr (Local, zero_label)"
  unfolding source_Validate_def by (simp add: Local_def KindLocal_def)

end
