(* ===== verification/Wif_Credentials.thy ===== *)
theory Wif_Credentials
  imports Wif_Jwt Attachment
begin

text \<open>
  The external-account credential files (\<open>wif/credentials.go\<close>): the executable path contract,
  the document of a configured alias and of an agent session, its rendering by
  \<open>json.MarshalIndent\<close>, and the atomic write, whose system calls are its environment.
\<close>

definition ExecutableTimeoutMillis :: int where [go_eval]: "ExecutableTimeoutMillis = 30000"
definition AgentSandboxRoot :: string where "AgentSandboxRoot = ''/run/pivb-agent''"
definition AgentSessionSocketPath :: string where "AgentSessionSocketPath = AgentSandboxRoot @ ''/session.sock''"
definition AgentHelperPath :: string where "AgentHelperPath = AgentSandboxRoot @ ''/pivb-agent-subject-token''"

subsection \<open>\<open>MarshalIndent\<close> and \<open>PathEscape\<close>\<close>

text \<open>A JSON object of strings, integers and objects, and its rendering with two blanks of
  indentation per level.\<close>

datatype jtree = JLeaf jval | JTree jfields
  and jfields = JLast string jtree | JMore string jtree jfields

definition json_newline :: "nat \<Rightarrow> string" where
  "json_newline depth = CHR 0x0A # concat (replicate depth ''  '')"

primrec json_indent :: "jtree \<Rightarrow> nat \<Rightarrow> string" and json_indent_fields :: "jfields \<Rightarrow> nat \<Rightarrow> string" where
  "json_indent (JLeaf v) depth = json_val v"
| "json_indent (JTree fs) depth = ''{'' @ json_indent_fields fs (Suc depth) @ json_newline depth @ ''}''"
| "json_indent_fields (JLast k t) depth = json_newline depth @ json_string k @ '': '' @ json_indent t depth"
| "json_indent_fields (JMore k t fs) depth =
     json_newline depth @ json_string k @ '': '' @ json_indent t depth @ '','' @ json_indent_fields fs depth"

definition path_plain :: "char \<Rightarrow> bool" where
  "path_plain c \<longleftrightarrow> is_digit c \<or> (97 \<le> cp c \<and> cp c \<le> 122) \<or> (65 \<le> cp c \<and> cp c \<le> 90) \<or> c \<in> set ''-_.~$&+:=@''"

definition upper_hex :: "nat \<Rightarrow> char" where
  "upper_hex d = ''0123456789ABCDEF'' ! d"

definition PathEscape :: "string \<Rightarrow> string" where
  "PathEscape s =
     concat (map (\<lambda>c. if path_plain c then [c] else [CHR 0x25, upper_hex (cp c div 16), upper_hex (cp c mod 16)]) s)"

subsection \<open>The documents\<close>

record credential_spec =
  cs_spec_provider :: provider
  cs_spec_alias :: string
  cs_spec_target :: string
  cs_spec_lifetime :: int
  cs_spec_executable :: string

definition credential_tree :: "provider \<Rightarrow> string \<Rightarrow> int \<Rightarrow> string \<Rightarrow> jtree" where
  "credential_tree provider target lifetimeSeconds command =
     JTree
       (JMore ''type'' (JLeaf (JStr ''external_account''))
       (JMore ''audience'' (JLeaf (JStr (ExternalAccountAudience provider)))
       (JMore ''subject_token_type'' (JLeaf (JStr TokenType))
       (JMore ''token_url'' (JLeaf (JStr ''https://sts.googleapis.com/v1/token''))
       (JMore ''service_account_impersonation_url''
          (JLeaf (JStr (''https://iamcredentials.googleapis.com/v1/projects/-/serviceAccounts/'' @ PathEscape target @ '':generateAccessToken'')))
       (JMore ''service_account_impersonation'' (JTree (JLast ''token_lifetime_seconds'' (JLeaf (JInt lifetimeSeconds))))
       (JLast ''credential_source''
          (JTree (JLast ''executable''
             (JTree (JMore ''command'' (JLeaf (JStr command))
                    (JLast ''timeout_millis'' (JLeaf (JInt ExecutableTimeoutMillis))))))))))))))"

definition credentialFileDocument :: "provider \<Rightarrow> string \<Rightarrow> int \<Rightarrow> string \<Rightarrow> string res" where
  "credentialFileDocument provider target lifetimeSeconds command =
     (if lifetimeSeconds < 600 \<or> lifetimeSeconds > 3600
      then Inl (ErrText (''credential lifetime '' @ fmt_int lifetimeSeconds @ ''s is outside the supported 600..3600 range''))
      else if pv_project provider = [] \<or> pv_pool provider = [] \<or> pv_provider provider = []
      then Inl (ErrText ''wif provider is incompletely configured'')
      else Inr (json_indent (credential_tree provider target lifetimeSeconds command) 0 @ [CHR 0x0A]))"

definition ValidateExecutablePath :: "string \<Rightarrow> gerror option" where
  "ValidateExecutablePath path =
     (if path = [] then Some (ErrText ''executable path is required'')
      else if \<not> is_abs path then Some (ErrText (''executable path '' @ go_quote path @ '' must be absolute''))
      else if list_ex (\<lambda>c. cp c \<in> {0x20, 0x09, 0x0D, 0x0A}) path \<or> list_ex (\<lambda>c. cp c < 0x20 \<or> cp c = 0x7F) path
      then Some (ErrText (''executable path '' @ go_quote path @ '' must not contain whitespace or control characters''))
      else if has_prefix ''/nix/store/'' path
      then Some (ErrText (''executable path '' @ go_quote path @ '' is a hashed Nix store path; use a stable installed path such as /run/current-system/sw/bin/pivb''))
      else None)"

definition executable_command :: "string \<Rightarrow> string \<Rightarrow> string" where
  "executable_command executable alias = executable @ '' subject-token --alias '' @ alias"

definition CredentialFile :: "credential_spec \<Rightarrow> string res" where
  "CredentialFile spec =
     (if cs_spec_alias spec = [] \<or> cs_spec_target spec = []
      then Inl (ErrText ''credential file alias and target are required'')
      else if list_ex (\<lambda>c. cp c \<le> 0x20 \<or> cp c = 0x7F) (cs_spec_alias spec)
      then Inl (ErrText (''credential alias '' @ go_quote (cs_spec_alias spec) @ '' must not contain whitespace or control characters''))
      else case ValidateExecutablePath (cs_spec_executable spec) of
          Some e \<Rightarrow> Inl e
        | None \<Rightarrow> credentialFileDocument (cs_spec_provider spec) (cs_spec_target spec) (cs_spec_lifetime spec)
            (executable_command (cs_spec_executable spec) (cs_spec_alias spec)))"

definition AgentCredentialFile :: "provider \<Rightarrow> string \<Rightarrow> int \<Rightarrow> string res" where
  "AgentCredentialFile provider target lifetimeSeconds =
     (if target = [] then Inl (ErrText ''agent credential target is required'')
      else credentialFileDocument provider target lifetimeSeconds (AgentHelperPath @ '' --socket '' @ AgentSessionSocketPath))"

subsection \<open>The atomic write\<close>

record write_env =
  we_mkdir :: "gerror option"
  we_temp :: "gerror option"
  we_chmod :: "gerror option"
  we_write :: "gerror option"
  we_sync :: "gerror option"
  we_close :: "gerror option"
  we_rename :: "gerror option"

datatype file_event = TempCreated | TempClosed | Installed | TempRemoved

text \<open>The deferred removal of the temporary name also runs after the rename, which it no longer
  finds.\<close>

definition WriteCredentialFile :: "string \<Rightarrow> write_env \<Rightarrow> gerror option \<times> file_event list" where
  "WriteCredentialFile path env =
     (if \<not> is_abs path then (Some (ErrText (''output path '' @ go_quote path @ '' must be absolute'')), [])
      else case we_mkdir env of Some e \<Rightarrow> (Some (ErrWrap ''create credential directory: '' e), [])
      | None \<Rightarrow> (case we_temp env of Some e \<Rightarrow> (Some (ErrWrap ''create temporary credential file: '' e), [])
      | None \<Rightarrow> (case we_chmod env of
          Some e \<Rightarrow> (Some (ErrWrap ''restrict credential file permissions: '' e), [TempCreated, TempClosed, TempRemoved])
      | None \<Rightarrow> (case we_write env of
          Some e \<Rightarrow> (Some (ErrWrap ''write credential file: '' e), [TempCreated, TempClosed, TempRemoved])
      | None \<Rightarrow> (case we_sync env of
          Some e \<Rightarrow> (Some (ErrWrap ''sync credential file: '' e), [TempCreated, TempClosed, TempRemoved])
      | None \<Rightarrow> (case we_close env of
          Some e \<Rightarrow> (Some (ErrWrap ''close credential file: '' e), [TempCreated, TempClosed, TempRemoved])
      | None \<Rightarrow> (case we_rename env of
          Some e \<Rightarrow> (Some (ErrWrap ''install credential file: '' e), [TempCreated, TempClosed, TempRemoved])
      | None \<Rightarrow> (None, [TempCreated, TempClosed, Installed, TempRemoved]))))))))"

subsection \<open>The command line\<close>

lemma split_on_join3:
  "c \<notin> set a \<Longrightarrow> c \<notin> set b \<Longrightarrow> c \<notin> set d \<Longrightarrow> c \<notin> set e \<Longrightarrow>
     split_on c (a @ c # b @ c # d @ c # e) = [a, b, d, e]"
  by (simp add: split_on_append split_on_plain)

text \<open>C34: a credential file runs what its alias configures and nothing else. The command line of
  every accepted specification splits at its blanks into exactly the executable, the
  subcommand, the flag and the alias, the executable is an absolute path outside the Nix
  store, and the lifetime and provider are what the generator promises; a failed write never
  leaves a temporary file or an installed one.\<close>

theorem CredentialFile_command:
  assumes "CredentialFile spec = Inr doc"
  shows "split_on (CHR '' '') (executable_command (cs_spec_executable spec) (cs_spec_alias spec)) =
      [cs_spec_executable spec, ''subject-token'', ''--alias'', cs_spec_alias spec] \<and>
    is_abs (cs_spec_executable spec) \<and> \<not> has_prefix ''/nix/store/'' (cs_spec_executable spec) \<and>
    600 \<le> cs_spec_lifetime spec \<and> cs_spec_lifetime spec \<le> 3600 \<and>
    doc = json_indent (credential_tree (cs_spec_provider spec) (cs_spec_target spec) (cs_spec_lifetime spec)
      (executable_command (cs_spec_executable spec) (cs_spec_alias spec))) 0 @ [CHR 0x0A] \<and>
    (case WriteCredentialFile path env of (err, trace) \<Rightarrow>
       (err = None \<longleftrightarrow> Installed \<in> set trace) \<and> (TempCreated \<in> set trace \<longleftrightarrow> TempRemoved \<in> set trace))"
proof -
  let ?exe = "cs_spec_executable spec" and ?who = "cs_spec_alias spec"
  have a: "ValidateExecutablePath ?exe = None" and n: "\<not> list_ex (\<lambda>c. cp c \<le> 0x20 \<or> cp c = 0x7F) ?who"
    and d: "credentialFileDocument (cs_spec_provider spec) (cs_spec_target spec) (cs_spec_lifetime spec) (executable_command ?exe ?who) = Inr doc"
    using assms by (auto simp: CredentialFile_def split: if_splits option.splits)
  have e: "CHR '' '' \<notin> set ?exe" "CHR '' '' \<notin> set ?who"
    using a n by (auto simp: ValidateExecutablePath_def list_ex_iff char_defs split: if_splits)
  have "executable_command ?exe ?who = ?exe @ CHR '' '' # ''subject-token'' @ CHR '' '' # ''--alias'' @ CHR '' '' # ?who"
    by (simp add: executable_command_def)
  then have s: "split_on (CHR '' '') (executable_command ?exe ?who) = [?exe, ''subject-token'', ''--alias'', ?who]"
    using split_on_join3 [OF e(1) _ _ e(2), of "''subject-token''" "''--alias''"] by simp
  have w: "case WriteCredentialFile path env of (err, trace) \<Rightarrow>
       (err = None \<longleftrightarrow> Installed \<in> set trace) \<and> (TempCreated \<in> set trace \<longleftrightarrow> TempRemoved \<in> set trace)"
    by (simp add: WriteCredentialFile_def split: option.split)
  show ?thesis using s a d w
    by (auto simp: ValidateExecutablePath_def credentialFileDocument_def split: if_splits)
qed

definition demo_spec :: credential_spec where
  "demo_spec = \<lparr>cs_spec_provider = demo_provider, cs_spec_alias = ''ro'', cs_spec_target = ''sa@p'', cs_spec_lifetime = 3600,
     cs_spec_executable = ''/usr/bin/pivb''\<rparr>"

theorem CredentialFile_command_witness:
  "split_on (CHR '' '') (executable_command ''/usr/bin/pivb'' ''ro'') = [''/usr/bin/pivb'', ''subject-token'', ''--alias'', ''ro'']"
proof -
  obtain doc where "CredentialFile demo_spec = Inr doc"
    by (simp add: CredentialFile_def demo_spec_def ValidateExecutablePath_def is_abs_def has_prefix_def
        credentialFileDocument_def demo_provider_def char_defs)
  from CredentialFile_command [OF this] show ?thesis by (simp add: demo_spec_def)
qed

end
