(* ===== verification/Agent_Session.thy ===== *)
theory Agent_Session
  imports Wif_Credentials AgentSource Config
begin

text \<open>
  One delegated agent session (\<open>agentsession/session.go\<close>): the checks before anything is
  created, the artifacts of the session directory, the supervisor loop over the child, the
  relay and the signals, and the sweep of sessions that died. What the file system, the
  processes and the clock answer is the environment; every effect that must be undone is
  recorded, in order, in the trace.
\<close>

definition DescriptorVersion :: int where [go_eval]: "DescriptorVersion = 2"
definition staleGrace :: duration where [go_eval]: "staleGrace = 60 * second"
definition maxIDAttempts :: nat where [go_eval]: "maxIDAttempts = 16"
definition EnvSessionDir :: string where "EnvSessionDir = ''PIVB_AGENT_SESSION_DIR''"
definition EnvSessionID :: string where "EnvSessionID = ''PIVB_AGENT_SESSION_ID''"

subsection \<open>The child's status and environment\<close>

datatype signal = SIGINT | SIGQUIT | SIGHUP | SIGTERM | OtherSignal nat

text \<open>What \<open>cmd.Wait\<close> returned.\<close>

datatype wait_status = WaitOk | WaitFailed gerror | NoStatus int | Exited int | Signaled int

definition childStatus :: "wait_status \<Rightarrow> gerror option" where
  "childStatus w =
     (case w of
        WaitOk \<Rightarrow> None
      | WaitFailed e \<Rightarrow> Some (ErrWrap ''wait for agent-session child: '' e)
      | NoStatus code \<Rightarrow> Some (ChildExit code 0)
      | Signaled s \<Rightarrow> Some (ChildExit (128 + s) s)
      | Exited code \<Rightarrow> Some (ChildExit code 0))"

definition sessionEnvironment :: "string list \<Rightarrow> string \<Rightarrow> string \<Rightarrow> string list" where
  "sessionEnvironment env sessionDir sessionID =
     filter (\<lambda>item. \<not> (has_prefix (EnvSessionDir @ ''='') item \<or> has_prefix (EnvSessionID @ ''='') item)) env
       @ [EnvSessionDir @ ''='' @ sessionDir, EnvSessionID @ ''='' @ sessionID]"

subsection \<open>The session directory\<close>

text \<open>\<open>prepareRoot\<close>: what the system calls on the root answered.\<close>

record root_env =
  re_mkdir :: "gerror option"
  re_lstat :: "gerror option"
  re_real_dir :: bool
  re_owned :: bool
  re_chmod :: "gerror option"

definition prepareRoot :: "string \<Rightarrow> root_env \<Rightarrow> gerror option" where
  "prepareRoot root env =
     (case re_mkdir env of Some e \<Rightarrow> Some (ErrWrap ''create agent-session runtime root: '' e)
      | None \<Rightarrow> (case re_lstat env of Some e \<Rightarrow> Some (ErrWrap ''inspect agent-session runtime root: '' e)
      | None \<Rightarrow>
          if \<not> re_real_dir env then Some (ErrText (''agent-session runtime root '' @ go_quote root @ '' must be a real directory''))
          else if \<not> re_owned env
          then Some (ErrText (''agent-session runtime root '' @ go_quote root @ '' is not owned by the current user''))
          else (case re_chmod env of Some e \<Rightarrow> Some (ErrWrap ''restrict agent-session runtime root: '' e) | None \<Rightarrow> None)))"

definition hex_encode :: "bytes \<Rightarrow> string" where
  "hex_encode b = concat (map (\<lambda>c. [hex_digit (cp c div 16), hex_digit (cp c mod 16)]) b)"

text \<open>One attempt (\<open>attempt n\<close> is the n-th): what the random source gave (16 bytes), what \<open>Mkdir\<close> answered, and \<open>Chmod\<close>.\<close>

datatype mkdir_answer = Made | Collision | MkdirFailed gerror

record id_attempt =
  ia_random :: "bytes res"
  ia_mkdir :: mkdir_answer
  ia_chmod :: "gerror option"

fun create_loop :: "nat \<Rightarrow> (nat \<Rightarrow> id_attempt) \<Rightarrow> string res" where
  "create_loop 0 attempt = Inl (ErrText ''generate a unique agent-session ID: too many collisions'')"
| "create_loop (Suc n) attempt =
     (case ia_random (attempt 0) of
        Inl e \<Rightarrow> Inl (ErrWrap ''generate agent-session ID: '' e)
      | Inr b \<Rightarrow>
          (case ia_mkdir (attempt 0) of
             Made \<Rightarrow>
               (case ia_chmod (attempt 0) of
                  Some e \<Rightarrow> Inl (ErrWrap ''restrict agent-session directory: '' e)
                | None \<Rightarrow> Inr (hex_encode b))
           | Collision \<Rightarrow> create_loop n (attempt \<circ> Suc)
           | MkdirFailed e \<Rightarrow> Inl (ErrWrap ''create agent-session directory: '' e)))"

definition createSessionDir :: "(nat \<Rightarrow> id_attempt) \<Rightarrow> string res" where
  "createSessionDir attempt = create_loop maxIDAttempts attempt"

subsection \<open>Stale sessions\<close>

datatype dial_answer = Connected | Refused | NoSocket | DialFailed gerror

record root_entry =
  rn_name :: string
  rn_lstat_ok :: bool
  rn_symlink :: bool
  rn_dir :: bool
  rn_owned :: bool
  rn_modified :: gotime
  rn_dial :: dial_answer

text \<open>The loop body of \<open>sweepStale\<close>: whether the entry is removed.\<close>

definition sweep_removes :: "gotime \<Rightarrow> root_entry \<Rightarrow> bool" where
  "sweep_removes now en =
     (if ValidateSessionID (rn_name en) \<noteq> None then False
      else if \<not> rn_lstat_ok en \<or> rn_symlink en \<or> \<not> rn_dir en then False
      else if \<not> rn_owned en \<or> time_sub now (rn_modified en) < staleGrace then False
      else case rn_dial en of Connected \<Rightarrow> False | DialFailed e \<Rightarrow> False | Refused \<Rightarrow> True | NoSocket \<Rightarrow> True)"

definition sweepStale :: "gotime \<Rightarrow> root_entry list \<Rightarrow> root_entry list" where
  "sweepStale now entries = filter (\<lambda>en. \<not> sweep_removes now en) entries"

subsection \<open>Supervising\<close>

datatype effect =
    DirCreated | DirRemoved | FileOpened string | FileWritten string | FileClosed string | FileRemoved string
  | ListenerOpened | ListenerClosed
  | RelayStarted | RelayStopped | ChildStarted | ChildReaped | SignalSent signal | Killed

datatype sup_event = ChildDone wait_status | RelayDone "gerror option" | Signal signal

text \<open>\<open>terminateChild\<close>: \<open>early\<close> says whether the child exits within the grace period.\<close>

definition terminateChild :: "bool \<Rightarrow> effect list" where
  "terminateChild early = (if early then [SignalSent SIGTERM, ChildReaped] else [SignalSent SIGTERM, Killed, ChildReaped])"

text \<open>The \<open>select\<close> loop; \<open>seen\<close> counts the termination requests. \<open>None\<close>: neither the child nor the
  relay has ended within the events given.\<close>

fun supervise :: "bool \<Rightarrow> (signal \<Rightarrow> nat) \<Rightarrow> sup_event list \<Rightarrow> (gerror option \<times> effect list) option" where
  "supervise early seen [] = None"
| "supervise early seen (ChildDone w # es) = Some (childStatus w, [ChildReaped, RelayStopped, ListenerClosed])"
| "supervise early seen (RelayDone err # es) =
     Some (Some (ErrWrap ''agent-session relay failed: ''
             (case err of None \<Rightarrow> ErrText ''relay stopped unexpectedly'' | Some e \<Rightarrow> e)),
           [RelayStopped, ListenerClosed] @ terminateChild early)"
| "supervise early seen (Signal s # es) =
     (if s = SIGHUP \<or> s = SIGTERM
      then (let n = Suc (seen s) in
            case supervise early (seen(s := n)) es of
              None \<Rightarrow> None
            | Some (r, t) \<Rightarrow> Some (r, (if n = 1 then SignalSent s else Killed) # t))
      else supervise early seen es)"

subsection \<open>\<open>Run\<close>\<close>

record session_options =
  so_config :: "config option"
  so_alias :: string
  so_label :: string
  so_wif_socket :: string
  so_attachment :: attachment
  so_route :: string
  so_runtime :: string
  so_command :: "string list"

record descriptor =
  ds_version :: int
  ds_session :: string
  ds_alias :: string
  ds_target :: string
  ds_audience :: string
  ds_lifetime :: int
  ds_label :: string
  ds_route_kind :: string
  ds_mode :: string
  ds_protocol :: int

record private_env =
  pv_open :: "gerror option"
  pv_write :: "gerror option"
  pv_chmod :: "gerror option"
  pv_sync :: "gerror option"
  pv_close :: "gerror option"

record session_env =
  sn_root :: root_env
  sn_attempts :: "nat \<Rightarrow> id_attempt"
  sn_credential :: private_env
  sn_listen :: "gerror option"
  sn_descriptor :: private_env
  sn_start :: "gerror option"
  sn_early :: bool
  sn_events :: "sup_event list"

text \<open>The checks, in the code's order, up to the first effect.\<close>

definition checkOptions :: "session_options \<Rightarrow> (config \<times> alias_config \<times> attachment) res" where
  "checkOptions opts =
     (case so_config opts of
        None \<Rightarrow> Inl (ErrText ''agent-session requires loaded configuration'')
      | Some cfg \<Rightarrow>
     (case map_of (cf_aliases cfg) (so_alias opts) of
        None \<Rightarrow> Inl (ErrText (''alias '' @ go_quote (so_alias opts) @ '' is not configured''))
      | Some a \<Rightarrow>
     if so_route opts \<noteq> [] \<and> \<not> is_abs (so_route opts) then Inl (ErrText ''agent-session route socket must be absolute'')
     else
     (case WithExplicitRoute (so_attachment opts) (so_route opts) of
        Inl e \<Rightarrow> Inl e
      | Inr att \<Rightarrow>
     (case attachment_Validate att of
        Some e \<Rightarrow> Inl e
      | None \<Rightarrow>
     if so_wif_socket opts = [] then Inl (ErrText ''pivb signing socket location is unknown'')
     else if so_command opts = [] \<or> hd (so_command opts) = [] then Inl (ErrText ''agent-session requires a child command after --'')
     else if so_runtime opts = [] \<or> \<not> is_abs (so_runtime opts)
     then Inl (ErrText ''XDG_RUNTIME_DIR must be a nonempty absolute path'')
     else
     (case source_Validate (Agent (so_label opts) (replicate SessionIDLength (CHR ''0''))) (so_alias opts) of
        Inl e \<Rightarrow> Inl (ErrWrap ''invalid --source-label: '' e)
      | Inr _ \<Rightarrow> Inr (cfg, a, att))))))"

definition session_descriptor :: "session_options \<Rightarrow> config \<Rightarrow> alias_config \<Rightarrow> attachment \<Rightarrow> string \<Rightarrow> descriptor" where
  "session_descriptor opts cfg a att sessionID =
     \<lparr>ds_version = DescriptorVersion, ds_session = sessionID, ds_alias = so_alias opts, ds_target = al_target a,
      ds_audience = ExternalAccountAudience (Provider cfg), ds_lifetime = al_lifetime_s a, ds_label = so_label opts,
      ds_route_kind = (if RouteRequired att then ''zka-workspace'' else []), ds_mode = at_mode att,
      ds_protocol = at_protocol att\<rparr>"

text \<open>A private file: created exclusively, then written, restricted, flushed and closed. On every
  error after the open the deferred function closes the file and removes it.\<close>

definition writePrivate :: "string \<Rightarrow> private_env \<Rightarrow> gerror option \<times> effect list" where
  "writePrivate path env =
     (case pv_open env of
        Some e \<Rightarrow> (Some e, [])
      | None \<Rightarrow>
     let undo = (\<lambda>e t. (Some e, [FileOpened path] @ t @ [FileClosed path, FileRemoved path])) in
     (case pv_write env of
        Some e \<Rightarrow> undo e []
      | None \<Rightarrow>
     (case pv_chmod env of
        Some e \<Rightarrow> undo e [FileWritten path]
      | None \<Rightarrow>
     (case pv_sync env of
        Some e \<Rightarrow> undo e [FileWritten path]
      | None \<Rightarrow>
     (case pv_close env of
        Some e \<Rightarrow> undo e [FileWritten path]
      | None \<Rightarrow> (None, [FileOpened path, FileWritten path, FileClosed path]))))))"

text \<open>Inside the session directory: everything \<open>Run\<close> does between creating and removing it.\<close>

definition session_body :: "session_options \<Rightarrow> config \<Rightarrow> alias_config \<Rightarrow> session_env \<Rightarrow> (gerror option \<times> effect list) option" where
  "session_body opts cfg a env =
     (case AgentCredentialFile (Provider cfg) (al_target a) (al_lifetime_s a) of
        Inl e \<Rightarrow> Some (Some e, [])
      | Inr _ \<Rightarrow>
     (case writePrivate ''credential.json'' (sn_credential env) of
        (Some e, t1) \<Rightarrow> Some (Some (ErrWrap ''write agent credential: '' e), t1)
      | (None, t1) \<Rightarrow>
     (case sn_listen env of
        Some e \<Rightarrow> Some (Some e, t1)
      | None \<Rightarrow>
     let t2 = t1 @ [ListenerOpened] in
     (case writePrivate ''session.json'' (sn_descriptor env) of
        (Some e, td) \<Rightarrow> Some (Some (ErrWrap ''write session descriptor: '' e), t2 @ td @ [ListenerClosed])
      | (None, td) \<Rightarrow>
     let t3 = t2 @ td @ [RelayStarted] in
     (case sn_start env of
        Some e \<Rightarrow> Some (Some (ErrWrap ''start agent-session child: '' e), t3 @ [RelayStopped, ListenerClosed])
      | None \<Rightarrow>
     (case supervise (sn_early env) (\<lambda>_. 0) (sn_events env) of
        None \<Rightarrow> None
      | Some (r, t) \<Rightarrow> Some (r, t3 @ [ChildStarted] @ t)))))))"

definition Run :: "session_options \<Rightarrow> session_env \<Rightarrow> (gerror option \<times> effect list) option" where
  "Run opts env =
     (case checkOptions opts of
        Inl e \<Rightarrow> Some (Some e, [])
      | Inr (cfg, a, att) \<Rightarrow>
     (case prepareRoot (so_runtime opts @ ''/pivb-agent'') (sn_root env) of
        Some e \<Rightarrow> Some (Some e, [])
      | None \<Rightarrow>
     (case createSessionDir (sn_attempts env) of
        Inl e \<Rightarrow> Some (Some e, [])
      | Inr sessionID \<Rightarrow>
     (case session_body opts cfg a env of
        None \<Rightarrow> None
      | Some (r, t) \<Rightarrow> Some (r, [DirCreated] @ t @ [DirRemoved])))))"

subsection \<open>What is left behind\<close>

record leftovers =
  lo_dir :: bool
  lo_file :: bool
  lo_listener :: bool
  lo_relay :: bool
  lo_child :: bool

definition nothing_left :: leftovers where
  "nothing_left = \<lparr>lo_dir = False, lo_file = False, lo_listener = False, lo_relay = False, lo_child = False\<rparr>"

fun apply_effect :: "effect \<Rightarrow> leftovers \<Rightarrow> leftovers" where
  "apply_effect DirCreated l = l\<lparr>lo_dir := True\<rparr>"
| "apply_effect DirRemoved l = l\<lparr>lo_dir := False\<rparr>"
| "apply_effect (FileOpened f) l = l\<lparr>lo_file := True\<rparr>"
| "apply_effect (FileClosed f) l = l\<lparr>lo_file := False\<rparr>"
| "apply_effect ListenerOpened l = l\<lparr>lo_listener := True\<rparr>"
| "apply_effect ListenerClosed l = l\<lparr>lo_listener := False\<rparr>"
| "apply_effect RelayStarted l = l\<lparr>lo_relay := True\<rparr>"
| "apply_effect RelayStopped l = l\<lparr>lo_relay := False\<rparr>"
| "apply_effect ChildStarted l = l\<lparr>lo_child := True\<rparr>"
| "apply_effect ChildReaped l = l\<lparr>lo_child := False\<rparr>"
| "apply_effect e l = l"

definition after :: "effect list \<Rightarrow> leftovers \<Rightarrow> leftovers" where
  "after t l = fold apply_effect t l"

lemma after_simps [simp]: "after [] l = l" "after (e # t) l = after t (apply_effect e l)" "after (t @ u) l = after u (after t l)"
  by (simp_all add: after_def)

lemma writePrivate_after:
  "writePrivate f env = (r, t) \<Longrightarrow> \<not> lo_file l \<Longrightarrow> after t l = l"
  by (auto simp: writePrivate_def Let_def split: option.splits)

lemma writePrivate_signals: "writePrivate f env = (r, t) \<Longrightarrow> SignalSent s \<notin> set t"
  by (auto simp: writePrivate_def Let_def split: option.splits)

text \<open>A private file that could not be completed is removed again, and a complete one is restricted.\<close>

lemma writePrivate_result:
  "writePrivate f env = (r, t) \<Longrightarrow> r = None \<Longrightarrow> t = [FileOpened f, FileWritten f, FileClosed f] \<and> pv_chmod env = None"
  "writePrivate f env = (Some e, t) \<Longrightarrow> t = [] \<or> last t = FileRemoved f"
  by (auto simp: writePrivate_def Let_def split: option.splits)

text \<open>However the loop ends, child, relay and listener are gone, and no directory appeared.\<close>

lemma supervise_after:
  "supervise early seen es = Some (r, t) \<Longrightarrow> after t l = l\<lparr>lo_listener := False, lo_relay := False, lo_child := False\<rparr>"
proof (induction early seen es arbitrary: r t rule: supervise.induct)
  case (4 early seen s es)
  show ?case
  proof (cases "s = SIGHUP \<or> s = SIGTERM")
    case True
    with 4(3) obtain t' where s: "supervise early (seen(s := Suc (seen s))) es = Some (r, t')"
      and t: "t = (if seen s = 0 then SignalSent s else Killed) # t'" by (auto simp: Let_def split: option.splits)
    from 4(1) [OF True refl s] show ?thesis by (simp add: t)
  next
    case False
    then have "supervise early seen es = Some (r, t)" using 4(3) by simp
    from 4(2) [OF False this] show ?thesis .
  qed
qed (cases l, auto simp: terminateChild_def split: if_splits)

text \<open>Signals: the terminal's own signals are never forwarded, the first termination request of a
  kind is, and every further one kills.\<close>

definition requests :: "signal \<Rightarrow> sup_event list \<Rightarrow> nat" where
  "requests s es = length (filter (\<lambda>ev. ev = Signal s) (takeWhile (\<lambda>ev. case ev of Signal _ \<Rightarrow> True | _ \<Rightarrow> False) es))"

lemma requests_simps [simp]:
  "requests s [] = 0" "requests s (ChildDone w # es) = 0" "requests s (RelayDone e # es) = 0"
  "requests s (Signal s' # es) = (if s' = s then Suc (requests s es) else requests s es)"
  by (simp_all add: requests_def)

lemma supervise_signals:
  "supervise early seen es = Some (r, t) \<Longrightarrow>
     count_list t (SignalSent SIGHUP) = (if seen SIGHUP = 0 then min 1 (requests SIGHUP es) else 0) \<and>
     SignalSent SIGINT \<notin> set t \<and> SignalSent SIGQUIT \<notin> set t"
proof (induction early seen es arbitrary: r t rule: supervise.induct)
  case (4 early seen s es)
  show ?case
  proof (cases "s = SIGHUP \<or> s = SIGTERM")
    case True
    with 4(3) obtain t' where s: "supervise early (seen(s := Suc (seen s))) es = Some (r, t')"
      and t: "t = (if seen s = 0 then SignalSent s else Killed) # t'" by (auto simp: Let_def split: option.splits)
    from 4(1) [OF True refl s] True show ?thesis by (auto simp: t)
  next
    case False
    then have "supervise early seen es = Some (r, t)" using 4(3) by simp
    from 4(2) [OF False this] False show ?thesis by auto
  qed
qed (auto simp: terminateChild_def split: if_splits)



text \<open>A session the code creates has a name the sweep, the API and the prompt accept.\<close>

lemma hex_digit_char: "d < 16 \<Longrightarrow> hex_char (hex_digit d)"
  by (auto simp: hex_digit_def hex_char_def is_digit_def char_defs less_Suc_eq numeral_eq_Suc)

lemma hex_encode_valid: "length b = 16 \<Longrightarrow> ValidateSessionID (hex_encode b) = None"
proof -
  have c: "cp x div 16 < 16" "cp x mod 16 < 16" for x :: char
    using cp_less [of x] by (simp_all add: div_less_iff_less_mult)
  then have "list_all hex_char (hex_encode b)" by (auto simp: hex_encode_def list_all_iff hex_digit_char)
  moreover have "length (hex_encode b) = 2 * length b" by (induction b) (simp_all add: hex_encode_def)
  ultimately show "length b = 16 \<Longrightarrow> ?thesis" by (simp add: ValidateSessionID_def sessionIDRE_iff)
qed

lemma createSessionDir_valid:
  "createSessionDir attempt = Inr i \<Longrightarrow> (\<And>n b. ia_random (attempt n) = Inr b \<Longrightarrow> length b = 16) \<Longrightarrow> ValidateSessionID i = None"
proof -
  have "create_loop n attempt = Inr i \<Longrightarrow> (\<And>n b. ia_random (attempt n) = Inr b \<Longrightarrow> length b = 16) \<Longrightarrow> ValidateSessionID i = None" for n
    by (induction n attempt rule: create_loop.induct) (auto simp: hex_encode_valid split: sum.splits mkdir_answer.splits option.splits)
  then show "createSessionDir attempt = Inr i \<Longrightarrow> (\<And>n b. ia_random (attempt n) = Inr b \<Longrightarrow> length b = 16) \<Longrightarrow> ?thesis"
    unfolding createSessionDir_def by blast
qed

subsection \<open>One concrete session\<close>

definition demo_session_options :: session_options where
  "demo_session_options = \<lparr>so_config = Some demo_config, so_alias = ''ro'', so_label = ''a:p/ro'', so_wif_socket = ''/w'',
     so_attachment = LocalAllowed, so_route = [], so_runtime = ''/run'', so_command = [''c'']\<rparr>"

definition demo_private :: private_env where
  "demo_private = \<lparr>pv_open = None, pv_write = None, pv_chmod = None, pv_sync = None, pv_close = None\<rparr>"

definition demo_session_env :: session_env where
  "demo_session_env = \<lparr>sn_root = \<lparr>re_mkdir = None, re_lstat = None, re_real_dir = True, re_owned = True, re_chmod = None\<rparr>,
     sn_attempts = (\<lambda>_. \<lparr>ia_random = Inr (replicate 16 (CHR ''A'')), ia_mkdir = Made, ia_chmod = None\<rparr>), sn_credential = demo_private,
     sn_listen = None, sn_descriptor = demo_private, sn_start = None, sn_early = True,
     sn_events = [Signal SIGINT, Signal SIGHUP, Signal SIGHUP, ChildDone (Signaled 9)]\<rparr>"

definition demo_source :: source where
  "demo_source = Agent ''a:p/ro'' (replicate SessionIDLength (CHR ''0''))"

lemma demo_source_valid:
  "source_Validate demo_source ''ro'' = Inr (demo_source, \<lparr>lb_agent = ''a'', lb_project = ''p'', lb_role = ''ro''\<rparr>)"
proof -
  have "ParseLabel ''a:p/ro'' = Inr \<lparr>lb_agent = ''a'', lb_project = ''p'', lb_role = ''ro''\<rparr>"
    unfolding ParseLabel_Inr by (simp add: componentRE_iff component_char_def is_lower_def is_digit_def char_defs)
  moreover have "rx_match sessionIDRE (replicate SessionIDLength (CHR ''0''))"
    by (simp add: sessionIDRE_iff SessionIDLength_def list_all_iff hex_char_def is_digit_def)
  ultimately show ?thesis
    by (simp add: demo_source_def source_Validate_def Agent_def zero_source_def KindAgentSession_def KindLocal_def Let_def ValidateSessionID_def)
qed

lemma demo_run:
  "\<exists>t. Run demo_session_options demo_session_env = Some (Some (ChildExit 137 9), t) \<and> SignalSent SIGHUP \<in> set t \<and> Killed \<in> set t"
proof -
  note x = demo_source_valid [unfolded demo_source_def]
  have "WithExplicitRoute LocalAllowed [] = Inr LocalAllowed" "attachment_Validate LocalAllowed = None"
    by (simp_all add: WithExplicitRoute_def RouteRequired_def LocalAllowed_def attachment_Validate_def)
  moreover have demo_aliases: "map_of (cf_aliases demo_config) ''ro'' = Some demo_alias" by (simp add: demo_config_def)
  ultimately have c: "checkOptions demo_session_options = Inr (demo_config, demo_alias, LocalAllowed)"
    using x by (simp add: checkOptions_def demo_session_options_def demo_aliases is_abs_def has_prefix_def)
  obtain d where d: "AgentCredentialFile (Provider demo_config) (al_target demo_alias) (al_lifetime_s demo_alias) = Inr d"
    by (simp add: AgentCredentialFile_def credentialFileDocument_def Provider_def demo_config_def demo_alias_def)
  show ?thesis
    unfolding Run_def c using d
    by (simp add: demo_session_env_def demo_private_def writePrivate_def prepareRoot_def createSessionDir_def maxIDAttempts_def numeral_eq_Suc session_body_def
        childStatus_def Let_def)
qed


end
