(* ===== verification/Session_Api.thy ===== *)
theory Session_Api
  imports Wif_Api Agent_Session
begin

text \<open>
  The fixed-alias relay of an agent session (\<open>internal/sessionapi\<close>) and its way up to the daemon
  (\<open>daemonUpstream\<close> of \<open>internal/agentsession\<close>): a helper inside the sandbox sends an audience
  and perhaps a target, and the supervising host fills in everything that carries identity.
  HTTP and JSON between the relay and the daemon deliver a reply as written or fail
  (\<open>wire\<close>); \<open>optionalString\<close>, which rejects \<open>null\<close>, is an option here.
\<close>

record session_request =
  sq_audience :: string
  sq_email :: "string option"

record upstream_request =
  uq_alias :: string
  uq_audience :: string
  uq_email :: string
  uq_source :: source

record session =
  ss_alias :: string
  ss_target :: string
  ss_audience :: string
  ss_source :: source

subsection \<open>The relay\<close>

definition session_upstream_request :: "session \<Rightarrow> upstream_request" where
  "session_upstream_request ss =
     \<lparr>uq_alias = ss_alias ss, uq_audience = ss_audience ss, uq_email = ss_target ss, uq_source = ss_source ss\<rparr>"

definition session_subjectToken ::
    "session \<Rightarrow> (upstream_request \<Rightarrow> 's \<Rightarrow> token_response res \<times> 's) \<Rightarrow> session_request request_body \<Rightarrow> 's \<Rightarrow>
     token_response reply \<times> 's" where
  "session_subjectToken ss upstream b s =
     (case jsonhttp_Decode b of
        Inl e \<Rightarrow> (wif_error 400 (err_text e) CodeEnv ''send the fixed agent-session request shape'', s)
      | Inr q \<Rightarrow>
          if sq_audience q \<noteq> ss_audience ss
          then (wif_error 403 ''credential configuration audience does not match the delegated session'' CodeEnv
            ''use the session's generated credential.json'', s)
          else if sq_email q \<noteq> None \<and> the (sq_email q) \<noteq> ss_target ss
          then (wif_error 403 ''credential configuration impersonation target does not match the delegated session'' CodeEnv
            ''use the session's generated credential.json'', s)
          else case upstream (session_upstream_request ss) s of
              (Inl e, s') \<Rightarrow>
                (case errors_as node_api e of
                   Some a \<Rightarrow> (wif_error (ae_status a) (ae_message a) (ae_code a) (ae_remedy a), s')
                 | None \<Rightarrow> (wif_error 503 ''pivb daemon is not reachable on the signing socket'' CodeUnavailable
                     ''start or restart the trusted-host pivb daemon'', s'))
            | (Inr result, s') \<Rightarrow> (Reply 200 result, s'))"

subsection \<open>The helper's client\<close>

definition session_client_SubjectToken :: "token_response exchange \<Rightarrow> token_response res" where
  "session_client_SubjectToken x =
     (case x of
        NoConnection e \<Rightarrow> Inl (ErrWrap ''call pivb agent-session socket: '' e)
      | NoBody e \<Rightarrow> Inl (ErrWrap ''read pivb agent-session response: '' e)
      | Answer b \<Rightarrow>
          if rs_status b < 200 \<or> rs_status b \<ge> 300 then Inl (client_error CodeInternal b)
          else case rs_value b of
              Inl e \<Rightarrow> Inl (ErrWrap ''decode pivb agent-session response: '' e)
            | Inr out \<Rightarrow>
                if rs_more b then Inl (ErrText ''decode pivb agent-session response: multiple JSON values'')
                else if tr_id_token out = [] \<or> tr_expiration out \<le> 0
                then Inl (ErrText ''pivb agent-session response is incomplete'') else Inr out)"

subsection \<open>Up to the daemon\<close>

datatype wire = Delivered bytes | Unreachable gerror | CutOff gerror

fun answer_of :: "bytes \<Rightarrow> 'r reply \<Rightarrow> 'r exchange" where
  "answer_of raw (Reply n v) =
     Answer \<lparr>rs_status = n, rs_bytes = raw, rs_error = None, rs_value = Inr v, rs_more = False\<rparr>"
| "answer_of raw (ErrorReply n e) =
     Answer \<lparr>rs_status = n, rs_bytes = raw, rs_error = Some e, rs_value = Inl (ErrText ''json: unknown field''), rs_more = False\<rparr>"

definition body_of :: "'q \<Rightarrow> 'q request_body" where
  "body_of q = \<lparr>rb_read = None, rb_peek = None, rb_value = Inr q, rb_more = False\<rparr>"

text \<open>One POST of a request to a handler; a connection cut off after the request was read leaves
  the handler's work done.\<close>

definition http_post :: "('q request_body \<Rightarrow> 's \<Rightarrow> 'r reply \<times> 's) \<Rightarrow> wire \<Rightarrow> 'q \<Rightarrow> 's \<Rightarrow> 'r exchange \<times> 's" where
  "http_post serve w q s =
     (case w of
        Unreachable e \<Rightarrow> (NoConnection e, s)
      | CutOff e \<Rightarrow> (NoBody e, snd (serve (body_of q) s))
      | Delivered raw \<Rightarrow> (case serve (body_of q) s of (r, s') \<Rightarrow> (answer_of raw r, s')))"

definition wif_post ::
    "(request \<Rightarrow> 's \<Rightarrow> token_result res \<times> 's) \<Rightarrow> wire \<Rightarrow> wif_request \<Rightarrow> 's \<Rightarrow> token_response exchange \<times> 's" where
  "wif_post mint = http_post (wif_subjectToken mint)"

definition upstream_wif_request :: "attachment \<Rightarrow> upstream_request \<Rightarrow> wif_request" where
  "upstream_wif_request att u =
     \<lparr>wr_alias = uq_alias u, wr_audience = uq_audience u, wr_email = uq_email u, wr_source = Some (uq_source u),
      wr_route_socket = at_route att, wr_route_required = RouteRequired att\<rparr>"

definition daemonUpstream ::
    "attachment \<Rightarrow> (wif_request \<Rightarrow> 's \<Rightarrow> token_response exchange \<times> 's) \<Rightarrow> upstream_request \<Rightarrow> 's \<Rightarrow>
     token_response res \<times> 's" where
  "daemonUpstream att post u s =
     (case post (upstream_wif_request att u) s of (x, s') \<Rightarrow> (wif_client_SubjectToken x, s'))"

definition relay ::
    "session \<Rightarrow> attachment \<Rightarrow> (request \<Rightarrow> 's \<Rightarrow> token_result res \<times> 's) \<Rightarrow> wire \<Rightarrow> session_request request_body \<Rightarrow> 's \<Rightarrow>
     token_response reply \<times> 's" where
  "relay ss att mint w = session_subjectToken ss (daemonUpstream att (wif_post mint w))"

text \<open>The session and the relay \<open>Run\<close> builds.\<close>

definition session_of :: "session_options \<Rightarrow> config \<Rightarrow> alias_config \<Rightarrow> string \<Rightarrow> session" where
  "session_of opts cfg a sessionID =
     \<lparr>ss_alias = so_alias opts, ss_target = al_target a, ss_audience = ExternalAccountAudience (Provider cfg),
      ss_source = Agent (so_label opts) sessionID\<rparr>"

subsection \<open>Confinement\<close>

lemma wif_client_delivered:
  "wif_client_SubjectToken (answer_of raw r) = Inr t \<Longrightarrow> \<exists>n. r = Reply n t \<and> tr_id_token t \<noteq> [] \<and> 0 < tr_expiration t"
  by (cases r) (auto simp: wif_client_SubjectToken_def split: if_splits)

lemma relay_reply_request:
  "relay ss att mint w b s = (Reply n t, s') \<Longrightarrow>
     \<exists>q. rb_value b = Inr q \<and> sq_audience q = ss_audience ss \<and> (sq_email q = None \<or> the (sq_email q) = ss_target ss)"
  by (cases "rb_value b")
    (auto simp: relay_def session_subjectToken_def wif_error_def jsonhttp_Decode_def decode_strict_def split: option.splits if_splits)

context token_core
begin

lemma wif_post_keeps: "ok s \<Longrightarrow> ok (snd (wif_post mint w q s))"
  using subjectToken_keeps [of s "body_of q"] by (auto simp: wif_post_def http_post_def split: wire.split prod.split)

text \<open>What the client of the signing socket gets answers its own request.\<close>

lemma wif_post_token:
  assumes "ok s" and "wif_post mint w q s = (x, s')" and "wif_client_SubjectToken x = Inr t"
  shows "\<exists>att result. sound (wif_core_request q att) result \<and> st_token result \<noteq> [] \<and>
    t = \<lparr>tr_id_token = st_token result, tr_expiration = unix_of (st_expires result)\<rparr>"
proof -
  obtain raw where w: "w = Delivered raw"
    using assms(2,3) by (cases w) (auto simp: wif_post_def http_post_def wif_client_SubjectToken_def)
  obtain r s1 where r: "wif_subjectToken mint (body_of q) s = (r, s1)" by (metis prod.exhaust)
  with assms(2,3) w have "wif_client_SubjectToken (answer_of raw r) = Inr t" by (auto simp: wif_post_def http_post_def)
  from wif_client_delivered [OF this] obtain m where m: "r = Reply m t" and i: "tr_id_token t \<noteq> []" by blast
  from subjectToken_reply [OF assms(1) r [unfolded m]] obtain q' att result where q: "rb_value (body_of q) = Inr q'"
    and f: "sound (wif_core_request q' att) result" "t = \<lparr>tr_id_token = st_token result, tr_expiration = unix_of (st_expires result)\<rparr>"
    by blast
  from q have "q' = q" by (simp add: body_of_def)
  with f i show ?thesis by auto
qed

lemma relay_keeps: "ok s \<Longrightarrow> ok (snd (relay ss att mint w b s))"
proof -
  assume s: "ok s"
  have "ok (snd (wif_post mint w q s))" for q by (rule wif_post_keeps [OF s])
  then have "ok (snd (daemonUpstream att (wif_post mint w) u s))" for u
    by (simp add: daemonUpstream_def split_beta)
  then show ?thesis
    using s by (auto simp: relay_def session_subjectToken_def split: sum.split prod.split option.split) (metis snd_conv)+
qed

text \<open>A token handed into the sandbox answers the session's own request.\<close>

lemma relay_confined:
  assumes "ok s" and "relay ss att mint w b s = (Reply n t, s')"
  shows "\<exists>att' result. sound (wif_core_request (upstream_wif_request att (session_upstream_request ss)) att') result \<and>
    t = \<lparr>tr_id_token = st_token result, tr_expiration = unix_of (st_expires result)\<rparr> \<and> n = 200 \<and> st_token result \<noteq> []"
proof -
  let ?q = "upstream_wif_request att (session_upstream_request ss)"
  from assms(2) have u: "fst (daemonUpstream att (wif_post mint w) (session_upstream_request ss) s) = Inr t" and n: "n = 200"
    by (auto simp: relay_def session_subjectToken_def wif_error_def split: sum.splits prod.splits option.splits if_splits)
  obtain x s1 where x: "wif_post mint w ?q s = (x, s1)" by (metis prod.exhaust)
  with u have "wif_client_SubjectToken x = Inr t" by (simp add: daemonUpstream_def)
  from wif_post_token [OF assms(1) x this] n show ?thesis by blast
qed

end

text \<open>An agent gets its session's token and nothing else. Let a session delegate an alias as
  \<open>Run\<close> sets it up. Whatever document a process in the sandbox sends to the relay, and
  whatever the connection to the daemon does, the daemon stays in a reachable state; the
  relay's answer is an error or a token over claims for exactly the delegated alias and its
  configured target, on an enrolled key; and a document naming another audience or another
  target is refused before the daemon is asked at all.\<close>

lemma sandbox_confined:
  assumes "core_reachable cr cfg version (c, Idle)" and "map_of (cf_aliases cfg) (so_alias opts) = Some a"
    and "relay (session_of opts cfg a sessionID) att (SubjectToken cr (hardware_env senv hw env)) w body c = (reply, c')"
  shows "core_reachable cr cfg version (c', Idle) \<and>
    (case reply of ErrorReply n e \<Rightarrow> True
     | Reply n t \<Rightarrow> n = 200 \<and> tr_id_token t \<noteq> [] \<and> (\<exists>cl serial spki. cl_alias cl = so_alias opts \<and> cl_target cl = al_target a \<and>
         cl_aud cl = OIDCAudience (Provider cfg) \<and> cl_serial cl = serial_text serial \<and>
         map_of (KeysBySerial cfg) serial = Some \<lparr>kc_jwk_kid = cl_key_id cl\<rparr> \<and>
         token_carries cr (tr_id_token t) spki cl \<and> tr_expiration t = unix_of (ExpiresAt cl))) \<and>
    (\<forall>q. jsonhttp_Decode body = Inr q \<and>
       (sq_audience q \<noteq> ExternalAccountAudience (Provider cfg) \<or> sq_email q \<notin> {None, Some (al_target a)}) \<longrightarrow>
       c' = c \<and> (\<exists>e. reply = ErrorReply 403 e))"
  (is "_ \<and> ?token \<and> ?refused")
proof (intro conjI)
  let ?ss = "session_of opts cfg a sessionID"
  show "core_reachable cr cfg version (c', Idle)"
    using daemon_core.relay_keeps [OF assms(1), of ?ss att senv hw env w body] by (simp add: assms(3))
  show ?token
  proof (cases reply)
    case (Reply n t)
    from daemon_core.relay_confined [OF assms(1) assms(3) [unfolded Reply]] obtain att' result where
      f: "token_for cr cfg (wif_core_request (upstream_wif_request att (session_upstream_request ?ss)) att') result"
      and t: "t = \<lparr>tr_id_token = st_token result, tr_expiration = unix_of (st_expires result)\<rparr>" "n = 200" "st_token result \<noteq> []" by blast
    from f obtain a' cl where "map_of (cf_aliases cfg) (so_alias opts) = Some a'"
        "token_claims cfg (so_alias opts) a' (st_serial result) (st_key_id result) cl"
        "token_carries cr (st_token result) (st_spki result) cl" "st_expires result = ExpiresAt cl"
      unfolding token_for_def wif_core_request_def upstream_wif_request_def session_upstream_request_def session_of_def
        request.simps wif_request.simps upstream_request.simps session.simps by blast
    with assms(2) t show ?thesis
      unfolding Reply reply.case
      by (intro conjI exI [of _ cl] exI [of _ "st_serial result"] exI [of _ "st_spki result"]) (simp_all add: token_claims_def)
  qed simp
  show ?refused
    using assms(3) by (auto simp: relay_def session_subjectToken_def session_of_def wif_error_def split: if_splits)
qed

definition demo_body :: "session_request request_body" where
  "demo_body = \<lparr>rb_read = None, rb_peek = None, rb_value = Inr \<lparr>sq_audience = rq_audience demo_request, sq_email = None\<rparr>, rb_more = False\<rparr>"

lemma demo_relay:
  "\<exists>t c'. relay (session_of demo_session_options demo_config demo_alias (replicate SessionIDLength (CHR ''0''))) LocalAllowed
     (SubjectToken demo_crypto (hardware_env demo_sign_env demo_hardware (fw_token demo_forward_env))) (Delivered []) demo_body
     demo_unlocked = (Reply 200 t, c') \<and> tr_id_token t \<noteq> [] \<and> 0 < tr_expiration t"
proof -
  let ?ss = "session_of demo_session_options demo_config demo_alias (replicate SessionIDLength (CHR ''0''))"
  let ?mint = "SubjectToken demo_crypto (hardware_env demo_sign_env demo_hardware (fw_token demo_forward_env))"
  have u: "upstream_wif_request LocalAllowed (session_upstream_request ?ss) = demo_wif (Some demo_source)"
    by (simp add: upstream_wif_request_def session_upstream_request_def session_of_def demo_session_options_def demo_wif_def
        demo_request_def demo_alias_def demo_source_def) (simp add: LocalAllowed_def)
  obtain t c' where w: "wif_subjectToken ?mint (body_of (demo_wif (Some demo_source))) demo_unlocked = (Reply 200 t, c')"
    and t: "tr_id_token t \<noteq> []" "0 < tr_expiration t"
    using demo_wif_reply [of "Some demo_source" _ _ "body_of (demo_wif (Some demo_source))"] demo_source_valid
    by (auto simp: body_of_def)
  have "daemonUpstream LocalAllowed (wif_post ?mint (Delivered [])) (session_upstream_request ?ss) demo_unlocked = (Inr t, c')"
    using t by (simp add: daemonUpstream_def wif_post_def http_post_def u w wif_client_SubjectToken_def)
  moreover have "ss_audience ?ss = rq_audience demo_request" by (simp add: session_of_def demo_request_def)
  ultimately show ?thesis using t
    by (simp add: relay_def session_subjectToken_def demo_body_def jsonhttp_Decode_def decode_strict_def)
qed

end
