(* ===== verification/Go_Flag.thy ===== *)
theory Go_Flag
  imports Go_Error
begin

text \<open>
  What the commands use of Go's \<open>flag\<close> package: an argument list is parsed in order up to the
  first argument that is not a flag. A flag is a string flag, a boolean flag (which takes a
  value only behind an equals sign) or a \<open>flag.Value\<close> whose \<open>Set\<close> may refuse a value given the
  ones it already has. The flags given are kept newest first, so the last value of a string
  flag wins. The texts of the errors are those of \<open>flag.FlagSet.parseOne\<close>.
\<close>

type_synonym flags = "(string \<times> string) list"

datatype flag_kind = StringFlag | BoolFlag | VarFlag "string list \<Rightarrow> string \<Rightarrow> gerror option"

definition ErrHelp :: gerror where "ErrHelp = ErrText ''flag: help requested''"

text \<open>The name of a flag argument and the value behind its first equals sign.\<close>

definition flag_parts :: "string \<Rightarrow> string \<times> string option" where
  "flag_parts body =
     (case takeWhile (\<lambda>c. c \<noteq> CHR ''='') body of name \<Rightarrow>
        if name = body then (body, None) else (name, Some (drop (Suc (length name)) body)))"

definition flag_arg :: "(string \<times> flag_kind) list \<Rightarrow> string \<Rightarrow> gerror + string \<times> flag_kind \<times> string option" where
  "flag_arg formal s =
     (let body = drop (if s ! 1 = CHR ''-'' then 2 else 1) s in
      if body = [] \<or> hd body = CHR ''-'' \<or> hd body = CHR ''='' then Inl (ErrText (''bad flag syntax: '' @ s))
      else case flag_parts body of
          (name, inline) \<Rightarrow>
            (case map_of formal name of
               None \<Rightarrow> if name = ''help'' \<or> name = ''h'' then Inl ErrHelp
                 else Inl (ErrText (''flag provided but not defined: -'' @ name))
             | Some kind \<Rightarrow> Inr (name, kind, inline)))"

text \<open>\<open>strconv.ParseBool\<close>.\<close>

definition parse_bool :: "string \<Rightarrow> bool option" where
  "parse_bool s =
     (if s \<in> {''1'', ''t'', ''T'', ''true'', ''TRUE'', ''True''} then Some True
      else if s \<in> {''0'', ''f'', ''F'', ''false'', ''FALSE'', ''False''} then Some False else None)"

definition flag_values :: "flags \<Rightarrow> string \<Rightarrow> string list" where
  "flag_values m name = map snd (filter (\<lambda>kv. fst kv = name) m)"

fun set_flag :: "flag_kind \<Rightarrow> string \<Rightarrow> string \<Rightarrow> flags \<Rightarrow> gerror + flags" where
  "set_flag StringFlag name v m = Inr ((name, v) # m)"
| "set_flag BoolFlag name v m =
     (case parse_bool v of
        None \<Rightarrow> Inl (ErrText (''invalid boolean value '' @ go_quote v @ '' for -'' @ name @ '': parse error''))
      | Some b \<Rightarrow> Inr ((name, v) # m))"
| "set_flag (VarFlag check) name v m =
     (case check (flag_values m name) v of
        Some e \<Rightarrow> Inl (ErrText (''invalid value '' @ go_quote v @ '' for flag -'' @ name @ '': '' @ err_text e))
      | None \<Rightarrow> Inr ((name, v) # m))"

fun takes_no_value :: "flag_kind \<Rightarrow> bool" where
  "takes_no_value BoolFlag = True" | "takes_no_value _ = False"

fun parse_flags :: "(string \<times> flag_kind) list \<Rightarrow> string list \<Rightarrow> flags \<Rightarrow> gerror + flags \<times> string list" where
  "parse_flags formal [] m = Inr (m, [])"
| "parse_flags formal (s # args) m =
     (if length s < 2 \<or> hd s \<noteq> CHR ''-'' then Inr (m, s # args)
      else if s = ''--'' then Inr (m, args)
      else case flag_arg formal s of
          Inl e \<Rightarrow> Inl e
        | Inr (name, kind, Some v) \<Rightarrow>
            (case set_flag kind name v m of Inl e \<Rightarrow> Inl e | Inr m' \<Rightarrow> parse_flags formal args m')
        | Inr (name, kind, None) \<Rightarrow>
            if takes_no_value kind then parse_flags formal args ((name, ''true'') # m)
            else (case args of
               [] \<Rightarrow> Inl (ErrText (''flag needs an argument: -'' @ name))
             | v # rest \<Rightarrow> (case set_flag kind name v m of Inl e \<Rightarrow> Inl e | Inr m' \<Rightarrow> parse_flags formal rest m')))"

definition flag_value :: "flags \<Rightarrow> string \<Rightarrow> string \<Rightarrow> string" where
  "flag_value m name dflt = (case map_of m name of Some v \<Rightarrow> v | None \<Rightarrow> dflt)"

definition flag_bool :: "flags \<Rightarrow> string \<Rightarrow> bool" where
  "flag_bool m name \<longleftrightarrow> (case map_of m name of Some v \<Rightarrow> parse_bool v = Some True | None \<Rightarrow> False)"

definition string_flags :: "string list \<Rightarrow> (string \<times> flag_kind) list" where
  "string_flags names = map (\<lambda>name. (name, StringFlag)) names"

text \<open>Whatever a flag's \<open>Set\<close> accepts step by step holds of the flags that were parsed: a
  property that every accepted value keeps is a property of the result.\<close>

lemma flag_arg_formal: "flag_arg formal s = Inr (name, kind, v) \<Longrightarrow> map_of formal name = Some kind"
  unfolding flag_arg_def Let_def
  by (cases "flag_parts (drop (if s ! 1 = CHR ''-'' then 2 else 1) s)") (simp split: if_splits option.splits)

lemma set_flag_true: "takes_no_value kind \<Longrightarrow> set_flag kind name ''true'' m = Inr ((name, ''true'') # m)"
  by (cases kind) (simp_all add: parse_bool_def)

lemma parse_flags_keeps:
  assumes step: "\<And>kind name v m m'. map_of formal name = Some kind \<Longrightarrow> set_flag kind name v m = Inr m' \<Longrightarrow> P m \<Longrightarrow> P m'"
    and "parse_flags formal args m = Inr (m', rest)" and "P m"
  shows "P m'"
  using assms(2,3)
proof (induction "length args" arbitrary: args m rule: less_induct)
  case less
  show ?case
  proof (cases args)
    case (Cons s args')
    show ?thesis
    proof (cases "length s < 2 \<or> hd s \<noteq> CHR ''-'' \<or> s = ''--''")
      case False
      with less.prems(1) Cons obtain name kind v where f: "flag_arg formal s = Inr (name, kind, v)" by (auto split: sum.splits)
      from flag_arg_formal [OF f] have k: "map_of formal name = Some kind" .
      note p = less.prems(1) [unfolded Cons parse_flags.simps] and n = False f
      have "\<exists>w m1 args1. set_flag kind name w m = Inr m1 \<and> parse_flags formal args1 m1 = Inr (m', rest) \<and> length args1 < length args"
      proof (cases v)
        case (Some w)
        with p n obtain m1 where "set_flag kind name w m = Inr m1" "parse_flags formal args' m1 = Inr (m', rest)" by (auto split: sum.splits)
        then show ?thesis by (auto simp: Cons)
      next
        case None
        show ?thesis
        proof (cases "takes_no_value kind")
          case True
          with p n None set_flag_true [of kind name m] show ?thesis by (fastforce simp: Cons)
        next
          case False
          with p n None obtain w args2 m1 where "args' = w # args2" "set_flag kind name w m = Inr m1" "parse_flags formal args2 m1 = Inr (m', rest)"
            by (cases args') (auto split: sum.splits)
          then show ?thesis by (intro exI [of _ w] exI [of _ m1] exI [of _ args2]) (simp add: Cons)
        qed
      qed
      then obtain w m1 args1 where n: "set_flag kind name w m = Inr m1" "parse_flags formal args1 m1 = Inr (m', rest)"
          "length args1 < length args" by blast
      from less.hyps [OF n(3,2) step [OF k n(1) less.prems(2)]] show ?thesis .
    qed (use less.prems Cons in \<open>auto split: if_splits\<close>)
  qed (use less.prems in simp)
qed

end
