(* ===== verification/Exec_Source.thy ===== *)
theory Exec_Source
  imports Session_Api Go_Flag
begin

text \<open>
  The executable credential source: the environment Google's auth libraries set and the
  document they read from standard output (\<open>internal/execsource\<close>), and the two helpers that
  speak it, \<open>pivb subject-token\<close> on the host and \<open>pivb-agent-subject-token\<close> inside a sandbox.
  Standard output is the bytes written, standard error the lines \<open>Report\<close> writes (the usage
  text \<open>flag\<close> prints there is not modelled). The file system's answer to reading the
  configuration and the exchange on the socket are arguments.
\<close>

definition EnvTokenType :: string where "EnvTokenType = ''GOOGLE_EXTERNAL_ACCOUNT_TOKEN_TYPE''"
definition EnvAudience :: string where "EnvAudience = ''GOOGLE_EXTERNAL_ACCOUNT_AUDIENCE''"
definition EnvImpersonatedEmail :: string where "EnvImpersonatedEmail = ''GOOGLE_EXTERNAL_ACCOUNT_IMPERSONATED_EMAIL''"
definition EnvOutputFile :: string where "EnvOutputFile = ''GOOGLE_EXTERNAL_ACCOUNT_OUTPUT_FILE''"

record exec_environment =
  ee_audience :: string
  ee_email :: "string option"

text \<open>What a helper process gets and gives. \<open>xp_write\<close> is the error of writing to standard
  output, with the number of bytes that went out before it.\<close>

record exec_process =
  xp_lookup :: "string \<Rightarrow> string option"
  xp_write :: "(gerror \<times> nat) option"

record exec_out =
  xo_stdout :: bytes
  xo_stderr :: "string list"
  xo_err :: "gerror option"

definition getenv_of :: "(string \<Rightarrow> string option) \<Rightarrow> string \<Rightarrow> string" where
  "getenv_of lookup name = (case lookup name of None \<Rightarrow> [] | Some v \<Rightarrow> v)"

subsection \<open>The protocol\<close>

definition ReadEnvironment :: "(string \<Rightarrow> string option) \<Rightarrow> exec_environment res" where
  "ReadEnvironment lookup =
     (let got = getenv_of lookup EnvTokenType in
      if got \<noteq> TokenType
      then Inl (EnvironmentError EnvTokenType
        (EnvTokenType @ '' is '' @ go_quote got @ ''; pivb only issues '' @ go_quote TokenType))
      else case lookup EnvAudience of
          None \<Rightarrow> Inl (EnvironmentError EnvAudience (EnvAudience @ '' is missing or empty''))
        | Some audience \<Rightarrow>
            if audience = [] then Inl (EnvironmentError EnvAudience (EnvAudience @ '' is missing or empty''))
            else case lookup EnvOutputFile of
                Some value \<Rightarrow> Inl (EnvironmentError EnvOutputFile
                  (EnvOutputFile @ '' is set to '' @ go_quote value @ ''; remove output_file from the credential configuration''))
              | None \<Rightarrow> Inr \<lparr>ee_audience = audience, ee_email = lookup EnvImpersonatedEmail\<rparr>)"

datatype exec_doc = ExecSuccess string int | ExecError string string

fun doc_fields :: "exec_doc \<Rightarrow> (string \<times> jval) list" where
  "doc_fields (ExecSuccess token expiration) =
     [(''version'', JInt 1), (''success'', JBool True), (''token_type'', JStr TokenType), (''id_token'', JStr token),
      (''expiration_time'', JInt expiration)]"
| "doc_fields (ExecError code message) =
     [(''version'', JInt 1), (''success'', JBool False), (''code'', JStr code), (''message'', JStr message)]"

definition doc_text :: "exec_doc \<Rightarrow> bytes" where
  "doc_text d = json_object (doc_fields d) @ [newline]"

definition write_out :: "exec_process \<Rightarrow> bytes \<Rightarrow> bytes \<times> gerror option" where
  "write_out p b = (case xp_write p of None \<Rightarrow> (b, None) | Some (e, n) \<Rightarrow> (take n b, Some e))"

definition exec_report :: "exec_process \<Rightarrow> string \<Rightarrow> string \<Rightarrow> string \<Rightarrow> string \<Rightarrow> exec_out" where
  "exec_report p prefix code message detail =
     (case write_out p (doc_text (ExecError code message)) of (out, e) \<Rightarrow>
        \<lparr>xo_stdout = out, xo_stderr = (if detail \<noteq> [] then [prefix @ '': '' @ detail] else []),
         xo_err = (case e of None \<Rightarrow> Some ErrReported | Some e \<Rightarrow> Some (ErrWrap ''write executable error document: '' e))\<rparr>)"

definition exec_success :: "exec_process \<Rightarrow> token_response \<Rightarrow> exec_out" where
  "exec_success p r =
     (case write_out p (doc_text (ExecSuccess (tr_id_token r) (tr_expiration r))) of (out, e) \<Rightarrow>
        \<lparr>xo_stdout = out, xo_stderr = [],
         xo_err = map_option (ErrWrap ''write executable success document: '') e\<rparr>)"

definition dots :: "string \<Rightarrow> nat" where
  "dots s = length (filter (\<lambda>c. c = CHR ''.'') s)"

definition with_remedy :: "api_error \<Rightarrow> string" where
  "with_remedy a = ae_message a @ (if ae_remedy a \<noteq> [] then '' (remedy: '' @ ae_remedy a @ '')'' else [])"

subsection \<open>\<open>pivb subject-token\<close>\<close>

definition host_report :: "exec_process \<Rightarrow> string \<Rightarrow> string \<Rightarrow> string \<Rightarrow> exec_out" where
  "host_report p = exec_report p ''pivb subject-token''"

definition env_message :: "gerror \<Rightarrow> string" where
  "env_message e =
     (case errors_as node_env e of
        Some (field, _) \<Rightarrow>
          if field = EnvOutputFile then ''subject-token output caching is prohibited''
          else if field = EnvAudience then ''credential configuration audience is missing''
          else ''credential configuration requests an unsupported subject token type''
      | None \<Rightarrow> ''credential configuration requests an unsupported subject token type'')"

text \<open>The checks before the daemon is called: a report's arguments, or the request.\<close>

definition host_request ::
    "(string \<Rightarrow> string option) \<Rightarrow> config res \<Rightarrow> string \<Rightarrow> string list \<Rightarrow> (string \<times> string \<times> string) + wif_request" where
  "host_request lookup loaded wifSocket args =
     (case parse_flags (string_flags [''alias'']) args [] of
        Inl e \<Rightarrow> Inl (CodeEnv, ''invalid subject-token invocation'', err_text e)
      | Inr (m, rest) \<Rightarrow>
     if rest \<noteq> [] then Inl (CodeEnv, ''invalid subject-token invocation'', ''subject-token takes no positional arguments'')
     else let name = flag_value m ''alias'' [] in
     if name = [] then Inl (CodeEnv, ''invalid subject-token invocation'', ''--alias is required'')
     else case FromEnvironment (getenv_of lookup) of
        Inl e \<Rightarrow> Inl (CodeRouteRequired, ''managed PIVB attachment is invalid'', err_text e)
      | Inr att \<Rightarrow>
     if wifSocket = [] then Inl (CodeEnv, ''pivb signing socket location is unknown'',
       ''XDG_RUNTIME_DIR is not set; pass --wif-socket explicitly'')
     else case loaded of
        Inl e \<Rightarrow> Inl (CodeConfig, ''pivb configuration is missing or invalid'', err_text e)
      | Inr cfg \<Rightarrow>
     case map_of (cf_aliases cfg) name of
        None \<Rightarrow> Inl (CodeConfig, ''alias '' @ go_quote name @ '' is not configured'', [])
      | Some a \<Rightarrow>
     let wantAudience = ExternalAccountAudience (Provider cfg) in
     case ReadEnvironment lookup of
        Inl e \<Rightarrow> Inl (CodeEnv, env_message e, err_text e @ '' (invoke pivb through a Google auth library credential source)'')
      | Inr env \<Rightarrow>
     if ee_audience env \<noteq> wantAudience
     then Inl (CodeEnv, ''credential configuration audience does not match pivb configuration'',
       EnvAudience @ '' is '' @ go_quote (ee_audience env) @ '' but this host derives '' @ go_quote wantAudience
         @ ''; regenerate with `pivb wif credentials`'')
     else if ee_email env \<noteq> None \<and> the (ee_email env) \<noteq> al_target a
     then Inl (CodeEnv, ''credential configuration impersonation target does not match pivb configuration'',
       EnvImpersonatedEmail @ '' is '' @ go_quote (the (ee_email env)) @ '' but alias '' @ go_quote name @ '' targets ''
         @ go_quote (al_target a) @ ''; regenerate with `pivb wif credentials`'')
     else Inr \<lparr>wr_alias = name, wr_audience = wantAudience, wr_email = al_target a, wr_source = None,
       wr_route_socket = at_route att, wr_route_required = RouteRequired att\<rparr>)"

definition host_answer :: "exec_process \<Rightarrow> token_response res \<Rightarrow> exec_out" where
  "host_answer p answer =
     (case answer of
        Inl e \<Rightarrow>
          (case errors_as node_policy e of
             Some message \<Rightarrow> host_report p CodeRouteRequired ''managed PIVB route was rejected'' message
           | None \<Rightarrow>
          case errors_as node_api e of
             Some a \<Rightarrow> host_report p (ae_code a) (ae_message a) (with_remedy a)
           | None \<Rightarrow> host_report p CodeUnavailable ''pivb daemon is not reachable on the signing socket''
               (err_text e @ ''; start it with `systemctl --user start pivb`''))
      | Inr r \<Rightarrow>
          if dots (tr_id_token r) \<noteq> 2 then host_report p CodeInternal ''daemon returned a malformed subject token'' []
          else exec_success p r)"

definition subjectTokenCommand ::
    "exec_process \<Rightarrow> config res \<Rightarrow> string \<Rightarrow> string list \<Rightarrow> (wif_request \<Rightarrow> 's \<Rightarrow> token_response exchange \<times> 's) \<Rightarrow> 's \<Rightarrow>
     exec_out \<times> 's" where
  "subjectTokenCommand p loaded wifSocket args post s =
     (case host_request (xp_lookup p) loaded wifSocket args of
        Inl (code, message, detail) \<Rightarrow> (host_report p code message detail, s)
      | Inr q \<Rightarrow> (case post q s of (x, s') \<Rightarrow> (host_answer p (wif_client_SubjectToken x), s')))"

subsection \<open>\<open>pivb-agent-subject-token\<close>\<close>

definition agent_report :: "exec_process \<Rightarrow> string \<Rightarrow> string \<Rightarrow> string \<Rightarrow> exec_out" where
  "agent_report p = exec_report p ''pivb-agent-subject-token''"

definition agent_request :: "(string \<Rightarrow> string option) \<Rightarrow> string list \<Rightarrow> (string \<times> string \<times> string) + string \<times> session_request" where
  "agent_request lookup args =
     (case parse_flags (string_flags [''socket'']) args [] of
        Inl e \<Rightarrow> Inl (CodeEnv, ''invalid agent subject-token invocation'', err_text e)
      | Inr (m, rest) \<Rightarrow>
     let socket = flag_value m ''socket'' [] in
     if rest \<noteq> [] \<or> socket = [] \<or> \<not> is_abs socket
     then Inl (CodeEnv, ''invalid agent subject-token invocation'',
       ''exactly one absolute --socket path is required and positional arguments are forbidden'')
     else case ReadEnvironment lookup of
        Inl e \<Rightarrow> Inl (CodeEnv, ''executable credential environment is invalid'', err_text e)
      | Inr env \<Rightarrow> Inr (socket, \<lparr>sq_audience = ee_audience env, sq_email = ee_email env\<rparr>))"

definition agent_answer :: "exec_process \<Rightarrow> token_response res \<Rightarrow> exec_out" where
  "agent_answer p answer =
     (case answer of
        Inl e \<Rightarrow>
          (case errors_as node_api e of
             Some a \<Rightarrow> agent_report p (ae_code a) (ae_message a) (with_remedy a)
           | None \<Rightarrow> agent_report p CodeUnavailable ''pivb agent session is unavailable'' (err_text e))
      | Inr r \<Rightarrow>
          if dots (tr_id_token r) \<noteq> 2
          then agent_report p CodeInternal ''agent-session relay returned a malformed subject token'' []
          else exec_success p r)"

definition agent_run ::
    "exec_process \<Rightarrow> string list \<Rightarrow> (string \<Rightarrow> session_request \<Rightarrow> 's \<Rightarrow> token_response exchange \<times> 's) \<Rightarrow> 's \<Rightarrow> exec_out \<times> 's" where
  "agent_run p args post s =
     (case agent_request (xp_lookup p) args of
        Inl (code, message, detail) \<Rightarrow> (agent_report p code message detail, s)
      | Inr (socket, q) \<Rightarrow> (case post socket q s of (x, s') \<Rightarrow> (agent_answer p (session_client_SubjectToken x), s')))"

subsection \<open>One document\<close>

definition doc_ascii :: "exec_doc \<Rightarrow> bool" where
  "doc_ascii d \<longleftrightarrow> list_all (\<lambda>(k, v). ascii k \<and> jval_ok v) (doc_fields d)"

lemma doc_parse: "doc_ascii d \<Longrightarrow> json_document (doc_text d) = Some (doc_fields d)"
  unfolding doc_text_def doc_ascii_def
  by (rule json_document_object_end) (cases d; simp add: skip_ws_def json_space_def)+

text \<open>What a helper leaves on standard output and as its error.\<close>

definition emitted :: "exec_out \<Rightarrow> exec_doc \<Rightarrow> bool" where
  "emitted out d \<longleftrightarrow> xo_stdout out = doc_text d \<and>
     xo_err out = (case d of ExecSuccess token expiration \<Rightarrow> None | ExecError code message \<Rightarrow> Some ErrReported)"

lemma report_emitted: "xp_write p = None \<Longrightarrow> emitted (exec_report p prefix code message detail) (ExecError code message)"
  by (simp add: emitted_def exec_report_def write_out_def)

lemma report_fails: "xp_write p = None \<Longrightarrow> \<exists>code message. emitted (exec_report p prefix code' message' detail) (ExecError code message)"
  using report_emitted by blast

lemma success_emitted: "xp_write p = None \<Longrightarrow> emitted (exec_success p r) (ExecSuccess (tr_id_token r) (tr_expiration r))"
  by (simp add: emitted_def exec_success_def write_out_def)

lemma host_answer_emitted:
  assumes "xp_write p = None"
  shows "(\<exists>r. answer = Inr r \<and> dots (tr_id_token r) = 2 \<and> emitted (host_answer p answer) (ExecSuccess (tr_id_token r) (tr_expiration r))) \<or>
    (\<exists>code message. emitted (host_answer p answer) (ExecError code message))"
  using report_fails [OF assms] success_emitted [OF assms]
  by (auto simp: host_answer_def host_report_def split: sum.split option.split)

lemma agent_answer_emitted:
  assumes "xp_write p = None"
  shows "(\<exists>r. answer = Inr r \<and> dots (tr_id_token r) = 2 \<and> emitted (agent_answer p answer) (ExecSuccess (tr_id_token r) (tr_expiration r))) \<or>
    (\<exists>code message. emitted (agent_answer p answer) (ExecError code message))"
  using report_fails [OF assms] success_emitted [OF assms]
  by (auto simp: agent_answer_def agent_report_def split: sum.split option.split)

lemma ReadEnvironment_Inr:
  "ReadEnvironment lookup = Inr env \<longleftrightarrow>
     lookup EnvTokenType = Some TokenType \<and> ee_audience env \<noteq> [] \<and> lookup EnvAudience = Some (ee_audience env) \<and>
     lookup EnvOutputFile = None \<and> ee_email env = lookup EnvImpersonatedEmail"
  by (cases env) (auto simp: ReadEnvironment_def getenv_of_def Let_def TokenType_def split: option.splits if_splits)

lemma host_request_Inr:
  assumes "host_request lookup loaded wifSocket args = Inr q"
  shows "\<exists>cfg a. loaded = Inr cfg \<and> map_of (cf_aliases cfg) (wr_alias q) = Some a \<and> wr_alias q \<noteq> [] \<and>
    wr_audience q = ExternalAccountAudience (Provider cfg) \<and> wr_email q = al_target a \<and>
    lookup EnvTokenType = Some TokenType \<and> lookup EnvAudience = Some (wr_audience q) \<and> lookup EnvOutputFile = None \<and>
    (lookup EnvImpersonatedEmail = None \<or> the (lookup EnvImpersonatedEmail) = wr_email q)"
  using assms by (auto simp: host_request_def Let_def ReadEnvironment_Inr split: sum.splits prod.splits option.splits if_splits)

subsection \<open>Tokens are ASCII\<close>

lemma b64_vals_ascii: "b64_vals s = Some vs \<Longrightarrow> ascii s"
  by (induction s arbitrary: vs) (auto simp: b64_val_def Let_def split: option.splits if_splits)

lemma b64_decode_ascii: "b64_decode s = Some b \<Longrightarrow> ascii s"
proof -
  assume "b64_decode s = Some b"
  then have "ascii (filter (\<lambda>c. c \<noteq> CHR 0x0A \<and> c \<noteq> CHR 0x0D) s)"
    by (auto simp: b64_decode_def dest: b64_vals_ascii split: option.splits)
  then show ?thesis by (auto simp: ascii_def)
qed

lemma decode_part_ascii: "decode_part label step init s = Inr v \<Longrightarrow> ascii s"
  by (auto simp: decode_part_def dest: b64_decode_ascii split: option.splits)

lemma token_carries_ascii: "token_carries cr token spki cl \<Longrightarrow> ascii token"
  unfolding token_carries_def
proof (elim disjE exE conjE)
  fix input sig
  assume "SigningInput cl = Inr input" "Assemble input sig = Inr token"
  then show ?thesis
    using ascii_b64_encode by (auto simp: SigningInput_def Assemble_def split: if_splits)
next
  fix v
  assume "VerifyForwarded cr token spki = Inr v"
  then obtain p0 p1 p2 signature where p: "split_on (CHR ''.'') token = [p0, p1, p2]"
      "decode_part ''header'' header_step empty_header p0 = Inr \<lparr>jh_alg = ''RS256'', jh_typ = ''JWT'', jh_kid = vt_header_kid v\<rparr>"
      "decode_part ''claims'' claims_step empty_claims p1 = Inr (vt_claims v)" "b64_decode p2 = Some signature"
    unfolding VerifyForwarded_Inr by blast
  have "token = p0 @ ''.'' @ p1 @ ''.'' @ p2" using split_on_join [of "CHR ''.''" token] by (simp add: p(1))
  with p(2-4) show ?thesis by (simp add: decode_part_ascii b64_decode_ascii)
qed

lemma token_carries_dots: "token_carries cr token spki cl \<Longrightarrow> dots token = 2"
  unfolding token_carries_def
proof (elim disjE exE conjE)
  fix input sig
  assume "SigningInput cl = Inr input" "Assemble input sig = Inr token"
  then show ?thesis
    using b64_encode_no_sep by (auto simp: SigningInput_def Assemble_def dots_def filter_empty_conv split: if_splits)
next
  fix v
  assume "VerifyForwarded cr token spki = Inr v"
  then obtain p0 p1 p2 where p: "split_on (CHR ''.'') token = [p0, p1, p2]"
    unfolding VerifyForwarded_Inr by blast
  then have "CHR ''.'' \<notin> set p0" "CHR ''.'' \<notin> set p1" "CHR ''.'' \<notin> set p2"
    using split_on_no_sep [of _ "CHR ''.''" token] by auto
  moreover have "token = p0 @ ''.'' @ p1 @ ''.'' @ p2" using split_on_join [of "CHR ''.''" token] by (simp add: p)
  ultimately show ?thesis by (auto simp: dots_def filter_empty_conv)
qed

text \<open>A success document over such a token reads back as it was written.\<close>

lemma success_parse:
  "token_carries cr token spki cl \<Longrightarrow>
     json_document (doc_text (ExecSuccess token (unix_of t))) = Some (doc_fields (ExecSuccess token (unix_of t)))"
  using wrap64_in_int64 [of "t div second - unix_to_internal"]
  by (intro doc_parse) (simp add: doc_ascii_def token_carries_ascii TokenType_def unix_of_def in_int64_def)

text \<open>What the host's helper prints for a daemon that answered is the daemon's token.\<close>

lemma host_token:
  assumes "core_reachable cr cfg version (c, Idle)"
    and "wif_post (SubjectToken cr (hardware_env senv hw env)) w q c = (x, c')" and "wif_client_SubjectToken x = Inr t"
  shows "\<exists>a cl serial spki. map_of (cf_aliases cfg) (wr_alias q) = Some a \<and> wr_audience q = ExternalAccountAudience (Provider cfg) \<and>
    wr_email q = al_target a \<and> token_claims cfg (wr_alias q) a serial (cl_key_id cl) cl \<and> token_carries cr (tr_id_token t) spki cl \<and>
    tr_expiration t = unix_of (ExpiresAt cl)"
proof -
  from daemon_core.wif_post_token [OF assms] obtain att result where "token_for cr cfg (wif_core_request q att) result"
      "t = \<lparr>tr_id_token = st_token result, tr_expiration = unix_of (st_expires result)\<rparr>" by blast
  then obtain a cl where "map_of (cf_aliases cfg) (wr_alias q) = Some a" "wr_audience q = ExternalAccountAudience (Provider cfg)"
      "wr_email q = al_target a" "token_claims cfg (wr_alias q) a (st_serial result) (st_key_id result) cl"
      "token_carries cr (tr_id_token t) (st_spki result) cl" "tr_expiration t = unix_of (ExpiresAt cl)"
    by (auto simp: token_for_def wif_core_request_def)
  moreover from this have "cl_key_id cl = st_key_id result" by (simp add: token_claims_def)
  ultimately show ?thesis by (intro exI [of _ a] exI [of _ cl] exI [of _ "st_serial result"] exI [of _ "st_spki result"]) simp
qed

text \<open>C16: the host's credential helper prints one document, and a token only as delegated. In any
  state the daemon can reach, whatever the arguments, the environment, the helper's own
  configuration and the connection, \<open>pivb subject-token\<close> writes exactly one JSON document. It
  exits zero only with a success document, which reads back as version 1 with the three-part
  token and the expiry of claims the daemon made for the helper's alias on an enrolled key;
  then the helper's and the daemon's configuration agree on audience and target, the auth
  library asked for exactly these, and it did not ask for the token to be cached in a file.\<close>

theorem host_helper_sound:
  assumes "core_reachable cr cfg version (c, Idle)" and "xp_write p = None"
    and "subjectTokenCommand p loaded wifSocket args (wif_post (SubjectToken cr (hardware_env senv hw env)) w) c = (out, c')"
  shows "core_reachable cr cfg version (c', Idle) \<and> (\<exists>d. xo_stdout out = doc_text d \<and>
    (case d of
       ExecError code message \<Rightarrow> xo_err out = Some ErrReported
     | ExecSuccess token expiration \<Rightarrow> xo_err out = None \<and> dots token = 2 \<and>
         json_document (xo_stdout out) = Some [(''version'', JInt 1), (''success'', JBool True), (''token_type'', JStr TokenType),
           (''id_token'', JStr token), (''expiration_time'', JInt expiration)] \<and>
         (\<exists>host name a b cl serial spki. loaded = Inr host \<and> map_of (cf_aliases host) name = Some a \<and>
            map_of (cf_aliases cfg) name = Some b \<and> al_target a = al_target b \<and>
            ExternalAccountAudience (Provider host) = ExternalAccountAudience (Provider cfg) \<and>
            xp_lookup p EnvAudience = Some (ExternalAccountAudience (Provider cfg)) \<and>
            xp_lookup p EnvImpersonatedEmail \<in> {None, Some (al_target b)} \<and> xp_lookup p EnvOutputFile = None \<and>
            token_claims cfg name b serial (cl_key_id cl) cl \<and> token_carries cr token spki cl \<and>
            expiration = unix_of (ExpiresAt cl))))"
  (is "_ \<and> (\<exists>d. _ \<and> ?doc d)")
proof (cases "host_request (xp_lookup p) loaded wifSocket args")
  case (Inl r)
  then show ?thesis
    using assms by (cases r) (auto simp: subjectTokenCommand_def host_report_def exec_report_def write_out_def
        intro!: exI [of _ "ExecError _ _"])
next
  case (Inr q)
  let ?post = "wif_post (SubjectToken cr (hardware_env senv hw env)) w"
  obtain x where x: "?post q c = (x, c')" and out: "out = host_answer p (wif_client_SubjectToken x)"
    using assms(3) by (auto simp: subjectTokenCommand_def Inr split: prod.splits)
  have "core_reachable cr cfg version (c', Idle)"
    using daemon_core.wif_post_keeps [OF assms(1), of senv hw env w q] by (simp add: x)
  moreover from host_answer_emitted [OF assms(2)] consider
      t where "wif_client_SubjectToken x = Inr t" "dots (tr_id_token t) = 2" "emitted out (ExecSuccess (tr_id_token t) (tr_expiration t))"
    | code message where "emitted out (ExecError code message)"
    unfolding out by blast
  then have "\<exists>d. xo_stdout out = doc_text d \<and> ?doc d"
  proof cases
    case 1
    from host_token [OF assms(1) x 1(1)] obtain b cl serial spki where
      b: "map_of (cf_aliases cfg) (wr_alias q) = Some b" "wr_audience q = ExternalAccountAudience (Provider cfg)" "wr_email q = al_target b"
        "token_claims cfg (wr_alias q) b serial (cl_key_id cl) cl" "token_carries cr (tr_id_token t) spki cl"
        "tr_expiration t = unix_of (ExpiresAt cl)" by blast
    from host_request_Inr [OF Inr] obtain host a where
      a: "loaded = Inr host" "map_of (cf_aliases host) (wr_alias q) = Some a" "wr_audience q = ExternalAccountAudience (Provider host)"
        "wr_email q = al_target a" "xp_lookup p EnvAudience = Some (wr_audience q)" "xp_lookup p EnvOutputFile = None"
        "xp_lookup p EnvImpersonatedEmail = None \<or> the (xp_lookup p EnvImpersonatedEmail) = wr_email q" by blast
    have e: "xp_lookup p EnvImpersonatedEmail \<in> {None, Some (al_target b)}" using a(7) b(3) by (cases "xp_lookup p EnvImpersonatedEmail") auto
    have "?doc (ExecSuccess (tr_id_token t) (tr_expiration t))"
      unfolding exec_doc.case
      using 1(2,3) success_parse [OF b(5), of "ExpiresAt cl"] a b e
      by (intro conjI exI [of _ host] exI [of _ "wr_alias q"] exI [of _ a] exI [of _ b] exI [of _ cl] exI [of _ serial] exI [of _ spki])
        (simp_all add: emitted_def)
    then show ?thesis using 1(3) by (intro exI [of _ "ExecSuccess (tr_id_token t) (tr_expiration t)"]) (simp add: emitted_def)
  qed (auto simp: emitted_def intro!: exI [of _ "ExecError _ _"])
  ultimately show ?thesis by blast
qed

subsection \<open>The helper inside the sandbox\<close>

lemma agent_request_Inr:
  assumes "agent_request lookup args = Inr (socket, q)"
  shows "is_abs socket \<and> lookup EnvTokenType = Some TokenType \<and> lookup EnvAudience = Some (sq_audience q) \<and>
    lookup EnvOutputFile = None \<and> sq_email q = lookup EnvImpersonatedEmail"
  using assms by (auto simp: agent_request_def Let_def ReadEnvironment_Inr split: sum.splits prod.splits if_splits)

lemma session_client_delivered:
  "session_client_SubjectToken (answer_of raw r) = Inr t \<Longrightarrow> \<exists>n. r = Reply n t"
  by (cases r) (auto simp: session_client_SubjectToken_def split: if_splits)

text \<open>What the helper gets back over its socket is what the session delegates.\<close>

lemma agent_token:
  assumes "core_reachable cr cfg version (c, Idle)" and "map_of (cf_aliases cfg) (so_alias opts) = Some a"
    and "http_post (relay (session_of opts cfg a sessionID) att (SubjectToken cr (hardware_env senv hw env)) w) w' q c = (x, c')"
  shows "core_reachable cr cfg version (c', Idle) \<and> (session_client_SubjectToken x = Inr t \<longrightarrow>
    sq_audience q = ExternalAccountAudience (Provider cfg) \<and> sq_email q \<in> {None, Some (al_target a)} \<and>
    (\<exists>cl serial spki. token_claims cfg (so_alias opts) a serial (cl_key_id cl) cl \<and> token_carries cr (tr_id_token t) spki cl \<and>
       tr_expiration t = unix_of (ExpiresAt cl)))"
proof -
  let ?ss = "session_of opts cfg a sessionID" and ?mint = "SubjectToken cr (hardware_env senv hw env)"
  let ?q = "upstream_wif_request att (session_upstream_request ?ss)"
  obtain r c1 where r: "relay ?ss att ?mint w (body_of q) c = (r, c1)" by (metis prod.exhaust)
  have "core_reachable cr cfg version (c1, Idle)"
    using daemon_core.relay_keeps [OF assms(1), of ?ss att senv hw env w "body_of q"] by (simp add: r)
  with assms(1,3) r have "core_reachable cr cfg version (c', Idle)"
    by (auto simp: http_post_def split: wire.splits)
  moreover have "?thesis" if t: "session_client_SubjectToken x = Inr t" and c': "core_reachable cr cfg version (c', Idle)"
  proof -
    obtain raw where "w' = Delivered raw"
      using assms(3) t by (cases w') (auto simp: http_post_def session_client_SubjectToken_def)
    with assms(3) r have "x = answer_of raw r" by (simp add: http_post_def)
    with t session_client_delivered obtain n where n: "r = Reply n t" by blast
    note r = r [unfolded n]
    from relay_reply_request [OF r] have m: "sq_audience q = ExternalAccountAudience (Provider cfg)"
        "sq_email q = None \<or> the (sq_email q) = al_target a"
      by (auto simp: body_of_def session_of_def)
    from daemon_core.relay_confined [OF assms(1) r] obtain att' result where "token_for cr cfg (wif_core_request ?q att') result"
        "t = \<lparr>tr_id_token = st_token result, tr_expiration = unix_of (st_expires result)\<rparr>" by blast
    then obtain cl where "token_claims cfg (so_alias opts) a (st_serial result) (st_key_id result) cl"
        "token_carries cr (tr_id_token t) (st_spki result) cl" "tr_expiration t = unix_of (ExpiresAt cl)"
      using assms(2) by (auto simp: token_for_def wif_core_request_def upstream_wif_request_def session_upstream_request_def session_of_def)
    moreover from this have "cl_key_id cl = st_key_id result" by (simp add: token_claims_def)
    moreover have "sq_email q \<in> {None, Some (al_target a)}" using m(2) by (cases "sq_email q") auto
    ultimately show ?thesis using m(1) c'
      by (intro conjI impI exI [of _ cl] exI [of _ "st_serial result"] exI [of _ "st_spki result"]) simp_all
  qed
  ultimately show ?thesis by blast
qed

text \<open>C8: what a sandbox can obtain. Let a session delegate an alias, and let a process in the
  sandbox run its credential helper with any arguments and environment against the session's
  relay, which calls the daemon. The helper writes exactly one JSON document; when it is a
  success document it reads back as a three-part token over claims for the delegated alias and
  its configured target, on an enrolled key, and the auth library had asked for the session's
  audience, for no other target and for no cache file. The daemon stays in a reachable state
  throughout.\<close>

theorem agent_helper_confined:
  assumes "core_reachable cr cfg version (c, Idle)" and "map_of (cf_aliases cfg) (so_alias opts) = Some a" and "xp_write p = None"
    and "agent_run p args (\<lambda>socket. http_post (relay (session_of opts cfg a sessionID) att (SubjectToken cr (hardware_env senv hw env)) w) w')
      c = (out, c')"
  shows "core_reachable cr cfg version (c', Idle) \<and> (\<exists>d. xo_stdout out = doc_text d \<and>
    (case d of
       ExecError code message \<Rightarrow> xo_err out = Some ErrReported
     | ExecSuccess token expiration \<Rightarrow> xo_err out = None \<and> dots token = 2 \<and>
         json_document (xo_stdout out) = Some [(''version'', JInt 1), (''success'', JBool True), (''token_type'', JStr TokenType),
           (''id_token'', JStr token), (''expiration_time'', JInt expiration)] \<and>
         xp_lookup p EnvAudience = Some (ExternalAccountAudience (Provider cfg)) \<and>
         xp_lookup p EnvImpersonatedEmail \<in> {None, Some (al_target a)} \<and> xp_lookup p EnvOutputFile = None \<and>
         (\<exists>cl serial spki. token_claims cfg (so_alias opts) a serial (cl_key_id cl) cl \<and> token_carries cr token spki cl \<and>
            expiration = unix_of (ExpiresAt cl))))"
  (is "_ \<and> (\<exists>d. _ \<and> ?doc d)")
proof (cases "agent_request (xp_lookup p) args")
  case (Inl r)
  then show ?thesis
    using assms by (cases r) (auto simp: agent_run_def agent_report_def exec_report_def write_out_def
        intro!: exI [of _ "ExecError _ _"])
next
  case (Inr r)
  obtain socket q where r: "r = (socket, q)" by (metis prod.exhaust)
  let ?post = "http_post (relay (session_of opts cfg a sessionID) att (SubjectToken cr (hardware_env senv hw env)) w) w'"
  obtain x where x: "?post q c = (x, c')" and out: "out = agent_answer p (session_client_SubjectToken x)"
    using assms(4) by (auto simp: agent_run_def Inr r split: prod.splits)
  note token = agent_token [OF assms(1,2) x]
  from agent_answer_emitted [OF assms(3)] consider
      t where "session_client_SubjectToken x = Inr t" "dots (tr_id_token t) = 2" "emitted out (ExecSuccess (tr_id_token t) (tr_expiration t))"
    | code message where "emitted out (ExecError code message)"
    unfolding out by blast
  then have "\<exists>d. xo_stdout out = doc_text d \<and> ?doc d"
  proof cases
    case 1
    from token 1(1) obtain cl serial spki where
      b: "token_claims cfg (so_alias opts) a serial (cl_key_id cl) cl" "token_carries cr (tr_id_token t) spki cl"
        "tr_expiration t = unix_of (ExpiresAt cl)"
      and q: "sq_audience q = ExternalAccountAudience (Provider cfg)" "sq_email q \<in> {None, Some (al_target a)}" by blast
    have "?doc (ExecSuccess (tr_id_token t) (tr_expiration t))"
      unfolding exec_doc.case
      using 1(2,3) success_parse [OF b(2), of "ExpiresAt cl"] b q agent_request_Inr [OF Inr [unfolded r]]
      by (intro conjI exI [of _ cl] exI [of _ serial] exI [of _ spki]) (simp_all add: emitted_def)
    then show ?thesis using 1(3) by (intro exI [of _ "ExecSuccess (tr_id_token t) (tr_expiration t)"]) (simp add: emitted_def)
  qed (auto simp: emitted_def intro!: exI [of _ "ExecError _ _"])
  with token show ?thesis by blast
qed

subsection \<open>One run of each helper\<close>

definition demo_process :: exec_process where
  "demo_process = \<lparr>xp_lookup = (\<lambda>name. if name = EnvTokenType then Some TokenType
     else if name = EnvAudience then Some (rq_audience demo_request) else None), xp_write = None\<rparr>"

lemma demo_lookup:
  "xp_lookup demo_process EnvTokenType = Some TokenType" "xp_lookup demo_process EnvAudience = Some (rq_audience demo_request)"
  "xp_lookup demo_process EnvOutputFile = None" "xp_lookup demo_process EnvImpersonatedEmail = None"
  "xp_lookup demo_process EnvMode = None" "xp_lookup demo_process EnvRouteSocket = None" "xp_lookup demo_process EnvProtocol = None"
  "xp_write demo_process = None"
  by (simp_all add: demo_process_def EnvTokenType_def EnvAudience_def EnvOutputFile_def EnvImpersonatedEmail_def
      EnvMode_def EnvRouteSocket_def EnvProtocol_def)

lemma demo_environment: "ReadEnvironment (xp_lookup demo_process) = Inr \<lparr>ee_audience = rq_audience demo_request, ee_email = None\<rparr>"
proof -
  have "rq_audience demo_request \<noteq> []" by (simp add: demo_request_def ExternalAccountAudience_def)
  then show ?thesis by (simp add: ReadEnvironment_Inr demo_lookup)
qed

lemma demo_host_request: "host_request (xp_lookup demo_process) (Inr demo_config) ''/w'' [''--alias'', ''ro''] = Inr (demo_wif None)"
proof -
  have f: "parse_flags (string_flags [''alias'']) [''--alias'', ''ro''] [] = Inr ([(''alias'', ''ro'')], [])"
    by (simp add: flag_arg_def flag_parts_def string_flags_def)
  have e: "FromEnvironment (getenv_of (xp_lookup demo_process)) = Inr LocalAllowed"
    by (simp add: FromEnvironment_def getenv_of_def demo_lookup)
  have a: "map_of (cf_aliases demo_config) ''ro'' = Some demo_alias" by (simp add: demo_config_def)
  have q: "rq_audience demo_request = ExternalAccountAudience (Provider demo_config)" "rq_email demo_request = al_target demo_alias"
    by (simp_all add: demo_request_def demo_alias_def)
  show ?thesis
    unfolding host_request_def f e
    by (simp add: flag_value_def a demo_environment q demo_wif_def)
      (simp add: LocalAllowed_def RouteRequired_def)
qed

theorem host_helper_sound_witness:
  "\<exists>out c' token expiration. subjectTokenCommand demo_process (Inr demo_config) ''/w'' [''--alias'', ''ro'']
     (wif_post (SubjectToken demo_crypto (hardware_env demo_sign_env demo_hardware (fw_token demo_forward_env))) (Delivered [])) demo_unlocked = (out, c') \<and>
     xo_stdout out = doc_text (ExecSuccess token expiration) \<and> dots token = 2"
proof -
  let ?mint = "SubjectToken demo_crypto (hardware_env demo_sign_env demo_hardware (fw_token demo_forward_env))"
  obtain t c' where w: "wif_subjectToken ?mint (body_of (demo_wif None)) demo_unlocked = (Reply 200 t, c')"
    and t: "tr_id_token t \<noteq> []" "0 < tr_expiration t"
    using demo_wif_reply [of None _ _ "body_of (demo_wif None)"] zero_source_valid by (auto simp: body_of_def)
  have x: "wif_post ?mint (Delivered []) (demo_wif None) demo_unlocked = (answer_of [] (Reply 200 t), c')"
    by (simp add: wif_post_def http_post_def w)
  have y: "wif_client_SubjectToken (answer_of [] (Reply 200 t)) = Inr t" using t by (simp add: wif_client_SubjectToken_def)
  have dots: "dots (tr_id_token t) = 2" using host_token [OF demo_reachable x y] token_carries_dots by blast
  then have "subjectTokenCommand demo_process (Inr demo_config) ''/w'' [''--alias'', ''ro''] (wif_post ?mint (Delivered [])) demo_unlocked =
      (exec_success demo_process t, c')"
    by (simp add: subjectTokenCommand_def demo_host_request x y host_answer_def del: answer_of.simps)
  moreover from host_helper_sound [OF demo_reachable demo_lookup(8) this] obtain d where
    d: "xo_stdout (exec_success demo_process t) = doc_text d" by blast
  ultimately show ?thesis
    using dots success_emitted [OF demo_lookup(8), of t] by (auto simp: emitted_def)
qed

lemma demo_agent_request:
  "agent_request (xp_lookup demo_process) [''-socket=/s''] = Inr (''/s'', \<lparr>sq_audience = rq_audience demo_request, sq_email = None\<rparr>)"
proof -
  have f: "parse_flags (string_flags [''socket'']) [''-socket=/s''] [] = Inr ([(''socket'', ''/s'')], [])"
    by (simp add: flag_arg_def flag_parts_def string_flags_def)
  show ?thesis
    unfolding agent_request_def f by (simp add: flag_value_def is_abs_def has_prefix_def demo_environment)
qed

theorem agent_helper_confined_witness:
  "\<exists>out c' token expiration. agent_run demo_process [''-socket=/s'']
     (\<lambda>socket. http_post (relay (session_of demo_session_options demo_config demo_alias (replicate SessionIDLength (CHR ''0''))) LocalAllowed
       (SubjectToken demo_crypto (hardware_env demo_sign_env demo_hardware (fw_token demo_forward_env))) (Delivered [])) (Delivered []))
     demo_unlocked = (out, c') \<and> xo_stdout out = doc_text (ExecSuccess token expiration) \<and> dots token = 2 \<and>
     core_reachable demo_crypto demo_config ''1'' (c', Idle)"
proof -
  let ?serve = "relay (session_of demo_session_options demo_config demo_alias (replicate SessionIDLength (CHR ''0''))) LocalAllowed
       (SubjectToken demo_crypto (hardware_env demo_sign_env demo_hardware (fw_token demo_forward_env))) (Delivered [])"
  let ?q = "\<lparr>sq_audience = rq_audience demo_request, sq_email = None\<rparr>"
  obtain t c' where r: "?serve (body_of ?q) demo_unlocked = (Reply 200 t, c')" and t: "tr_id_token t \<noteq> []" "0 < tr_expiration t"
    using demo_relay by (auto simp: demo_body_def body_of_def)
  have a: "map_of (cf_aliases demo_config) (so_alias demo_session_options) = Some demo_alias"
    by (simp add: demo_session_options_def demo_config_def)
  have x: "http_post ?serve (Delivered []) ?q demo_unlocked = (answer_of [] (Reply 200 t), c')"
    by (simp add: http_post_def r)
  have y: "session_client_SubjectToken (answer_of [] (Reply 200 t)) = Inr t" using t by (simp add: session_client_SubjectToken_def)
  have d: "dots (tr_id_token t) = 2" using agent_token [OF demo_reachable a x, of t] y token_carries_dots by blast
  then have o: "agent_run demo_process [''-socket=/s''] (\<lambda>socket. http_post ?serve (Delivered [])) demo_unlocked =
      (exec_success demo_process t, c')"
    by (simp add: agent_run_def demo_agent_request x y agent_answer_def del: answer_of.simps)
  from agent_helper_confined [OF demo_reachable a demo_lookup(8) o] have "core_reachable demo_crypto demo_config ''1'' (c', Idle)" by blast
  with o d show ?thesis
    using success_emitted [OF demo_lookup(8), of t] by (auto simp: emitted_def)
qed

end
