(* ===== verification/Wif_Cmd.thy ===== *)
theory Wif_Cmd
  imports Config Wif_Credentials Go_Flag
begin

text \<open>
  The \<open>pivb wif\<close> commands (\<open>cmd/pivb/wifcmd.go\<close>): the uploaded key set from enrolled certificates,
  one credential file, and the provider condition. The flags, the checks and what is printed
  are modelled; PEM and X.509 decoding and the file system's answers are arguments, and a Go
  map is iterated in the order of its list.
\<close>

subsection \<open>Certificates\<close>

record pem_lib =
  pl_decode :: "bytes \<Rightarrow> ((string \<times> bytes) \<times> bytes) option"
  pl_certificate :: "bytes \<Rightarrow> certificate res"

definition ParseCertificatePEM :: "pem_lib \<Rightarrow> bytes \<Rightarrow> certificate res" where
  "ParseCertificatePEM lib data =
     (case pl_decode lib data of
        None \<Rightarrow> Inl (ErrText ''no PEM block found'')
      | Some ((kind, block), rest) \<Rightarrow>
          if kind \<noteq> ''CERTIFICATE'' then Inl (ErrText (''PEM block is '' @ go_quote kind @ '', want CERTIFICATE''))
          else if pl_decode lib rest \<noteq> None
          then Inl (ErrText ''file contains more than one PEM block; provide exactly one certificate'')
          else case pl_certificate lib block of Inl e \<Rightarrow> Inl (ErrWrap ''parse certificate: '' e) | Inr cert \<Rightarrow> Inr cert)"

definition jwk_tree :: "JWK \<Rightarrow> jtree" where
  "jwk_tree k =
     JTree (JMore ''kty'' (JLeaf (JStr (jwk_kty k))) (JMore ''use'' (JLeaf (JStr (jwk_use k))) (JMore ''alg'' (JLeaf (JStr (jwk_alg k)))
       (JMore ''kid'' (JLeaf (JStr (jwk_kid k))) (JMore ''n'' (JLeaf (JStr (jwk_n k))) (JLast ''e'' (JLeaf (JStr (jwk_e k)))))))))"

definition MarshalJWKS :: "JWK list \<Rightarrow> bytes" where
  "MarshalJWKS keys =
     ''{'' @ json_newline 1 @ json_string ''keys'' @ '': '' @
     (if keys = [] then ''[]''
      else ''['' @ json_newline 2 @ join ('','' @ json_newline 2) (map (\<lambda>k. json_indent (jwk_tree k) 2) keys) @ json_newline 1 @ '']'') @
     json_newline 0 @ ''}'' @ [newline]"

subsection \<open>\<open>--cert\<close>\<close>

definition cert_entry :: "string \<Rightarrow> (u32 \<times> string) option" where
  "cert_entry value =
     (case cut (CHR ''='') value of
        None \<Rightarrow> None
      | Some (serialText, path) \<Rightarrow> map_option (\<lambda>n. (of_nat n, path)) (parse_uint 32 serialText))"

text \<open>\<open>certFlags.paths\<close> from the values accepted so far, newest first.\<close>

definition cert_paths :: "string list \<Rightarrow> (u32, string) gomap" where
  "cert_paths values = List.map_filter cert_entry (rev values)"

definition certFlags_Set :: "string list \<Rightarrow> string \<Rightarrow> gerror option" where
  "certFlags_Set accepted value =
     (case cut (CHR ''='') value of
        None \<Rightarrow> Some (ErrText (''expected <serial>=<pem-path>, got '' @ go_quote value))
      | Some (serialText, path) \<Rightarrow>
          if path = [] then Some (ErrText (''expected <serial>=<pem-path>, got '' @ go_quote value))
          else case parse_uint 32 serialText of
              None \<Rightarrow> Some (ErrText (''--cert serial '' @ go_quote serialText @ '' must be a positive integer YubiKey serial''))
            | Some serial \<Rightarrow>
                if serial = 0 then Some (ErrText (''--cert serial '' @ go_quote serialText @ '' must be a positive integer YubiKey serial''))
                else case map_of (cert_paths accepted) (of_nat serial) of
                    Some previous \<Rightarrow> Some (ErrText (''--cert repeats serial '' @ fmt_nat serial @ '' ('' @ go_quote previous @ '' and ''
                      @ go_quote path @ '')''))
                  | None \<Rightarrow> None)"

definition cert_flags :: "(string \<times> flag_kind) list" where
  "cert_flags = [(''cert'', VarFlag certFlags_Set)]"

subsection \<open>The commands\<close>

fun parse_certs :: "pem_lib \<Rightarrow> (string \<Rightarrow> bytes res) \<Rightarrow> (u32, string) gomap \<Rightarrow> (u32, certificate) gomap res" where
  "parse_certs lib read [] = Inr []"
| "parse_certs lib read ((serial, path) # rest) =
     (case read path of
        Inl e \<Rightarrow> Inl (ErrWrap (''read certificate for YubiKey '' @ serial_text serial @ '': '') e)
      | Inr data \<Rightarrow>
          (case ParseCertificatePEM lib data of
             Inl e \<Rightarrow> Inl (ErrWrap (''certificate '' @ go_quote path @ '' for YubiKey '' @ serial_text serial @ '': '') e)
           | Inr cert \<Rightarrow>
               (case parse_certs lib read rest of Inl e \<Rightarrow> Inl e | Inr certs \<Rightarrow> Inr ((serial, cert) # certs))))"

definition configured_kids :: "config \<Rightarrow> (u32, string) gomap" where
  "configured_kids cfg = map (\<lambda>(serial, key). (serial, kc_jwk_kid key)) (KeysBySerial cfg)"

text \<open>A command's error and what it wrote; \<open>out\<close> is the error of writing to standard output.\<close>

definition wifJWKSCommand ::
    "crypto \<Rightarrow> pem_lib \<Rightarrow> config res \<Rightarrow> (string \<Rightarrow> bytes res) \<Rightarrow> gerror option \<Rightarrow> string list \<Rightarrow> gerror option \<times> bytes" where
  "wifJWKSCommand cr lib loaded read out args =
     (case parse_flags cert_flags args [] of
        Inl e \<Rightarrow> (Some e, [])
      | Inr (m, rest) \<Rightarrow>
     if rest \<noteq> [] then (Some (ErrText ''wif jwks takes no positional arguments''), [])
     else
       let paths = cert_paths (flag_values m ''cert'') in
     if paths = [] then (Some (ErrText ''wif jwks requires at least one --cert <serial>=<pem-path>''), [])
     else case loaded of
        Inl e \<Rightarrow> (Some e, [])
      | Inr cfg \<Rightarrow>
     case parse_certs lib read paths of
        Inl e \<Rightarrow> (Some e, [])
      | Inr parsed \<Rightarrow>
     case BuildJWKS cr parsed (configured_kids cfg) of
        Inl e \<Rightarrow> (Some e, [])
      | Inr keys \<Rightarrow> (out, MarshalJWKS keys))"

record credentials_env =
  ce_abs :: "string \<Rightarrow> string res"
  ce_write :: write_env
  ce_out :: "gerror option"

definition path_flags :: "(string \<times> flag_kind) list" where
  "path_flags = string_flags [''alias'', ''output'', ''executable'']"

text \<open>The error, what was printed, the file written and what the write did.\<close>

definition wifCredentialsCommand ::
    "config res \<Rightarrow> credentials_env \<Rightarrow> string list \<Rightarrow> gerror option \<times> string \<times> (string \<times> bytes) option \<times> file_event list" where
  "wifCredentialsCommand loaded env args =
     (case parse_flags path_flags args [] of
        Inl e \<Rightarrow> (Some e, [], None, [])
      | Inr (m, rest) \<Rightarrow>
     if rest \<noteq> [] then (Some (ErrText ''wif credentials takes no positional arguments''), [], None, [])
     else
       let name = flag_value m ''alias'' []; output = flag_value m ''output'' []; executable = flag_value m ''executable'' [] in
     if name = [] \<or> output = [] \<or> executable = []
     then (Some (ErrText ''usage: pivb wif credentials --alias <alias> --output <path> --executable <absolute-path>''), [], None, [])
     else case loaded of
        Inl e \<Rightarrow> (Some e, [], None, [])
      | Inr cfg \<Rightarrow>
     case map_of (cf_aliases cfg) name of
        None \<Rightarrow> (Some (ErrText (''alias '' @ go_quote name @ '' is not configured'')), [], None, [])
      | Some a \<Rightarrow>
     case CredentialFile \<lparr>cs_spec_provider = Provider cfg, cs_spec_alias = name, cs_spec_target = al_target a,
            cs_spec_lifetime = al_lifetime_s a, cs_spec_executable = executable\<rparr> of
        Inl e \<Rightarrow> (Some e, [], None, [])
      | Inr data \<Rightarrow>
     case ce_abs env output of
        Inl e \<Rightarrow> (Some (ErrWrap ''resolve output path: '' e), [], None, [])
      | Inr outputPath \<Rightarrow>
     case WriteCredentialFile outputPath (ce_write env) of
        (Some e, es) \<Rightarrow> (Some e, [], None, es)
      | (None, es) \<Rightarrow>
          (ce_out env, ''wrote '' @ outputPath @ '': alias '' @ go_quote name @ '' impersonates '' @ al_target a @ '' for ''
             @ fmt_int (al_lifetime_s a) @ ''s via '' @ executable @ [newline], Some (outputPath, data), es))"

definition condition_report :: "provider \<Rightarrow> string \<Rightarrow> string" where
  "condition_report p condition =
     ''# provider resource'' @ newline # Resource p @ newline # newline #
     ''# external-account audience (credential files, STS)'' @ newline # ExternalAccountAudience p @ newline # newline #
     ''# OIDC audience (assertion aud claim)'' @ newline # OIDCAudience p @ newline # newline #
     ''# issuer'' @ newline # pv_issuer p @ newline # newline #
     ''# gcloud --attribute-mapping'' @ newline # AttributeMappingFlag @ newline # newline #
     ''# gcloud --attribute-condition'' @ newline # condition @ [newline]"

definition wifProviderConditionCommand :: "config res \<Rightarrow> gerror option \<Rightarrow> string list \<Rightarrow> gerror option \<times> string" where
  "wifProviderConditionCommand loaded out args =
     (case parse_flags [] args [] of
        Inl e \<Rightarrow> (Some e, [])
      | Inr (m, rest) \<Rightarrow>
     if rest \<noteq> [] then (Some (ErrText ''wif provider-condition takes no positional arguments''), [])
     else case loaded of
        Inl e \<Rightarrow> (Some e, [])
      | Inr cfg \<Rightarrow>
     case AttributeCondition (Provider cfg) (AliasTargets cfg) of
        Inl e \<Rightarrow> (Some e, [])
      | Inr condition \<Rightarrow> (out, condition_report (Provider cfg) condition))"

datatype wif_subcommand = WifJwks "string list" | WifCredentials "string list" | WifProviderCondition "string list"

definition wifCommand :: "string list \<Rightarrow> wif_subcommand res" where
  "wifCommand args =
     (case args of
        [] \<Rightarrow> Inl (ErrText ''usage: pivb wif <jwks|credentials|provider-condition>'')
      | sub # rest \<Rightarrow>
          if sub = ''jwks'' then Inr (WifJwks rest)
          else if sub = ''credentials'' then Inr (WifCredentials rest)
          else if sub = ''provider-condition'' then Inr (WifProviderCondition rest)
          else Inl (ErrText (''unknown wif subcommand '' @ go_quote sub @ '' (want jwks, credentials, or provider-condition)'')))"

subsection \<open>The flags are a map\<close>

definition certs_distinct :: "flags \<Rightarrow> bool" where
  "certs_distinct m \<longleftrightarrow> distinct (map fst (cert_paths (flag_values m ''cert'')))"

lemma cert_paths_Cons:
  "cert_paths (v # vs) = cert_paths vs @ (case cert_entry v of None \<Rightarrow> [] | Some e \<Rightarrow> [e])"
  by (simp add: cert_paths_def map_filter_def split: option.split)

lemma certFlags_Set_distinct:
  assumes "certFlags_Set vs v = None" and "distinct (map fst (cert_paths vs))"
  shows "distinct (map fst (cert_paths (v # vs)))"
  using assms
  by (auto simp: certFlags_Set_def cert_paths_Cons cert_entry_def map_of_eq_None_iff split: option.splits if_splits)

lemma parsed_certs_distinct:
  assumes "parse_flags cert_flags args [] = Inr (m, rest)"
  shows "certs_distinct m"
proof (rule parse_flags_keeps [OF _ assms])
  fix kind name v m m'
  assume "map_of cert_flags name = Some kind" and set: "set_flag kind name v m = Inr m'" and d: "certs_distinct m"
  then have "kind = VarFlag certFlags_Set" "name = ''cert''" by (auto simp: cert_flags_def split: if_splits)
  with set have c: "certFlags_Set (flag_values m ''cert'') v = None" "m' = (''cert'', v) # m" by (auto split: option.splits)
  with certFlags_Set_distinct [OF c(1)] d show "certs_distinct m'" by (simp add: certs_distinct_def flag_values_def)
qed (simp add: certs_distinct_def flag_values_def cert_paths_def map_filter_def)

lemma parse_certs_Inr:
  assumes "parse_certs lib read paths = Inr certs"
  shows "map fst certs = map fst paths \<and>
    (\<forall>(serial, cert)\<in>set certs. \<exists>path data. (serial, path) \<in> set paths \<and> read path = Inr data \<and> ParseCertificatePEM lib data = Inr cert)"
  using assms
proof (induction paths arbitrary: certs)
  case (Cons sp paths)
  obtain serial path where "sp = (serial, path)" by (metis prod.exhaust)
  with Cons.prems obtain data cert certs' where c: "read path = Inr data" "ParseCertificatePEM lib data = Inr cert"
      "parse_certs lib read paths = Inr certs'" "certs = (serial, cert) # certs'"
    by (auto split: sum.splits)
  from Cons.IH [OF c(3)] c \<open>sp = (serial, path)\<close> show ?case by fastforce
qed simp

lemma configured_kids_map: "map_of (configured_kids cfg) serial = map_option kc_jwk_kid (map_of (KeysBySerial cfg) serial)"
  by (simp add: configured_kids_def map_of_map)

lemma configured_kids_fst: "fst ` set (configured_kids cfg) = fst ` set (KeysBySerial cfg)"
  by (force simp: configured_kids_def)


definition demo_pem :: pem_lib where
  "demo_pem = \<lparr>pl_decode = (\<lambda>b. if b = [] then None else Some ((''CERTIFICATE'', b), [])), pl_certificate = (\<lambda>b. Inr demo_cert)\<rparr>"


end
