(* ===== verification/Agent_Api.thy ===== *)
theory Agent_Api
  imports Wif_Api
begin

text \<open>
  The control socket (\<open>internal/agentapi\<close>): unlock and lock over the core, and the client that
  reads the replies. Neither carries credential material; status is the core's \<open>Status\<close>
  written as JSON, and the log lines are output.
\<close>

definition controlRequestBody :: nat where [go_eval]: "controlRequestBody = 16384"

subsection \<open>The handlers\<close>

text \<open>A rejected PIN answers with the remaining retries; every other failure is a plain error.\<close>

datatype unlock_reply =
    Unlocked int
  | PINRejected error_response int
  | UnlockFailed int error_response

definition control_error :: "int \<Rightarrow> string \<Rightarrow> string \<Rightarrow> string \<Rightarrow> unlock_reply" where
  "control_error status message code remedy = UnlockFailed status \<lparr>er_error = message, er_code = code, er_remedy = remedy\<rparr>"

text \<open>\<open>verify\<close> is the signer's \<open>VerifyPIN\<close>.\<close>

definition control_unlock ::
    "(string \<Rightarrow> u32 \<times> int \<times> gerror option) \<Rightarrow> string request_body \<Rightarrow> core \<Rightarrow> unlock_reply \<times> core" where
  "control_unlock verify b c =
     (case jsonhttp_Decode b of
        Inl e \<Rightarrow> (control_error 400 (err_text e) [] (''send JSON as {'' @ [CHR 0x22] @ ''pin'' @ [CHR 0x22] @ '':'' @ [CHR 0x22]
          @ ''...'' @ [CHR 0x22] @ ''}''), c)
      | Inr pin \<Rightarrow>
          (case Unlock pin (verify pin) c of
             ((retries, Some e), c') \<Rightarrow>
               (if errors_as node_pin e \<noteq> None
                then (PINRejected \<lparr>er_error = err_text e, er_code = CodePIN,
                  er_remedy = ''check the PIN; pivb will never spend the final retry''\<rparr> retries, c')
                else (case MapAPIError e of
                    Some h \<Rightarrow> (control_error (ae_status h) (ae_message h) (ae_code h) (ae_remedy h), c')
                  | None \<Rightarrow> (control_error 503 (err_text e) [] ''insert exactly one configured YubiKey and retry'', c')))
           | ((retries, None), c') \<Rightarrow> (Unlocked retries, c')))"

definition control_lock :: "core \<Rightarrow> bool \<times> core" where
  "control_lock c = (True, Lock c)"

subsection \<open>The client\<close>

datatype 'r call_result =
    CallOk 'r
  | CallFailed gerror
  | HTTPError int bytes string string string

fun http_error_text :: "int \<Rightarrow> string \<Rightarrow> string \<Rightarrow> string \<Rightarrow> string" where
  "http_error_text status message code remedy =
     (let c = (if code = [] then [] else CHR '' '' # code) in
      if remedy \<noteq> [] then ''control API HTTP '' @ fmt_int status @ c @ '': '' @ message @ '' (remedy: '' @ remedy @ '')''
      else ''control API HTTP '' @ fmt_int status @ c @ '': '' @ message)"

definition control_call :: "'r exchange \<Rightarrow> 'r call_result" where
  "control_call x =
     (case x of
        NoConnection e \<Rightarrow> CallFailed (ErrWrap ''call pivb control socket: '' e)
      | NoBody e \<Rightarrow> CallFailed (ErrWrap ''read pivb control response: '' e)
      | Answer b \<Rightarrow>
          if rs_status b < 200 \<or> rs_status b \<ge> 300 then
            (let er = (case rs_error b of None \<Rightarrow> \<lparr>er_error = [], er_code = [], er_remedy = []\<rparr> | Some er \<Rightarrow> er)
             in HTTPError (rs_status b) (rs_bytes b)
               (if er_error er = [] then trim_space (rs_bytes b) else er_error er) (er_code er) (er_remedy er))
          else case rs_value b of
              Inl e \<Rightarrow> CallFailed (ErrWrap ''decode pivb control response: '' e)
            | Inr v \<Rightarrow> CallOk v)"

subsection \<open>Properties\<close>

lemma Unlock_None:
  "Unlock pin (serial, retries, None) c = ((n, None), c') \<Longrightarrow>
     pin \<noteq> [] \<and> \<not> CardFree (c_cfg c) \<and> n = retries \<and>
     c' = snd (purgeOtherSerials serial ((clearPIN c)\<lparr>c_bufs := c_bufs (clearPIN c) @ [pin],
       c_pin := Some (length (c_bufs (clearPIN c))), c_pin_serial := serial\<rparr>))"
  by (auto simp: Unlock_def alloc_def Let_def split: if_splits)

lemma Unlock_Some: "Unlock pin verified c = ((n, Some e), c') \<Longrightarrow> c' = c"
  by (cases verified) (auto simp: Unlock_def Let_def split: if_splits option.splits prod.splits)

text \<open>C28: unlocking changes the daemon exactly when the card accepted the PIN. A POST to unlock
  answers success only for a nonempty PIN the card verified on a daemon that has a card; then
  the PIN cached is the one submitted, verified on that card, the PIN cached before it is
  zeroized, and no assertion another card authorised is left. With every other reply the
  daemon is as it was.\<close>

theorem control_unlock_exact:
  assumes "core_inv {} c" and "control_unlock verify b c = (reply, c')"
  shows "(case reply of
      Unlocked retries \<Rightarrow> \<exists>pin serial. rb_value b = Inr pin \<and> pin \<noteq> [] \<and> verify pin = (serial, retries, None) \<and>
        \<not> CardFree (c_cfg c) \<and> core_inv {} c' \<and> c_pin_serial c' = serial \<and>
        (\<exists>p. c_pin c' = Some p \<and> buffer c' p = pin) \<and> (\<forall>p. c_pin c = Some p \<longrightarrow> all_zero (buffer c' p)) \<and>
        c_cache c' = filter (\<lambda>(k, e). ce_serial e = serial) (c_cache c)
    | _ \<Rightarrow> c' = c)"
proof (cases reply)
  case (Unlocked retries)
  with assms(2) obtain pin where d: "rb_value b = Inr pin" and u: "Unlock pin (verify pin) c = ((retries, None), c')"
    by (auto simp: control_unlock_def control_error_def jsonhttp_Decode_def decode_strict_def Let_def
        split: sum.splits option.splits prod.splits if_splits)
  obtain serial n err where v: "verify pin = (serial, n, err)" by (cases "verify pin")
  have "err = None" using u v by (auto simp: Unlock_def Let_def split: if_splits option.splits)
  with u v have f: "pin \<noteq> []" "\<not> CardFree (c_cfg c)" "retries = n"
    and c': "c' = snd (purgeOtherSerials serial ((clearPIN c)\<lparr>c_bufs := c_bufs (clearPIN c) @ [pin],
       c_pin := Some (length (c_bufs (clearPIN c))), c_pin_serial := serial\<rparr>))" (is "_ = snd (purgeOtherSerials serial ?c)")
    using Unlock_None [of pin serial n c retries c'] by auto
  have i: "core_inv {} c'" using Unlock_inv [OF assms(1), of pin "verify pin"] u by simp
  have p: "c_pin c' = Some (length (c_bufs (clearPIN c)))" and s: "c_pin_serial c' = serial"
    and m: "c_cache c' = filter (\<lambda>(k, e). ce_serial e = serial) (c_cache c)"
    by (simp_all add: c' purgeOtherSerials_def)
  have t: "tokens ?c = tokens c" by (simp add: tokens_def)
  have sh: "core_shape c" using assms(1) by (simp add: core_inv_def core_wf_def)
  have "length (c_bufs (clearPIN c)) \<notin> set (tokens ?c)"
    using sh unfolding t by (auto simp: core_shape_def tokens_def)
  then have "buffer c' (length (c_bufs (clearPIN c))) = buffer ?c (length (c_bufs (clearPIN c)))"
    by (force simp: c' purgeOtherSerials_def buffer_drop_where tokens_def)
  then have "buffer c' (length (c_bufs (clearPIN c))) = pin" by (simp add: buffer_def nth_append)
  moreover have "all_zero (buffer c' p)" if "c_pin c = Some p" for p
  proof -
    have "p < length (c_bufs c)" "p \<notin> set (tokens c)" using sh that by (auto simp: core_shape_def)
    moreover have "set (tokens c') \<subseteq> set (tokens c)" by (auto simp: tokens_def m)
    ultimately have "p \<notin> set (tokens c')" "c_pin c' \<noteq> Some p" using p by auto
    with i show ?thesis by (simp add: core_inv_def zeroized_def)
  qed
  ultimately show ?thesis using d f v i p s m \<open>err = None\<close> unfolding Unlocked unlock_reply.case by blast
next
  case (PINRejected e n)
  with assms(2) Unlock_Some show ?thesis
    by (auto simp: control_unlock_def control_error_def split: sum.splits option.splits prod.splits if_splits)
next
  case (UnlockFailed n e)
  with assms(2) Unlock_Some show ?thesis
    by (auto simp: control_unlock_def control_error_def split: sum.splits option.splits prod.splits if_splits)
qed

theorem control_unlock_exact_witness:
  "\<exists>c'. control_unlock (\<lambda>_. (7, 3, None)) \<lparr>rb_read = None, rb_peek = None, rb_value = Inr ''1234'', rb_more = False\<rparr>
     (New demo_config ''1'') = (Unlocked 3, c') \<and> c_pin_serial c' = 7 \<and> (\<exists>p. c_pin c' = Some p \<and> buffer c' p = ''1234'')"
proof -
  define b :: "string request_body" where "b = \<lparr>rb_read = None, rb_peek = None, rb_value = Inr ''1234'', rb_more = False\<rparr>"
  have "\<not> CardFree (c_cfg (New demo_config ''1''))" by (simp add: CardFree_def New_def demo_config_def CardNone_def)
  then have "\<exists>c'. Unlock ''1234'' (7, 3, None) (New demo_config ''1'') = ((3, None), c')"
    by (simp add: Unlock_def Let_def split: prod.split)
  then obtain c' where u: "control_unlock (\<lambda>_. (7, 3, None)) b (New demo_config ''1'') = (Unlocked 3, c')"
    by (auto simp: control_unlock_def b_def jsonhttp_Decode_def decode_strict_def)
  from control_unlock_exact [OF core_inv_New u] u show ?thesis unfolding b_def by auto
qed

end
