(* ===== verification/Pinentry.thy ===== *)
theory Pinentry
  imports Agent_Api Go_Flag Json
begin

text \<open>
  \<open>pivb unlock\<close> (\<open>cmd/pivb/pinentry.go\<close>): where the PIN comes from and what is done with it. The
  pinentry program is the bytes it writes, what writing to it answers and how it exits; the
  requests that reached it are recorded in order. Wiping the command's copy of the PIN is not
  modelled: the process ends right after.
\<close>

subsection \<open>Lines and escapes\<close>

definition drop_cr :: "string \<Rightarrow> string" where
  "drop_cr l = (if l \<noteq> [] \<and> last l = CHR 0x0D then butlast l else l)"

text \<open>\<open>bufio.ScanLines\<close>: the lines of a stream, the last one also without its newline.\<close>

definition raw_lines :: "bytes \<Rightarrow> string list" where
  "raw_lines s = (let ps = split_on (CHR 0x0A) s in if last ps = [] then butlast ps else ps)"

definition maxScanTokenSize :: nat where "maxScanTokenSize = 65536"

text \<open>A \<open>Scanner\<close> stops at the first line that does not fit its buffer.\<close>

definition scan_lines :: "bytes \<Rightarrow> string list" where
  "scan_lines s = map drop_cr (takeWhile (\<lambda>l. length l < maxScanTokenSize) (raw_lines s))"

definition scan_error :: "bytes \<Rightarrow> gerror option \<Rightarrow> gerror option" where
  "scan_error s reading =
     (if list_all (\<lambda>l. length l < maxScanTokenSize) (raw_lines s) then reading
      else Some (ErrText ''bufio.Scanner: token too long''))"

text \<open>\<open>url.PathUnescape\<close>.\<close>

fun path_unescape :: "string \<Rightarrow> bytes option" where
  "path_unescape [] = Some []"
| "path_unescape (c # s) =
     (if c \<noteq> CHR ''%'' then map_option ((#) c) (path_unescape s)
      else case s of
          a # b # r \<Rightarrow>
            (case (hex_val a, hex_val b) of
               (Some x, Some y) \<Rightarrow> map_option ((#) (char_of (16 * x + y))) (path_unescape r)
             | _ \<Rightarrow> None)
        | _ \<Rightarrow> None)"

definition escape_char :: "char \<Rightarrow> string" where
  "escape_char c =
     (if c = CHR ''%'' then ''%25'' else if c = CHR 0x0A then ''%0A'' else if c = CHR 0x0D then ''%0D'' else [c])"

definition assuanEscape :: "string \<Rightarrow> string" where
  "assuanEscape s = concat (map escape_char s)"

subsection \<open>The protocol\<close>

datatype write_answer = Written | WriteFailed gerror | FlushFailed gerror

record pinentry_env =
  pn_stdin :: "gerror option"
  pn_stdout :: "gerror option"
  pn_start :: "gerror option"
  pn_output :: bytes
  pn_reading :: "gerror option"
  pn_write :: "string \<Rightarrow> write_answer"
  pn_wait :: "gerror option"

definition cancel_line :: "string \<Rightarrow> bool" where
  "cancel_line l \<longleftrightarrow> has_prefix ''ERR 83886179 '' l \<or> has_prefix ''ERR 83886180 '' l \<or> contains ''cancel'' (to_lower l)"

text \<open>One reply: the data it carried, and the lines behind it.\<close>

fun readAssuanReply :: "gerror option \<Rightarrow> string list \<Rightarrow> bytes \<Rightarrow> (gerror + bytes) \<times> string list" where
  "readAssuanReply broken [] data =
     (Inl (case broken of Some e \<Rightarrow> ErrWrap ''read pinentry response: '' e | None \<Rightarrow> ErrText ''unexpected EOF''), [])"
| "readAssuanReply broken (l # ls) data =
     (if l = ''OK'' \<or> has_prefix ''OK '' l then (Inr data, ls)
      else if has_prefix ''D '' l then
        (case path_unescape (drop 2 l) of
           None \<Rightarrow> (Inl (ErrText ''pinentry returned invalid escaped data''), ls)
         | Some decoded \<Rightarrow> readAssuanReply broken ls (data @ decoded))
      else if has_prefix ''ERR '' l then
        (Inl (if cancel_line l then PinentryCancelled else ErrText (''pinentry error: '' @ l)), ls)
      else if l = [] \<or> has_prefix ''#'' l \<or> has_prefix ''S '' l then readAssuanReply broken ls data
      else (Inl (ErrText ''unexpected pinentry protocol response''), ls))"

definition writeAssuanRequest :: "pinentry_env \<Rightarrow> string \<Rightarrow> gerror option" where
  "writeAssuanRequest env request =
     (case pn_write env request of
        Written \<Rightarrow> None
      | WriteFailed e \<Rightarrow> Some (ErrWrap ''write pinentry request: '' e)
      | FlushFailed e \<Rightarrow> Some (ErrWrap ''flush pinentry request: '' e))"

definition pinentry_requests :: "string list" where
  "pinentry_requests =
     [''SETTITLE '' @ assuanEscape ''pivb credential unlock'',
      ''SETDESC '' @ assuanEscape ''Unlock pivb. Only enter your PIN after requesting this action.'',
      ''SETPROMPT '' @ assuanEscape ''YubiKey PIV PIN:'']"

text \<open>Requests whose reply only has to be \<open>OK\<close>: an error or the lines left, and the requests sent.\<close>

fun converse :: "pinentry_env \<Rightarrow> gerror option \<Rightarrow> string list \<Rightarrow> string list \<Rightarrow> (gerror + string list) \<times> string list" where
  "converse env broken [] ls = (Inr ls, [])"
| "converse env broken (request # requests) ls =
     (case writeAssuanRequest env request of
        Some e \<Rightarrow> (Inl e, [])
      | None \<Rightarrow>
          (case readAssuanReply broken ls [] of
             (Inl e, _) \<Rightarrow> (Inl e, [request])
           | (Inr _, ls') \<Rightarrow> (case converse env broken requests ls' of (r, sent) \<Rightarrow> (r, request # sent))))"

definition finish_pinentry :: "pinentry_env \<Rightarrow> string list" where
  "finish_pinentry env = (if pn_write env ''BYE'' = Written then [''BYE''] else [])"

definition pinentry_dialog :: "pinentry_env \<Rightarrow> (gerror + bytes) \<times> string list" where
  "pinentry_dialog env =
     (let broken = scan_error (pn_output env) (pn_reading env) in
      case readAssuanReply broken (scan_lines (pn_output env)) [] of
        (Inl e, _) \<Rightarrow> (Inl (ErrWrap ''start pinentry protocol: '' e), [])
      | (Inr _, ls) \<Rightarrow>
          (case converse env broken pinentry_requests ls of
             (Inl e, sent) \<Rightarrow> (Inl e, sent)
           | (Inr ls', sent) \<Rightarrow>
               (case writeAssuanRequest env ''GETPIN'' of
                  Some e \<Rightarrow> (Inl e, sent)
                | None \<Rightarrow>
                    (case fst (readAssuanReply broken ls' []) of
                       Inl e \<Rightarrow> (Inl e, sent @ [''GETPIN''])
                     | Inr pin \<Rightarrow>
                         if pin = [] then (Inl (ErrText ''pinentry returned an empty PIN''), sent @ [''GETPIN''])
                         else (Inr pin, sent @ [''GETPIN''])))))"

definition readPINFromPinentry :: "pinentry_env \<Rightarrow> (gerror + bytes) \<times> string list" where
  "readPINFromPinentry env =
     (case pn_stdin env of
        Some e \<Rightarrow> (Inl (ErrWrap ''open pinentry stdin: '' e), [])
      | None \<Rightarrow>
     (case pn_stdout env of
        Some e \<Rightarrow> (Inl (ErrWrap ''open pinentry stdout: '' e), [])
      | None \<Rightarrow>
     (case pn_start env of
        Some e \<Rightarrow> (Inl (ErrWrap ''start pinentry: '' e), [])
      | None \<Rightarrow>
     (case pinentry_dialog env of
        (Inl e, sent) \<Rightarrow> (Inl e, sent @ finish_pinentry env)
      | (Inr pin, sent) \<Rightarrow>
          (case pn_wait env of
             Some e \<Rightarrow> (Inl (ErrWrap ''wait for pinentry: '' e), sent @ finish_pinentry env)
           | None \<Rightarrow> (Inr pin, sent @ finish_pinentry env))))))"

subsection \<open>\<open>pivb unlock\<close>\<close>

text \<open>The terminal: whether standard input is one, and what \<open>ReadPassword\<close> gave.\<close>

record unlock_env =
  ul_terminal :: bool
  ul_password :: "gerror + bytes"
  ul_pinentry :: "string \<Rightarrow> pinentry_env"
  ul_status :: "gerror + bool"
  ul_print :: "gerror option"

definition readPIN :: "unlock_env \<Rightarrow> bytes res" where
  "readPIN env =
     (if \<not> ul_terminal env then Inl (ErrText ''unlock requires a terminal for hidden PIN entry'')
      else case ul_password env of Inl e \<Rightarrow> Inl (ErrWrap ''read PIN: '' e) | Inr pin \<Rightarrow> Inr pin)"

definition unlock_flags :: "(string \<times> flag_kind) list" where
  "unlock_flags = [(''if-needed'', BoolFlag), (''pinentry-program'', StringFlag)]"

text \<open>The error, what was printed, and the requests a pinentry program received.\<close>

definition unlockCommand ::
    "unlock_env \<Rightarrow> string list \<Rightarrow> (bytes \<Rightarrow> 's \<Rightarrow> (gerror + int) \<times> 's) \<Rightarrow> 's \<Rightarrow> (gerror option \<times> string \<times> string list) \<times> 's" where
  "unlockCommand env args unlock s =
     (case parse_flags unlock_flags args [] of
        Inl e \<Rightarrow> ((Some e, [], []), s)
      | Inr (m, rest) \<Rightarrow>
     if rest \<noteq> [] then ((Some (ErrText ''unlock takes no positional arguments''), [], []), s)
     else
       let needed = (if flag_bool m ''if-needed'' then ul_status env else Inr False) in
     case needed of
        Inl e \<Rightarrow> ((Some e, [], []), s)
      | Inr True \<Rightarrow> ((ul_print env, ''already unlocked'' @ [newline], []), s)
      | Inr False \<Rightarrow>
     let program = flag_value m ''pinentry-program'' [] in
     case (if program = [] then (readPIN env, []) else readPINFromPinentry (ul_pinentry env program)) of
        (Inl e, sent) \<Rightarrow> ((Some e, [], sent), s)
      | (Inr pin, sent) \<Rightarrow>
     case unlock pin s of
        (Inl e, s') \<Rightarrow> ((Some e, [], sent), s')
      | (Inr retries, s') \<Rightarrow>
          ((ul_print env, ''unlocked (PIN retries available: '' @ fmt_int retries @ '')'' @ [newline], sent), s'))"

subsection \<open>A PIN survives the protocol\<close>

lemma hex_25: "hex_val (CHR ''2'') = Some 2" "hex_val (CHR ''5'') = Some 5" "hex_val (CHR ''0'') = Some 0"
  "hex_val (CHR ''A'') = Some 10" "hex_val (CHR ''D'') = Some 13"
  by (simp_all add: hex_val_def)

lemma char_of_escapes: "char_of (13 :: nat) = CHR 0x0D" "char_of (10 :: nat) = CHR 0x0A" "char_of (37 :: nat) = CHR ''%''"
  by (simp_all add: char_of_eq_iff take_bit_eq_mod)

lemma unescape_escape: "path_unescape (assuanEscape s @ t) = map_option ((@) s) (path_unescape t)"
proof (induction s)
  case Nil
  show ?case by (simp add: assuanEscape_def option.map_ident)
next
  case (Cons c s)
  have "path_unescape (escape_char c @ u) = map_option ((#) c) (path_unescape u)" for u
    by (simp add: escape_char_def hex_25 char_of_escapes)
  with Cons show ?case by (simp add: assuanEscape_def option.map_comp comp_def)
qed

lemma path_unescape_escape: "path_unescape (assuanEscape s) = Some s"
  using unescape_escape [of s "[]"] by simp

lemma assuanEscape_chars: "CHR 0x0A \<notin> set (assuanEscape s)" "CHR 0x0D \<notin> set (assuanEscape s)"
  by (auto simp: assuanEscape_def escape_char_def split: if_splits)

text \<open>Lines written one by one are read back.\<close>

definition plain_line :: "string \<Rightarrow> bool" where
  "plain_line l \<longleftrightarrow> CHR 0x0A \<notin> set l \<and> CHR 0x0D \<notin> set l \<and> length l < maxScanTokenSize"

definition written :: "string list \<Rightarrow> bytes" where
  "written ls = concat (map (\<lambda>l. l @ [CHR 0x0A]) ls)"

lemma raw_lines_written: "list_all plain_line ls \<Longrightarrow> raw_lines (written ls) = ls"
proof -
  assume "list_all plain_line ls"
  then have "split_on (CHR 0x0A) (written ls) = ls @ [[]]"
    by (induction ls) (simp_all add: written_def plain_line_def split_on_append)
  then show ?thesis by (simp add: raw_lines_def)
qed

lemma scan_written:
  assumes "list_all plain_line ls"
  shows "scan_lines (written ls) = ls" and "scan_error (written ls) e = e"
proof -
  have "takeWhile (\<lambda>l. length l < maxScanTokenSize) ls = ls"
    using assms by (auto simp: list_all_iff plain_line_def intro: takeWhile_eq_all_conv [THEN iffD2])
  moreover have "map drop_cr ls = ls" using assms
    by (intro map_idI) (auto simp: drop_cr_def plain_line_def list_all_iff dest: last_in_set)
  ultimately show "scan_lines (written ls) = ls" unfolding scan_lines_def raw_lines_written [OF assms] by argo
  show "scan_error (written ls) e = e"
    using assms by (auto simp: scan_error_def raw_lines_written [OF assms] list_all_iff plain_line_def)
qed

definition pin_line :: "bytes \<Rightarrow> string" where
  "pin_line chunk = ''D '' @ assuanEscape chunk"

lemma reply_data:
  "readAssuanReply broken (map pin_line chunks @ ''OK'' # ls) data = (Inr (data @ concat chunks), ls)"
  by (induction chunks arbitrary: data) (simp_all add: pin_line_def has_prefix_def path_unescape_escape)

lemma converse_ok:
  assumes "list_all (\<lambda>l. l = ''OK'' \<or> has_prefix ''OK '' l) oks" and "length oks = length requests" and "\<And>r. pn_write env r = Written"
  shows "converse env broken requests (oks @ ls) = (Inr ls, requests)"
  using assms(1,2)
proof (induction requests arbitrary: oks)
  case (Cons r requests)
  then obtain l oks' where "oks = l # oks'" by (cases oks) auto
  with Cons assms(3) show ?case by (auto simp: writeAssuanRequest_def)
qed simp

text \<open>C27: the daemon gets the PIN that was typed, and only when one was asked for. Let a pinentry
  program greet, acknowledge the three settings, answer \<open>GETPIN\<close> with a nonempty PIN escaped the
  Assuan way and split over any number of data lines, and exit zero, whatever else it writes
  after that. Then \<open>pivb unlock\<close> sends it exactly the four requests and the farewell, in order,
  and hands exactly that PIN to the daemon; the command's outcome is the daemon's. With
  \<open>--if-needed\<close> and a cached PIN it asks nobody and the daemon is not called.\<close>

theorem unlock_delivers_pin:
  assumes "parse_flags unlock_flags args [] = Inr (m, [])" and "flag_value m ''pinentry-program'' [] = program" and "program \<noteq> []"
    and "ul_pinentry env program = \<lparr>pn_stdin = None, pn_stdout = None, pn_start = None,
      pn_output = written (greeting # oks @ map pin_line chunks @ ''OK'' # rest), pn_reading = reading, pn_write = (\<lambda>r. Written), pn_wait = None\<rparr>"
    and "list_all (\<lambda>l. l = ''OK'' \<or> has_prefix ''OK '' l) (greeting # oks)" and "length oks = 3"
    and "list_all plain_line (greeting # oks @ map pin_line chunks @ rest)" and "concat chunks = pin" and "pin \<noteq> []"
  shows "unlockCommand env args unlock s =
    (case (if flag_bool m ''if-needed'' then ul_status env else Inr False) of
       Inl e \<Rightarrow> ((Some e, [], []), s)
     | Inr True \<Rightarrow> ((ul_print env, ''already unlocked'' @ [CHR 0x0A], []), s)
     | Inr False \<Rightarrow>
         (case unlock pin s of
            (Inl e, s') \<Rightarrow> ((Some e, [], pinentry_requests @ [''GETPIN'', ''BYE'']), s')
          | (Inr retries, s') \<Rightarrow>
              ((ul_print env, ''unlocked (PIN retries available: '' @ fmt_int retries @ '')'' @ [CHR 0x0A],
                pinentry_requests @ [''GETPIN'', ''BYE'']), s')))"
proof -
  let ?e = "ul_pinentry env program" and ?ls = "greeting # oks @ map pin_line chunks @ ''OK'' # rest"
  have f: "pn_output ?e = written ?ls" "pn_reading ?e = reading" "\<And>r. pn_write ?e r = Written" "pn_wait ?e = None"
      "pn_stdin ?e = None" "pn_stdout ?e = None" "pn_start ?e = None" by (simp_all add: assms(4))
  have "list_all plain_line ?ls" using assms(7) by (auto simp: plain_line_def maxScanTokenSize_def)
  note scan = scan_written [OF this]
  have g: "readAssuanReply b (greeting # l) [] = (Inr [], l)" for b l using assms(5) by simp
  have c: "converse ?e b pinentry_requests (oks @ l) = (Inr l, pinentry_requests)" for b l
    using assms(5,6) by (intro converse_ok) (simp_all add: f pinentry_requests_def)
  have "pinentry_dialog ?e = (Inr pin, pinentry_requests @ [''GETPIN''])"
    using assms(8,9) by (simp add: pinentry_dialog_def Let_def f scan g c writeAssuanRequest_def reply_data del: readAssuanReply.simps)
  then have "readPINFromPinentry ?e = (Inr pin, pinentry_requests @ [''GETPIN'', ''BYE''])"
    by (simp add: readPINFromPinentry_def f finish_pinentry_def)
  then show ?thesis
    using assms(1-3) by (simp add: unlockCommand_def Let_def split: sum.split bool.split prod.split)
qed

text \<open>A PIN with a percent sign, over two data lines.\<close>

definition demo_pinentry :: pinentry_env where
  "demo_pinentry = \<lparr>pn_stdin = None, pn_stdout = None, pn_start = None,
     pn_output = written (''OK Pleased to meet you'' # [''OK'', ''OK'', ''OK''] @ map pin_line [''12%'', ''34''] @ ''OK'' # []),
     pn_reading = None, pn_write = (\<lambda>r. Written), pn_wait = None\<rparr>"

theorem unlock_delivers_pin_witness:
  "unlockCommand \<lparr>ul_terminal = False, ul_password = Inr [], ul_pinentry = (\<lambda>p. demo_pinentry), ul_status = Inr False, ul_print = None\<rparr>
     [''--pinentry-program=p'', ''--if-needed''] (\<lambda>pin s. (Inr 3, pin # s)) [] =
   ((None, ''unlocked (PIN retries available: 3)'' @ [CHR 0x0A], pinentry_requests @ [''GETPIN'', ''BYE'']), [''12%34''])"
proof -
  let ?env = "\<lparr>ul_terminal = False, ul_password = Inr [], ul_pinentry = (\<lambda>p. demo_pinentry), ul_status = Inr False, ul_print = None\<rparr>"
  have f: "parse_flags unlock_flags [''--pinentry-program=p'', ''--if-needed''] [] =
      Inr ([(''if-needed'', ''true''), (''pinentry-program'', ''p'')], [])"
    by (simp add: unlock_flags_def flag_arg_def flag_parts_def)
  have p: "ul_pinentry ?env ''p'' = \<lparr>pn_stdin = None, pn_stdout = None, pn_start = None,
      pn_output = written (''OK Pleased to meet you'' # [''OK'', ''OK'', ''OK''] @ map pin_line [''12%'', ''34''] @ ''OK'' # []), pn_reading = None,
      pn_write = (\<lambda>r. Written), pn_wait = None\<rparr>" by (simp add: demo_pinentry_def)
  have l: "list_all plain_line (''OK Pleased to meet you'' # [''OK'', ''OK'', ''OK''] @ map pin_line [''12%'', ''34''] @ [])"
    by (simp add: plain_line_def maxScanTokenSize_def pin_line_def assuanEscape_def escape_char_def)
  have "fmt_int 3 = ''3''" by (simp add: fmt_int_def fmt_nat_small digit_char_def)
  with unlock_delivers_pin [OF f _ _ p _ _ l, where pin = "''12%34''" and s = "[]" and unlock = "\<lambda>pin s. (Inr 3, pin # s)"]
  show ?thesis by (simp add: flag_value_def flag_bool_def parse_bool_def has_prefix_def)
qed

end
