(* ===== verification/Uds.thy ===== *)
theory Uds
  imports Session_Api Agent_Api
begin

text \<open>
  The Unix-socket transport (\<open>internal/uds\<close>): \<open>Listen\<close> with what the system calls answered and
  the effects it had, in order; \<open>Close\<close>; the credentials of a peer; the gate in front of every
  handler; and the life of a server. What the listener's socket delivers is a list of requests,
  each with what the kernel answers about its peer. HTTP itself is the library's.
\<close>

definition path_dir :: "string \<Rightarrow> string" where
  "path_dir p = path_clean (rev (dropWhile (\<lambda>c. c \<noteq> slash) (rev p)))"

subsection \<open>Listen\<close>

datatype path_answer = PathMissing | PathUnreadable gerror | PathThere bool

record listen_env =
  ls_mkdir :: "gerror option"
  ls_chmod_dir :: "gerror option"
  ls_lstat :: path_answer
  ls_dial :: dial_answer
  ls_remove :: "gerror option"
  ls_listen :: "gerror option"
  ls_chmod :: "gerror option"

datatype uds_effect = MadeDir string | SetMode string nat | Dialed string | Removed string | Bound string | ClosedListener string

text \<open>File modes in decimal: 448 is \<open>0700\<close>, 384 is \<open>0600\<close>. The stale-socket check: an error, or the effects before binding.\<close>

definition clear_path :: "listen_env \<Rightarrow> string \<Rightarrow> gerror option \<times> uds_effect list" where
  "clear_path env socket =
     (case ls_lstat env of
        PathMissing \<Rightarrow> (None, [])
      | PathUnreadable e \<Rightarrow> (Some (ErrWrap ''inspect socket path: '' e), [])
      | PathThere is_socket \<Rightarrow>
          if \<not> is_socket then (Some (ErrText (''refusing to replace non-socket path '' @ go_quote socket)), [])
          else case ls_dial env of
              Connected \<Rightarrow> (Some (ErrText (''socket '' @ go_quote socket @ '' is already in use'')), [Dialed socket])
            | Refused \<Rightarrow>
                (case ls_remove env of
                   Some e \<Rightarrow> (Some (ErrWrap ''remove stale socket: '' e), [Dialed socket])
                 | None \<Rightarrow> (None, [Dialed socket, Removed socket]))
            | NoSocket \<Rightarrow> (None, [Dialed socket])
            | DialFailed e \<Rightarrow> (Some (ErrWrap ''probe existing socket: '' e), [Dialed socket]))"

definition Listen :: "listen_env \<Rightarrow> string \<Rightarrow> gerror option \<times> uds_effect list" where
  "Listen env socket =
     (case ls_mkdir env of
        Some e \<Rightarrow> (Some (ErrWrap ''create runtime socket directory: '' e), [])
      | None \<Rightarrow>
     (case ls_chmod_dir env of
        Some e \<Rightarrow> (Some (ErrWrap ''set runtime socket directory permissions: '' e), [MadeDir (path_dir socket)])
      | None \<Rightarrow>
     (case clear_path env socket of
        (Some e, es) \<Rightarrow> (Some e, [MadeDir (path_dir socket), SetMode (path_dir socket) 448] @ es)
      | (None, es) \<Rightarrow>
     (case ls_listen env of
        Some e \<Rightarrow> (Some (ErrWrap (''listen on socket '' @ go_quote socket @ '': '') e),
          [MadeDir (path_dir socket), SetMode (path_dir socket) 448] @ es)
      | None \<Rightarrow>
     (case ls_chmod env of
        Some e \<Rightarrow> (Some (ErrWrap ''set socket permissions: '' e),
          [MadeDir (path_dir socket), SetMode (path_dir socket) 448] @ es @ [Bound socket, ClosedListener socket, Removed socket])
      | None \<Rightarrow> (None,
          [MadeDir (path_dir socket), SetMode (path_dir socket) 448] @ es @ [Bound socket, SetMode socket 384]))))))"

text \<open>\<open>Close\<close> runs once whoever calls it: the error of the first call and the effects. \<open>done\<close> is the
  \<open>sync.Once\<close>; the answers are the listener's \<open>Close\<close> and the removal, where a missing path is no error.\<close>

definition Listener_Close :: "gerror option \<Rightarrow> gerror option \<Rightarrow> string \<Rightarrow> bool \<Rightarrow> gerror option \<times> uds_effect list \<times> bool" where
  "Listener_Close closing removing socket closed =
     (if closed then (None, [], True)
      else (case closing of Some e \<Rightarrow> Some e | None \<Rightarrow> removing, [ClosedListener socket, Removed socket], True))"

subsection \<open>The peer gate\<close>

record peer_info =
  pi_allowed :: bool
  pi_uid :: u32
  pi_pid :: int

definition no_peer :: peer_info where
  "no_peer = \<lparr>pi_allowed = False, pi_uid = 0, pi_pid = 0\<rparr>"

text \<open>What the kernel answers about a connection: whether it is a Unix connection, and the results
  of \<open>SyscallConn\<close>, \<open>Control\<close> and \<open>GetsockoptUcred\<close>.\<close>

record cred_answer =
  ca_unix :: bool
  ca_raw :: "gerror option"
  ca_control :: "gerror option"
  ca_sockopt :: "gerror option"
  ca_cred :: "(u32 \<times> int) option"

definition peerCredentials :: "cred_answer \<Rightarrow> u32 \<Rightarrow> peer_info" where
  "peerCredentials conn want =
     (if \<not> ca_unix conn then no_peer
      else if ca_raw conn \<noteq> None then no_peer
      else if ca_control conn \<noteq> None \<or> ca_sockopt conn \<noteq> None then no_peer
      else case ca_cred conn of
          None \<Rightarrow> no_peer
        | Some (uid, pid) \<Rightarrow> \<lparr>pi_allowed = (uid = want), pi_uid = uid, pi_pid = pid\<rparr>)"

definition peer_refusal :: error_response where
  "peer_refusal = \<lparr>er_error = ''socket peer UID does not match daemon UID'', er_code = ''PIVB_PEER'',
     er_remedy = ''run pivb as the same user as the daemon''\<rparr>"

definition requirePeer :: "('q \<Rightarrow> 's \<Rightarrow> 'r reply \<times> 's) \<Rightarrow> peer_info \<Rightarrow> 'q \<Rightarrow> 's \<Rightarrow> 'r reply \<times> 's" where
  "requirePeer handler info q s = (if \<not> pi_allowed info then (ErrorReply 403 peer_refusal, s) else handler q s)"

subsection \<open>Serving\<close>

text \<open>The requests one after the other, each on a connection with its peer's credentials.\<close>

fun serve_requests :: "u32 \<Rightarrow> ('q \<Rightarrow> 's \<Rightarrow> 'r reply \<times> 's) \<Rightarrow> (cred_answer \<times> 'q) list \<Rightarrow> 's \<Rightarrow> 'r reply list \<times> 's" where
  "serve_requests uid handler [] s = ([], s)"
| "serve_requests uid handler ((conn, q) # rest) s =
     (case requirePeer handler (peerCredentials conn uid) q s of
        (r, s1) \<Rightarrow> (case serve_requests uid handler rest s1 of (rs, s2) \<Rightarrow> (r # rs, s2)))"

text \<open>How \<open>http.Server.Serve\<close> ended: \<open>None\<close> for \<open>ErrServerClosed\<close>. It closes the listener it was
  given, and the deferred \<open>Close\<close> finds it closed.\<close>

record serve_env =
  sv_listen :: listen_env
  sv_uid :: u32
  sv_result :: "gerror option"
  sv_closing :: "gerror option"
  sv_removing :: "gerror option"

definition Serve :: "serve_env \<Rightarrow> string \<Rightarrow> ('q \<Rightarrow> 's \<Rightarrow> 'r reply \<times> 's) \<Rightarrow> (cred_answer \<times> 'q) list \<Rightarrow> 's \<Rightarrow>
    (gerror option \<times> uds_effect list) \<times> 'r reply list \<times> 's" where
  "Serve env socket handler conns s =
     (case Listen (sv_listen env) socket of
        (Some e, es) \<Rightarrow> ((Some e, es), [], s)
      | (None, es) \<Rightarrow>
          (case serve_requests (sv_uid env) handler conns s of
             (rs, s') \<Rightarrow>
               (case Listener_Close (sv_closing env) (sv_removing env) socket False of
                  (_, closed, once) \<Rightarrow>
                    (case Listener_Close (sv_closing env) (sv_removing env) socket once of
                       (_, again, _) \<Rightarrow> ((sv_result env, es @ closed @ again), rs, s')))))"

subsection \<open>What a foreign peer can do\<close>

definition own_peer :: "u32 \<Rightarrow> cred_answer \<Rightarrow> bool" where
  "own_peer uid conn \<longleftrightarrow> ca_unix conn \<and> ca_raw conn = None \<and> ca_control conn = None \<and> ca_sockopt conn = None \<and>
     (\<exists>pid. ca_cred conn = Some (uid, pid))"

lemma peerCredentials_allowed: "pi_allowed (peerCredentials conn uid) \<longleftrightarrow> own_peer uid conn"
  by (auto simp: peerCredentials_def own_peer_def no_peer_def split: option.split)

lemma requirePeer_refused: "\<not> own_peer uid conn \<Longrightarrow> requirePeer handler (peerCredentials conn uid) q s = (ErrorReply 403 peer_refusal, s)"
  by (simp add: requirePeer_def peerCredentials_allowed)

lemma requirePeer_allowed: "own_peer uid conn \<Longrightarrow> requirePeer handler (peerCredentials conn uid) q s = handler q s"
  by (simp add: requirePeer_def peerCredentials_allowed)

definition own_requests :: "u32 \<Rightarrow> (cred_answer \<times> 'q) list \<Rightarrow> 'q list" where
  "own_requests uid conns = map snd (filter (\<lambda>cq. own_peer uid (fst cq)) conns)"

fun handle_all :: "('q \<Rightarrow> 's \<Rightarrow> 'r reply \<times> 's) \<Rightarrow> 'q list \<Rightarrow> 's \<Rightarrow> 'r reply list \<times> 's" where
  "handle_all handler [] s = ([], s)"
| "handle_all handler (q # qs) s =
     (case handler q s of (r, s1) \<Rightarrow> (case handle_all handler qs s1 of (rs, s2) \<Rightarrow> (r # rs, s2)))"

fun weave :: "bool list \<Rightarrow> 'r reply list \<Rightarrow> 'r reply list" where
  "weave [] rs = []"
| "weave (False # bs) rs = ErrorReply 403 peer_refusal # weave bs rs"
| "weave (True # bs) rs = (case rs of [] \<Rightarrow> [] | r # rs' \<Rightarrow> r # weave bs rs')"

lemma serve_requests_own:
  "serve_requests uid handler conns s =
     (case handle_all handler (own_requests uid conns) s of (rs, s') \<Rightarrow> (weave (map (\<lambda>cq. own_peer uid (fst cq)) conns) rs, s'))"
proof (induction conns arbitrary: s)
  case (Cons cq conns)
  obtain conn q where cq: "cq = (conn, q)" by (metis prod.exhaust)
  show ?case
  proof (cases "own_peer uid conn")
    case True
    obtain r s1 where h: "handler q s = (r, s1)" by (metis prod.exhaust)
    obtain rs s2 where a: "handle_all handler (own_requests uid conns) s1 = (rs, s2)" by (metis prod.exhaust)
    from True a Cons.IH [of s1] show ?thesis by (simp add: cq requirePeer_allowed own_requests_def h)
  next
    case False
    then show ?thesis
      using Cons.IH [of s] by (simp add: cq requirePeer_refused own_requests_def split: prod.split)
  qed
qed (simp add: own_requests_def)

subsection \<open>What a server leaves behind\<close>

text \<open>Whether the socket this server bound is still there after the effects.\<close>

fun socket_left :: "uds_effect list \<Rightarrow> bool \<Rightarrow> bool" where
  "socket_left [] b = b"
| "socket_left (Bound p # es) b = socket_left es True"
| "socket_left (Removed p # es) b = socket_left es False"
| "socket_left (_ # es) b = socket_left es b"

lemma socket_left_append: "socket_left (es @ es') b = socket_left es' (socket_left es b)"
  by (induction es b rule: socket_left.induct) auto

definition before_bind :: "uds_effect list \<Rightarrow> uds_effect list" where
  "before_bind es = takeWhile (\<lambda>e. \<not> (\<exists>p. e = Bound p)) es"

lemma Listen_effects:
  assumes "Listen env socket = (err, es)"
  shows "(Bound socket \<in> set es \<or> Removed socket \<in> set es \<longrightarrow> ls_lstat env = PathMissing \<or>
      ls_lstat env = PathThere True \<and> ls_dial env \<in> {Refused, NoSocket}) \<and>
    (Removed socket \<in> set (before_bind es) \<longrightarrow> ls_lstat env = PathThere True \<and> ls_dial env = Refused) \<and>
    (\<forall>p. Bound p \<in> set es \<or> Removed p \<in> set es \<longrightarrow> p = socket) \<and>
    (err \<noteq> None \<longrightarrow> \<not> socket_left es False) \<and> (err = None \<longrightarrow> Bound socket \<in> set es)"
  using assms
  by (cases "ls_lstat env"; cases "ls_dial env")
    (auto simp: Listen_def clear_path_def before_bind_def socket_left_append split: option.splits if_splits)

lemma Serve_eq:
  "Listen (sv_listen env) socket = (None, ls) \<Longrightarrow>
     Serve env socket handler conns s =
       ((sv_result env, ls @ [ClosedListener socket, Removed socket]), serve_requests (sv_uid env) handler conns s)"
  by (simp add: Serve_def Listener_Close_def split: prod.split)

lemma Serve_fails:
  "Listen (sv_listen env) socket = (Some e, ls) \<Longrightarrow> Serve env socket handler conns s = ((Some e, ls), [], s)"
  by (simp add: Serve_def)


text \<open>A stale socket is replaced, the daemon's own user locks it, and another user is refused.\<close>

definition demo_peer :: "u32 \<Rightarrow> cred_answer" where
  "demo_peer uid = \<lparr>ca_unix = True, ca_raw = None, ca_control = None, ca_sockopt = None, ca_cred = Some (uid, 42)\<rparr>"

definition demo_serve :: serve_env where
  "demo_serve = \<lparr>sv_listen = \<lparr>ls_mkdir = None, ls_chmod_dir = None, ls_lstat = PathThere True, ls_dial = Refused, ls_remove = None,
     ls_listen = None, ls_chmod = None\<rparr>, sv_uid = 1000, sv_result = None, sv_closing = None, sv_removing = None\<rparr>"


end
