(* ===== verification/Main_Cmd.thy ===== *)
theory Main_Cmd
  imports Exec_Source Wif_Cmd Pinentry Uds
begin

text \<open>
  The entry point (\<open>cmd/pivb/main.go\<close>, \<open>agentsession.go\<close>, \<open>capabilities.go\<close>): which command runs
  with what, which commands a managed pane refuses, how the daemon is put together, and the
  exit status. \<open>run\<close> is split into the choice of a command (\<open>run_plan\<close>) and the commands
  themselves, which are the models of the components. A Go map is ranged over in an order the
  runtime chooses, the parameter \<open>order\<close>. The usage text is not modelled.
\<close>

record main_env =
  mn_lookup :: "string \<Rightarrow> string option"
  mn_home :: "gerror + string"
  mn_order :: "(string \<times> string) list \<Rightarrow> (string \<times> string) list"

definition path_join :: "string list \<Rightarrow> string" where
  "path_join parts =
     (let ps = filter (\<lambda>p. p \<noteq> []) parts in if ps = [] then [] else path_clean (join [slash] ps))"

definition DefaultPath :: "main_env \<Rightarrow> string res" where
  "DefaultPath env =
     (let base = getenv_of (mn_lookup env) ''XDG_CONFIG_HOME'' in
      if base \<noteq> [] then Inr (path_join [base, ''pivb'', ''config.toml''])
      else case mn_home env of
          Inl e \<Rightarrow> Inl (ErrWrap ''resolve config home: '' e)
        | Inr home \<Rightarrow> Inr (path_join [home, ''.config'', ''pivb'', ''config.toml'']))"

definition runtimeSocketPath :: "main_env \<Rightarrow> string \<Rightarrow> string" where
  "runtimeSocketPath env name =
     (let runtimeDir = getenv_of (mn_lookup env) ''XDG_RUNTIME_DIR'' in
      if runtimeDir = [] then [] else path_join [runtimeDir, ''pivb'', name])"

definition rejectProviderCommandAttachment :: "main_env \<Rightarrow> gerror option" where
  "rejectProviderCommandAttachment env =
     (case FromEnvironment (getenv_of (mn_lookup env)) of
        Inl e \<Rightarrow> Some (ErrText (CodeRouteRequired @ '': '' @ err_text e))
      | Inr att \<Rightarrow>
          if RouteRequired att
          then Some (ErrText (CodeRouteRequired @ '': command is unavailable in a route-required attachment'')) else None)"

subsection \<open>The commands\<close>

record sockets =
  sk_control :: string
  sk_wif :: string
  sk_forward :: string
  sk_lease :: string

datatype command =
    CmdVersion
  | CmdCapabilities "string list"
  | CmdServe string sockets
  | CmdSubjectToken string string "string list"
  | CmdAgentSession string string "string list"
  | CmdWif string "string list"
  | CmdStatus string "string list"
  | CmdUnlock string "string list"
  | CmdLock string

definition global_flags :: "(string \<times> flag_kind) list" where
  "global_flags = string_flags [''config'', ''control-socket'', ''wif-socket'', ''forward-socket'', ''card-lease-socket'']"

definition socket_error :: "main_env \<Rightarrow> sockets \<Rightarrow> gerror option" where
  "socket_error env sk =
     (case filter (\<lambda>(label, socket). socket \<noteq> [] \<and> \<not> is_abs socket)
        (mn_order env [(''control'', sk_control sk), (''wif'', sk_wif sk), (''forward'', sk_forward sk), (''card lease'', sk_lease sk)]) of
        [] \<Rightarrow> None
      | (label, _) # _ \<Rightarrow> Some (ErrText (label @ '' socket must be an absolute path'')))"

definition serve_plan :: "main_env \<Rightarrow> string \<Rightarrow> sockets \<Rightarrow> string list \<Rightarrow> command res" where
  "serve_plan env config_path sk rest =
     (case rejectProviderCommandAttachment env of
        Some e \<Rightarrow> Inl e
      | None \<Rightarrow>
          if rest \<noteq> [] then Inl (ErrText ''serve takes no arguments'')
          else if sk_control sk = [] \<or> sk_wif sk = []
          then Inl (ErrText ''XDG_RUNTIME_DIR is not set; pass --control-socket and --wif-socket explicitly'')
          else case socket_error env sk of Some e \<Rightarrow> Inl e | None \<Rightarrow> Inr (CmdServe config_path sk))"

definition client_plan :: "main_env \<Rightarrow> sockets \<Rightarrow> string \<Rightarrow> string list \<Rightarrow> command res" where
  "client_plan env sk cmd rest =
     (if sk_control sk = [] then Inl (ErrText ''XDG_RUNTIME_DIR is not set; pass --control-socket explicitly'')
      else case rejectProviderCommandAttachment env of
          Some e \<Rightarrow> Inl e
        | None \<Rightarrow>
            if cmd = ''status'' then Inr (CmdStatus (sk_control sk) rest)
            else if cmd = ''unlock'' then Inr (CmdUnlock (sk_control sk) rest)
            else if cmd = ''lock'' then
              (if rest \<noteq> [] then Inl (ErrText ''lock takes no arguments'') else Inr (CmdLock (sk_control sk)))
            else Inl (ErrText (''unknown command '' @ go_quote cmd)))"

definition run_plan :: "main_env \<Rightarrow> string list \<Rightarrow> command res" where
  "run_plan env args =
     (case DefaultPath env of
        Inl e \<Rightarrow> Inl e
      | Inr defaultConfig \<Rightarrow>
     (case parse_flags global_flags args [] of
        Inl e \<Rightarrow> Inl e
      | Inr (m, []) \<Rightarrow> Inl (ErrText ''a command is required'')
      | Inr (m, cmd # rest) \<Rightarrow>
          let config_path = flag_value m ''config'' defaultConfig;
              sk = \<lparr>sk_control = flag_value m ''control-socket'' (runtimeSocketPath env ''control.sock''),
                    sk_wif = flag_value m ''wif-socket'' (runtimeSocketPath env ''wif.sock''),
                    sk_forward = flag_value m ''forward-socket'' [], sk_lease = flag_value m ''card-lease-socket'' []\<rparr>
          in if cmd = ''version'' then Inr CmdVersion
             else if cmd = ''capabilities'' then Inr (CmdCapabilities rest)
             else if cmd = ''serve'' then serve_plan env config_path sk rest
             else if cmd = ''subject-token'' then Inr (CmdSubjectToken config_path (sk_wif sk) rest)
             else if cmd = ''agent-session'' then Inr (CmdAgentSession config_path (sk_wif sk) rest)
             else if cmd = ''wif'' then Inr (CmdWif config_path rest)
             else client_plan env sk cmd rest))"

text \<open>\<open>pivb agent-session\<close>: the options \<open>Run\<close> gets.\<close>

definition session_usage :: gerror where
  "session_usage = ErrText ''usage: pivb agent-session [--route-socket <path>] --alias <alias> --source-label <agent>:<project>/<role> -- <command> [args...]''"

definition session_flags :: "(string \<times> flag_kind) list" where
  "session_flags = string_flags [''alias'', ''source-label'', ''route-socket'']"

definition agentSessionCommand :: "main_env \<Rightarrow> config res \<Rightarrow> string \<Rightarrow> string list \<Rightarrow> session_options res" where
  "agentSessionCommand env loaded wifSocket args =
     (if ''--'' \<notin> set args then Inl session_usage
      else
        let before = takeWhile (\<lambda>a. a \<noteq> ''--'') args; command = drop (Suc (length before)) args in
      case parse_flags session_flags before [] of
        Inl e \<Rightarrow> Inl e
      | Inr (m, rest) \<Rightarrow>
      let name = flag_value m ''alias'' []; label = flag_value m ''source-label'' []; route = flag_value m ''route-socket'' [] in
      if rest \<noteq> [] \<or> name = [] \<or> label = [] \<or> command = [] then Inl session_usage
      else if route \<noteq> [] \<and> \<not> is_abs route then Inl (ErrText ''--route-socket must be an absolute Unix socket path'')
      else case FromEnvironment (getenv_of (mn_lookup env)) of
        Inl e \<Rightarrow> Inl (ErrWrap (CodeRouteRequired @ '': '') e)
      | Inr att \<Rightarrow>
      case WithExplicitRoute att route of
        Inl e \<Rightarrow> Inl (ErrWrap (CodeRouteRequired @ '': '') e)
      | Inr att' \<Rightarrow>
      case loaded of
        Inl e \<Rightarrow> Inl e
      | Inr cfg \<Rightarrow>
      let runtimeDir = getenv_of (mn_lookup env) ''XDG_RUNTIME_DIR'' in
      if runtimeDir = [] then Inl (ErrText ''XDG_RUNTIME_DIR is not set'')
      else Inr \<lparr>so_config = Some cfg, so_alias = name, so_label = label, so_wif_socket = wifSocket, so_attachment = att',
        so_route = [], so_runtime = runtimeDir, so_command = command\<rparr>)"

text \<open>\<open>pivb capabilities\<close>: the error and the document, whose lists are fixed.\<close>

definition capability_document :: string where
  "capability_document =
     ''{'' @ json_member (''schema'', JInt 1) @ '','' @ json_string ''attachment_protocols'' @ '':['' @ fmt_int ProtocolEnvironment @ ''],'' @
     json_string ''attachment_modes'' @ '':['' @ json_string ModeLocalAllowed @ '','' @ json_string ModeRouteRequired @ '']}'' @ [newline]"

definition capabilitiesCommand :: "gerror option \<Rightarrow> string list \<Rightarrow> gerror option \<times> string" where
  "capabilitiesCommand out args =
     (case parse_flags (string_flags [''format'']) args [] of
        Inl e \<Rightarrow> (Some e, [])
      | Inr (m, rest) \<Rightarrow>
          if rest \<noteq> [] \<or> flag_value m ''format'' [] \<noteq> ''json'' then (Some (ErrText ''usage: pivb capabilities --format=json''), [])
          else (out, capability_document))"

subsection \<open>The daemon\<close>

record card_setup =
  cu_serials :: "u32 list"
  cu_gnupg_home :: string
  cu_lease :: "string option"

text \<open>The daemon \<open>serve\<close> starts: a card or none, and the sockets it serves in order.\<close>

record daemon_setup =
  dm_config :: config
  dm_card :: "card_setup option"
  dm_notify :: "string list"
  dm_servers :: "(string \<times> string) list"

definition serve :: "config res \<Rightarrow> string list res \<Rightarrow> sockets \<Rightarrow> daemon_setup res" where
  "serve loaded readers sk =
     (case loaded of
        Inl e \<Rightarrow> Inl e
      | Inr cfg \<Rightarrow>
          let notify = (case cf_notify cfg of None \<Rightarrow> [] | Some argv \<Rightarrow> argv);
              servers = [(''control'', sk_control sk), (''wif'', sk_wif sk)] @ (if sk_forward sk \<noteq> [] then [(''forward'', sk_forward sk)] else []) in
          if CardFree cfg then Inr \<lparr>dm_config = cfg, dm_card = None, dm_notify = notify, dm_servers = servers\<rparr>
          else case CheckPCSC readers of
              Some e \<Rightarrow> Inl e
            | None \<Rightarrow> Inr \<lparr>dm_config = cfg,
                dm_card = Some \<lparr>cu_serials = YubiKeySerials cfg, cu_gnupg_home = cf_gnupg_home cfg,
                  cu_lease = (if sk_lease sk \<noteq> [] then Some (sk_lease sk) else None)\<rparr>,
                dm_notify = notify, dm_servers = servers\<rparr>)"

text \<open>A card-free origin starts whatever PC/SC answers, and opens no card; the configuration it
  starts with is the loaded one.\<close>

lemma serve_card_free:
  assumes "CardFree cfg"
  shows "serve (Inr cfg) readers sk = serve (Inr cfg) readers' sk \<and>
    (\<exists>d. serve (Inr cfg) readers sk = Inr d \<and> dm_card d = None \<and> dm_config d = cfg)"
  using assms by (simp add: serve_def Let_def)

text \<open>The first error among the servers, in the order they end.\<close>

definition serve_exit :: "gerror option list \<Rightarrow> gerror option" where
  "serve_exit ends = (case List.map_filter (\<lambda>e. e) ends of [] \<Rightarrow> None | e # _ \<Rightarrow> Some e)"

subsection \<open>The exit status\<close>

fun node_child :: "gerror \<Rightarrow> (int \<times> int) option" where
  "node_child (ChildExit code sig) = Some (code, sig)" | "node_child _ = None"

fun node_reported :: "gerror \<Rightarrow> unit option" where
  "node_reported ErrReported = Some ()" | "node_reported _ = None"

fun node_cancelled :: "gerror \<Rightarrow> unit option" where
  "node_cancelled PinentryCancelled = Some ()" | "node_cancelled _ = None"

datatype exit_status = Exited int | Killed int

definition propagateChildExit :: "int \<Rightarrow> int \<Rightarrow> exit_status" where
  "propagateChildExit code sig = (if sig \<noteq> 0 then Killed sig else Exited code)"

definition main_exit :: "gerror option \<Rightarrow> exit_status \<times> string" where
  "main_exit r =
     (case r of
        None \<Rightarrow> (Exited 0, [])
      | Some e \<Rightarrow>
          (case errors_as node_child e of
             Some (code, sig) \<Rightarrow> (propagateChildExit code sig, [])
           | None \<Rightarrow>
               if errors_as node_reported e \<noteq> None then (Exited 1, [])
               else (Exited (if errors_as node_cancelled e \<noteq> None then 2 else 1), ''pivb: '' @ err_text e @ [newline])))"

subsection \<open>A managed pane\<close>

lemma rejects: "FromEnvironment (getenv_of (mn_lookup env)) = Inr att \<Longrightarrow> RouteRequired att \<Longrightarrow> rejectProviderCommandAttachment env \<noteq> None"
  by (simp add: rejectProviderCommandAttachment_def)

fun needs_card :: "command \<Rightarrow> bool" where
  "needs_card (CmdServe c sk) = True" | "needs_card (CmdStatus s rest) = True" | "needs_card (CmdUnlock s rest) = True"
| "needs_card (CmdLock s) = True" | "needs_card _ = False"

lemma plan_refused:
  assumes "rejectProviderCommandAttachment env \<noteq> None" and "run_plan env args = Inr cmd"
  shows "\<not> needs_card cmd"
  using assms
  by (auto simp: run_plan_def serve_plan_def client_plan_def Let_def split: sum.splits prod.splits list.splits if_splits)

lemma host_request_routed:
  assumes "FromEnvironment (getenv_of lookup) = Inr att" and "host_request lookup loaded wifSocket args = Inr q"
  shows "wr_route_socket q = at_route att \<and> wr_route_required q = RouteRequired att"
  using assms by (auto simp: host_request_def Let_def split: sum.splits prod.splits option.splits if_splits)

lemma agent_options_routed:
  assumes "FromEnvironment (getenv_of (mn_lookup env)) = Inr att" and "RouteRequired att"
    and "agentSessionCommand env loaded wifSocket args = Inr opts"
  shows "so_attachment opts = att \<and> so_route opts = []"
  using assms
  by (auto simp: agentSessionCommand_def Let_def WithExplicitRoute_def split: sum.splits prod.splits option.splits if_splits)

text \<open>A routed request never looks at the card or its environment.\<close>

lemma routed_ignores_card:
  "RouteRequired (rq_attachment req) \<Longrightarrow>
     SubjectToken cr env req c = SubjectToken cr (env\<lparr>te_mint := mint\<rparr>) req c"
  by (simp add: SubjectToken_def Let_def split: option.split sum.split)

lemma decode_body_of: "jsonhttp_Decode (body_of q) = Inr q"
  by (simp add: jsonhttp_Decode_def decode_strict_def body_of_def)

lemma routed_wif:
  assumes "wr_route_required q"
  shows "wif_subjectToken (SubjectToken cr env) (body_of q) s = wif_subjectToken (SubjectToken cr (env\<lparr>te_mint := mint\<rparr>)) (body_of q) s"
proof (cases "wif_attachment q :: token_response reply + attachment")
  case (Inl e)
  then show ?thesis by (simp add: wif_subjectToken_def decode_body_of)
next
  case (Inr att)
  then have "RouteRequired att"
    using assms by (auto simp: wif_attachment_def RouteRequired_def RouteRequiredCtx_def split: option.splits)
  then have "RouteRequired (rq_attachment (wif_core_request q att))" by (simp add: wif_core_request_def)
  from routed_ignores_card [OF this, of cr env s mint] show ?thesis
    by (simp add: wif_subjectToken_def decode_body_of Inr)
qed

lemma routed_post: "wr_route_required q \<Longrightarrow>
    wif_post (SubjectToken cr env) w q s = wif_post (SubjectToken cr (env\<lparr>te_mint := mint\<rparr>)) w q s"
  using routed_wif [of q cr env s mint] by (cases w) (simp_all add: wif_post_def http_post_def)

lemma routed_relay:
  assumes "RouteRequired att"
  shows "relay ss att (SubjectToken cr env) w b s = relay ss att (SubjectToken cr (env\<lparr>te_mint := mint\<rparr>)) w b s"
proof -
  have "daemonUpstream att (wif_post (SubjectToken cr env) w) u s = daemonUpstream att (wif_post (SubjectToken cr (env\<lparr>te_mint := mint\<rparr>)) w) u s" for u
    using routed_post [of "upstream_wif_request att u" cr env w s mint] assms by (simp add: daemonUpstream_def upstream_wif_request_def)
  then show ?thesis by (simp add: relay_def session_subjectToken_def split: sum.split)
qed

text \<open>C19: a managed pane never signs with the local card. In an environment that requires a
  workspace route: no \<open>serve\<close>, \<open>status\<close>, \<open>unlock\<close> or \<open>lock\<close> is run, whatever the arguments; a
  request \<open>pivb subject-token\<close> sends names that route as required, and a session \<open>pivb
  agent-session\<close> starts is attached to exactly that route, whatever \<open>--route-socket\<close> says; and
  the daemon's answer to either, and its state afterwards, do not depend on the card, the PIN
  cache's clock or anything else of the local signing environment.\<close>

theorem managed_pane_confined:
  assumes "FromEnvironment (getenv_of (mn_lookup env)) = Inr att" and "RouteRequired att"
  shows "(run_plan env args = Inr cmd \<longrightarrow> \<not> needs_card cmd) \<and>
    (host_request (mn_lookup env) loaded wifSocket args = Inr q \<longrightarrow>
       wr_route_required q \<and> wr_route_socket q = at_route att \<and>
       wif_post (SubjectToken cr tenv) w q c = wif_post (SubjectToken cr (tenv\<lparr>te_mint := mint\<rparr>)) w q c) \<and>
    (agentSessionCommand env loaded wifSocket args = Inr opts \<longrightarrow>
       so_attachment opts = att \<and> so_route opts = [] \<and>
       relay (session_of opts cfg a sessionID) (so_attachment opts) (SubjectToken cr tenv) w body c =
         relay (session_of opts cfg a sessionID) (so_attachment opts) (SubjectToken cr (tenv\<lparr>te_mint := mint\<rparr>)) w body c)"
proof (intro conjI impI)
  show "\<not> needs_card cmd" if "run_plan env args = Inr cmd" using plan_refused [OF rejects [OF assms] that] .
  assume "host_request (mn_lookup env) loaded wifSocket args = Inr q"
  note q = host_request_routed [OF assms(1) this]
  then show "wr_route_required q" "wr_route_socket q = at_route att" using assms(2) by simp_all
  from routed_post [OF this(1)]
  show "wif_post (SubjectToken cr tenv) w q c = wif_post (SubjectToken cr (tenv\<lparr>te_mint := mint\<rparr>)) w q c" .
next
  assume "agentSessionCommand env loaded wifSocket args = Inr opts"
  note o = agent_options_routed [OF assms this]
  then show "so_attachment opts = att" "so_route opts = []" by simp_all
  from routed_relay [OF assms(2)] o
  show "relay (session_of opts cfg a sessionID) (so_attachment opts) (SubjectToken cr tenv) w body c =
      relay (session_of opts cfg a sessionID) (so_attachment opts) (SubjectToken cr (tenv\<lparr>te_mint := mint\<rparr>)) w body c" by simp
qed

text \<open>A pane with a route, in which \<open>lock\<close> is refused and an agent session starts.\<close>

definition demo_pane :: main_env where
  "demo_pane = \<lparr>mn_lookup = (\<lambda>name. if name = EnvMode then Some ''route-required'' else if name = EnvRouteSocket then Some ''/r/s''
      else if name = EnvProtocol then Some ''1'' else if name = ''XDG_RUNTIME_DIR'' then Some ''/run'' else None),
    mn_home = Inr ''/h'', mn_order = (\<lambda>xs. xs)\<rparr>"

theorem managed_pane_confined_witness:
  "\<exists>opts. agentSessionCommand demo_pane (Inr demo_config) ''/w'' [''--alias=ro'', ''--source-label=a:p/ro'', ''--'', ''sh''] = Inr opts \<and>
     so_attachment opts = RouteRequiredCtx 1 ''/r/s'' \<and> (\<forall>cmd. run_plan demo_pane [''lock''] = Inr cmd \<longrightarrow> \<not> needs_card cmd)"
proof -
  let ?args = "[''--alias=ro'', ''--source-label=a:p/ro'', ''--'', ''sh'']"
  have l: "mn_lookup demo_pane EnvMode = Some ModeRouteRequired" "mn_lookup demo_pane EnvRouteSocket = Some ''/r/s''"
      "mn_lookup demo_pane EnvProtocol = Some ''1''" "mn_lookup demo_pane ''XDG_RUNTIME_DIR'' = Some ''/run''"
    by (simp_all add: demo_pane_def EnvMode_def EnvRouteSocket_def EnvProtocol_def ModeRouteRequired_def)
  have v: "ValidateRoute ''/r/s'' = None" by (simp add: ValidateRoute_def is_abs_def has_prefix_def path_clean_def)
  have p: "parse_int 64 ''1'' = Some ProtocolEnvironment"
    by (simp add: parse_int_def digits_value_def char_defs ProtocolEnvironment_def)
  have e: "FromEnvironment (getenv_of (mn_lookup demo_pane)) = Inr (RouteRequiredCtx ProtocolEnvironment ''/r/s'')"
    by (simp add: FromEnvironment_Inr getenv_of_def l v p)
  have r: "RouteRequired (RouteRequiredCtx ProtocolEnvironment ''/r/s'')" by (simp add: RouteRequired_def RouteRequiredCtx_def)
  have f: "parse_flags session_flags [''--alias=ro'', ''--source-label=a:p/ro''] [] = Inr ([(''source-label'', ''a:p/ro''), (''alias'', ''ro'')], [])"
    by (simp add: session_flags_def string_flags_def flag_arg_def flag_parts_def)
  obtain opts where o: "agentSessionCommand demo_pane (Inr demo_config) ''/w'' ?args = Inr opts"
    by (simp add: agentSessionCommand_def f flag_value_def e WithExplicitRoute_def r getenv_of_def l Let_def del: parse_flags.simps)
  from managed_pane_confined [OF e r, where loaded = "Inr demo_config" and wifSocket = "''/w''" and args = ?args and opts = opts] o
  have "so_attachment opts = RouteRequiredCtx 1 ''/r/s''" by (simp add: ProtocolEnvironment_def)
  with o managed_pane_confined [OF e r, where args = "[''lock'']"] show ?thesis by blast
qed

end
