(* ===== verification/Service.thy ===== *)
theory Service
  imports Main_Cmd Agent_Api
begin

text \<open>
  The daemon as its peers see it: the routes each API registers with \<open>http.ServeMux\<close>
  (\<open>Handler\<close> of \<open>agentapi\<close>, \<open>wifapi\<close> and \<open>forwardapi\<close>), behind the peer check of \<open>uds\<close>, over one core. A
  request carries its bytes; \<open>decoders\<close> are \<open>encoding/json\<close>'s readings of them as each handler's
  type, and \<open>around\<close> is what the card, the clock and the network answer while it is handled.
\<close>

subsection \<open>Routing\<close>

text \<open>\<open>net/http.cleanPath\<close>: \<open>path.Clean\<close> that keeps a trailing slash.\<close>

definition clean_url_path :: "string \<Rightarrow> string" where
  "clean_url_path p =
     (if p = [] then [slash]
      else let p1 = (if hd p = slash then p else slash # p); np = path_clean p1
           in if last p1 = slash \<and> np \<noteq> [slash] then np @ [slash] else np)"

definition segment_unescape :: "string \<Rightarrow> string" where
  "segment_unescape s = (case path_unescape s of Some t \<Rightarrow> t | None \<Rightarrow> s)"

definition same_path :: "string \<Rightarrow> string \<Rightarrow> bool" where
  "same_path pattern p \<longleftrightarrow> split_on slash pattern = map segment_unescape (split_on slash p)"

text \<open>\<open>ServeMux.findHandler\<close> for patterns of a method and a literal path. A path that is not clean
  is redirected; a \<open>GET\<close> pattern also takes \<open>HEAD\<close>.\<close>

datatype 'h mux_answer = Handled 'h | Redirected string | MethodNotAllowed | NotFound

definition mux :: "(string \<times> string \<times> 'h) list \<Rightarrow> string \<Rightarrow> string \<Rightarrow> 'h mux_answer" where
  "mux routes verb p =
     (let p1 = (if verb = ''CONNECT'' then p else clean_url_path p);
          here = filter (\<lambda>(m, pattern, h). same_path pattern p1) routes
      in if p1 \<noteq> p then Redirected p1
         else case filter (\<lambda>(m, pattern, h). m = verb \<or> m = ''GET'' \<and> verb = ''HEAD'') here of
             (m, pattern, h) # _ \<Rightarrow> Handled h
           | [] \<Rightarrow> if here = [] then NotFound else MethodNotAllowed)"

datatype endpoint =
    Health | ReportStatus | DoUnlock | DoLock
  | MintToken
  | ShowPolicy | DescribeCard | MintForwarded | Invalidate

definition control_routes :: "(string \<times> string \<times> endpoint) list" where
  "control_routes =
     [(''GET'', ''/v1/health'', Health), (''GET'', ''/v1/status'', ReportStatus), (''POST'', ''/v1/unlock'', DoUnlock),
      (''POST'', ''/v1/lock'', DoLock)]"

definition wif_routes :: "(string \<times> string \<times> endpoint) list" where
  "wif_routes = [(''POST'', ''/v1/subject-token'', MintToken)]"

definition forward_routes :: "(string \<times> string \<times> endpoint) list" where
  "forward_routes =
     [(''GET'', ''/v1/policy'', ShowPolicy), (''GET'', ''/v1/describe'', DescribeCard), (''POST'', ''/v1/mint'', MintForwarded),
      (''POST'', ''/v1/invalidate'', Invalidate)]"

text \<open>The handler each server of \<open>serve\<close> is started with, by the server's label.\<close>

definition routes_of :: "string \<Rightarrow> (string \<times> string \<times> endpoint) list" where
  "routes_of server = (if server = ''control'' then control_routes else if server = ''wif'' then wif_routes else forward_routes)"

subsection \<open>Handling\<close>

record http_request =
  ht_verb :: string
  ht_path :: string
  ht_body :: bytes

record decoders =
  dc_pin :: "bytes \<Rightarrow> string request_body"
  dc_wif :: "bytes \<Rightarrow> wif_request request_body"
  dc_mint :: "bytes \<Rightarrow> mint_request request_body"
  dc_invalidate :: "bytes \<Rightarrow> invalidate_request request_body"

record around =
  ar_now :: gotime
  ar_verify :: "string \<Rightarrow> u32 \<times> int \<times> gerror option"
  ar_sign :: sign_env
  ar_hardware :: hardware
  ar_token :: token_env
  ar_forward :: forward_env

datatype served =
    HealthServed
  | StatusServed core_status
  | UnlockServed unlock_reply
  | LockServed
  | TokenServed token_response
  | PolicyServed policy
  | DescriptionServed description
  | MintServed mint_response
  | InvalidateServed invalidate_response
  | RefusedByMux

fun unlock_status :: "unlock_reply \<Rightarrow> int" where
  "unlock_status (Unlocked n) = 200" | "unlock_status (PINRejected e n) = 403" | "unlock_status (UnlockFailed status e) = status"

definition serve_endpoint :: "crypto \<Rightarrow> decoders \<Rightarrow> endpoint \<Rightarrow> bytes \<Rightarrow> around \<Rightarrow> core \<Rightarrow> served reply \<times> core" where
  "serve_endpoint cr dc ep body ar c =
     (let be = forwardBackend cr (with_hardware (ar_sign ar) (ar_hardware ar) (ar_forward ar)) in
      case ep of
        Health \<Rightarrow> (Reply 200 HealthServed, c)
      | ReportStatus \<Rightarrow> (Reply 200 (StatusServed (Status c (ar_now ar))), c)
      | DoUnlock \<Rightarrow> (case control_unlock (ar_verify ar) (dc_pin dc body) c of (r, c') \<Rightarrow> (Reply (unlock_status r) (UnlockServed r), c'))
      | DoLock \<Rightarrow> (Reply 200 LockServed, snd (control_lock c))
      | MintToken \<Rightarrow> apfst (map_reply TokenServed)
          (wif_subjectToken (SubjectToken cr (hardware_env (ar_sign ar) (ar_hardware ar) (ar_token ar))) (dc_wif dc body) c)
      | ShowPolicy \<Rightarrow> apfst (map_reply PolicyServed) (handle_policy be c)
      | DescribeCard \<Rightarrow> apfst (map_reply DescriptionServed) (handle_describe be c)
      | MintForwarded \<Rightarrow> apfst (map_reply MintServed) (handle_mint be (dc_mint dc body) c)
      | Invalidate \<Rightarrow> apfst (map_reply InvalidateServed) (handle_invalidate be (dc_invalidate dc body) c))"

definition api_handler :: "crypto \<Rightarrow> decoders \<Rightarrow> string \<Rightarrow> http_request \<times> around \<Rightarrow> core \<Rightarrow> served reply \<times> core" where
  "api_handler cr dc server q c =
     (case mux (routes_of server) (ht_verb (fst q)) (ht_path (fst q)) of
        Handled ep \<Rightarrow> serve_endpoint cr dc ep (ht_body (fst q)) (snd q) c
      | Redirected p \<Rightarrow> (Reply 301 RefusedByMux, c)
      | MethodNotAllowed \<Rightarrow> (Reply 405 RefusedByMux, c)
      | NotFound \<Rightarrow> (Reply 404 RefusedByMux, c))"

text \<open>The requests of all servers in the order the core sees them, each on a connection of its
  server with its peer's credentials.\<close>

type_synonym arrival = "string \<times> cred_answer \<times> http_request \<times> around"

fun daemon_run :: "crypto \<Rightarrow> decoders \<Rightarrow> u32 \<Rightarrow> arrival list \<Rightarrow> core \<Rightarrow> served reply list \<times> core" where
  "daemon_run cr dc uid [] c = ([], c)"
| "daemon_run cr dc uid ((server, conn, q) # rest) c =
     (case requirePeer (api_handler cr dc server) (peerCredentials conn uid) q c of
        (r, c1) \<Rightarrow> (case daemon_run cr dc uid rest c1 of (rs, c2) \<Rightarrow> (r # rs, c2)))"

subsection \<open>What the peers can do\<close>

fun changing :: "endpoint \<Rightarrow> bool" where
  "changing DoUnlock = True" | "changing DoLock = True" | "changing MintToken = True" | "changing MintForwarded = True"
| "changing Invalidate = True" | "changing _ = False"

text \<open>A request that can change the daemon: from its own user, and routed to one of the five
  endpoints that do something.\<close>

definition effective :: "u32 \<Rightarrow> arrival \<Rightarrow> bool" where
  "effective uid x \<longleftrightarrow> (case x of (server, conn, q, ar) \<Rightarrow> own_peer uid conn \<and>
     (case mux (routes_of server) (ht_verb q) (ht_path q) of Handled ep \<Rightarrow> changing ep | _ \<Rightarrow> False))"

text \<open>What a reply is worth: nothing to another user; a token answers the request that asked for
  it; a forwarded mint is the justified answer to a version 3 request.\<close>

definition reply_ok :: "crypto \<Rightarrow> config \<Rightarrow> decoders \<Rightarrow> u32 \<Rightarrow> arrival \<Rightarrow> served reply \<Rightarrow> bool" where
  "reply_ok cr cfg dc uid x r \<longleftrightarrow> (case x of (server, conn, q, ar) \<Rightarrow>
     if \<not> own_peer uid conn then r = ErrorReply 403 peer_refusal
     else case r of
         Reply n (TokenServed t) \<Rightarrow> n = 200 \<and> server = ''wif'' \<and>
           (\<exists>w att result. rb_value (dc_wif dc (ht_body q)) = Inr w \<and> token_for cr cfg (wif_core_request w att) result \<and>
              t = \<lparr>tr_id_token = st_token result, tr_expiration = unix_of (st_expires result)\<rparr>)
       | Reply n (MintServed m) \<Rightarrow> n = 200 \<and> server \<notin> {''control'', ''wif''} \<and>
           (\<exists>fq. rb_value (dc_mint dc (ht_body q)) = Inr fq \<and> mq_version fq = ProtocolVersion \<and> forward_justified cfg fq m)
       | _ \<Rightarrow> True)"

lemma unlock_reachable:
  assumes "core_reachable cr cfg version (c, Idle)"
  shows "core_reachable cr cfg version (snd (control_unlock verify b c), Idle)"
proof (cases "jsonhttp_Decode b")
  case (Inr pin)
  then have "snd (control_unlock verify b c) = snd (Unlock pin (verify pin) c)"
    by (simp add: control_unlock_def split: prod.split option.split)
  with core_reachable.step [OF assms core_step.unlock] show ?thesis by simp
qed (simp add: control_unlock_def assms)

lemma endpoint_keeps:
  assumes "core_reachable cr cfg version (c, Idle)"
  shows "core_reachable cr cfg version (snd (serve_endpoint cr dc ep body ar c), Idle)"
proof (cases ep)
  case DoUnlock
  with unlock_reachable [OF assms] show ?thesis by (simp add: serve_endpoint_def Let_def split: prod.split) (metis snd_conv)
next
  case DoLock
  with core_reachable.step [OF assms core_step.lock] show ?thesis by (simp add: serve_endpoint_def control_lock_def Let_def)
next
  case MintToken
  with daemon_core.subjectToken_keeps [OF assms] show ?thesis by (simp add: serve_endpoint_def Let_def)
next
  case ShowPolicy
  with daemon.serve_keeps [OF assms, of _ _ _ CallPolicy] show ?thesis by (simp add: serve_endpoint_def serve_call_def Let_def)
next
  case DescribeCard
  with daemon.serve_keeps [OF assms, of _ _ _ CallDescribe] show ?thesis by (simp add: serve_endpoint_def serve_call_def Let_def)
next
  case MintForwarded
  with daemon.handle_mint_keeps [OF assms] show ?thesis by (simp add: serve_endpoint_def Let_def)
next
  case Invalidate
  with daemon.handle_invalidate_keeps [OF assms] show ?thesis by (simp add: serve_endpoint_def Let_def)
qed (simp_all add: serve_endpoint_def assms Let_def)

lemma endpoint_pure: "\<not> changing ep \<Longrightarrow> snd (serve_endpoint cr dc ep body ar c) = c"
  by (cases ep) (simp_all add: serve_endpoint_def handle_policy_def handle_describe_def forwardBackend_def forward_Describe_def
      Let_def split: sum.split prod.split)

lemma map_reply_Reply: "map_reply f r = Reply n x \<longleftrightarrow> (\<exists>y. r = Reply n y \<and> x = f y)"
  by (cases r) auto

lemma mux_Handled: "mux routes verb p = Handled h \<Longrightarrow> h \<in> snd ` snd ` set routes"
  by (force simp: mux_def Let_def split: if_splits list.splits dest!: filter_eq_ConsD)

lemma handler_keeps:
  assumes "core_reachable cr cfg version (c, Idle)"
  shows "core_reachable cr cfg version (snd (api_handler cr dc server q c), Idle)"
  using assms endpoint_keeps [OF assms] by (simp add: api_handler_def split: mux_answer.split)

lemma handler_reply:
  assumes "core_reachable cr cfg version (c, Idle)" and "own_peer uid conn"
  shows "reply_ok cr cfg dc uid (server, conn, q, ar) (fst (api_handler cr dc server (q, ar) c))"
proof (cases "mux (routes_of server) (ht_verb q) (ht_path q)")
  case (Handled ep)
  let ?r = "fst (serve_endpoint cr dc ep (ht_body q) ar c)"
  have r: "fst (api_handler cr dc server (q, ar) c) = ?r" by (simp add: api_handler_def Handled)
  have e: "ep \<in> (snd \<circ> snd) ` set (routes_of server)" using mux_Handled [OF Handled] by (simp add: image_comp)
  have t: "n = 200 \<and> server = ''wif'' \<and> (\<exists>w att result. rb_value (dc_wif dc (ht_body q)) = Inr w \<and>
      token_for cr cfg (wif_core_request w att) result \<and> t = \<lparr>tr_id_token = st_token result, tr_expiration = unix_of (st_expires result)\<rparr>)"
    if "?r = Reply n (TokenServed t)" for n t
  proof -
    from that have ep: "ep = MintToken" by (cases ep) (auto simp: serve_endpoint_def map_reply_Reply Let_def split: prod.splits)
    with e have "server = ''wif''" by (auto simp: routes_of_def control_routes_def forward_routes_def split: if_splits)
    from that obtain c' where "wif_subjectToken (SubjectToken cr (hardware_env (ar_sign ar) (ar_hardware ar) (ar_token ar)))
        (dc_wif dc (ht_body q)) c = (Reply n t, c')"
      by (auto simp: ep serve_endpoint_def map_reply_Reply Let_def) (metis prod.collapse)
    from daemon_core.subjectToken_reply [OF assms(1) this] \<open>server = ''wif''\<close> show ?thesis by blast
  qed
  have m: "n = 200 \<and> server \<notin> {''control'', ''wif''} \<and> (\<exists>fq. rb_value (dc_mint dc (ht_body q)) = Inr fq \<and>
      mq_version fq = ProtocolVersion \<and> forward_justified cfg fq a)"
    if "?r = Reply n (MintServed a)" for n a
  proof -
    from that have ep: "ep = MintForwarded" by (cases ep) (auto simp: serve_endpoint_def map_reply_Reply Let_def split: prod.splits)
    with e have "server \<notin> {''control'', ''wif''}" by (auto simp: routes_of_def control_routes_def wif_routes_def split: if_splits)
    from that obtain c' where "handle_mint (forwardBackend cr (with_hardware (ar_sign ar) (ar_hardware ar) (ar_forward ar)))
        (dc_mint dc (ht_body q)) c = (Reply n a, c')"
      by (auto simp: ep serve_endpoint_def map_reply_Reply Let_def) (metis prod.collapse)
    from daemon.mint_reply [OF assms(1) this] \<open>server \<notin> {''control'', ''wif''}\<close> show ?thesis by blast
  qed
  show ?thesis unfolding r reply_ok_def using assms(2) t m by (auto split: reply.split served.split)
qed (simp_all add: api_handler_def reply_ok_def assms(2))

lemma handler_pure:
  "own_peer uid conn \<Longrightarrow> \<not> effective uid (server, conn, q, ar) \<Longrightarrow> snd (api_handler cr dc server (q, ar) c) = c"
  by (simp add: effective_def api_handler_def endpoint_pure split: mux_answer.splits)

text \<open>C1: the daemon behind its sockets. Take any requests on the control, the signing and the
  forwarding socket, from any users and in any order, whatever the card, the clock and the
  network answer meanwhile: the core stays in a state it can reach; another user gets the
  refusal and nothing else; a token on the signing socket is a token for the request that asked
  for it, a forwarded mint is a justified version 3 answer, and neither is ever served on another
  socket; and the final state is the one that the effective requests alone lead to, the ones of
  the daemon's own user that reach unlock, lock, mint or invalidate.\<close>

theorem daemon_confined:
  assumes "core_reachable cr cfg version (c, Idle)" and "daemon_run cr dc uid reqs c = (rs, c')"
  shows "core_reachable cr cfg version (c', Idle) \<and> list_all2 (reply_ok cr cfg dc uid) reqs rs \<and>
    c' = snd (daemon_run cr dc uid (filter (effective uid) reqs) c)"
  using assms
proof (induction reqs arbitrary: c rs)
  case (Cons x reqs)
  obtain server conn q ar where x: "x = (server, conn, q, ar)" by (metis prod.exhaust)
  obtain r c1 where h: "requirePeer (api_handler cr dc server) (peerCredentials conn uid) (q, ar) c = (r, c1)" by (metis prod.exhaust)
  obtain rs1 where d: "daemon_run cr dc uid reqs c1 = (rs1, c')" "rs = r # rs1"
    using Cons.prems(2) by (auto simp: x h split: prod.splits)
  have one: "core_reachable cr cfg version (c1, Idle) \<and> reply_ok cr cfg dc uid x r \<and> (effective uid x \<or> c1 = c)"
  proof (cases "own_peer uid conn")
    case True
    with h have a: "api_handler cr dc server (q, ar) c = (r, c1)" by (simp add: requirePeer_allowed)
    from handler_keeps [OF Cons.prems(1), of dc server "(q, ar)"] handler_reply [OF Cons.prems(1) True, of dc server q ar]
      handler_pure [OF True, of server q ar cr dc c] show ?thesis by (auto simp: a x)
  next
    case False
    with h Cons.prems(1) show ?thesis by (simp add: requirePeer_refused x reply_ok_def)
  qed
  from Cons.IH [OF _ d(1)] one have ih: "core_reachable cr cfg version (c', Idle)" "list_all2 (reply_ok cr cfg dc uid) reqs rs1"
      "c' = snd (daemon_run cr dc uid (filter (effective uid) reqs) c1)" by blast+
  then show ?case using one h by (auto simp: x d(2) split: prod.split)
qed simp

text \<open>Every registered route is reached by its method and path, and \<open>POST\<close> routes by nothing else.\<close>

lemma routes_reached:
  "list_all (\<lambda>server. list_all (\<lambda>(m, p, h). mux (routes_of server) m p = Handled h \<and>
     (m = ''GET'' \<or> list_all (\<lambda>v. mux (routes_of server) v p = MethodNotAllowed) [''GET'', ''HEAD'', ''PUT'', ''DELETE'', ''CONNECT'']))
     (routes_of server)) [''control'', ''wif'', ''forward'']"
  by code_simp

text \<open>Another user tries to lock the daemon; then its own user does.\<close>

definition demo_decoders :: decoders where
  "demo_decoders = \<lparr>dc_pin = body_of, dc_wif = (\<lambda>b. \<lparr>rb_read = Some ErrLocked, rb_peek = None, rb_value = Inl ErrLocked, rb_more = False\<rparr>),
     dc_mint = (\<lambda>b. \<lparr>rb_read = Some ErrLocked, rb_peek = None, rb_value = Inl ErrLocked, rb_more = False\<rparr>),
     dc_invalidate = (\<lambda>b. \<lparr>rb_read = Some ErrLocked, rb_peek = None, rb_value = Inl ErrLocked, rb_more = False\<rparr>)\<rparr>"

definition demo_around :: around where
  "demo_around = \<lparr>ar_now = demo_now, ar_verify = (\<lambda>pin. (7, 3, None)), ar_sign = demo_sign_env, ar_hardware = demo_hardware,
     ar_token = fw_token demo_forward_env, ar_forward = demo_forward_env\<rparr>"

definition demo_arrivals :: "arrival list" where
  "demo_arrivals = map (\<lambda>uid. (''control'', demo_peer uid, \<lparr>ht_verb = ''POST'', ht_path = ''/v1/lock'', ht_body = []\<rparr>, demo_around)) [1001, 1000]"

theorem daemon_confined_witness:
  "\<exists>c'. daemon_run demo_crypto demo_decoders 1000 demo_arrivals (New demo_config ''1'') = ([ErrorReply 403 peer_refusal, Reply 200 LockServed], c') \<and>
     core_reachable demo_crypto demo_config ''1'' (c', Idle)"
proof -
  obtain rs c' where d: "daemon_run demo_crypto demo_decoders 1000 demo_arrivals (New demo_config ''1'') = (rs, c')" by (metis prod.exhaust)
  from daemon_confined [OF core_reachable.start d] have "list_all2 (reply_ok demo_crypto demo_config demo_decoders 1000) demo_arrivals rs"
      "core_reachable demo_crypto demo_config ''1'' (c', Idle)" by blast+
  moreover have "mux control_routes ''POST'' ''/v1/lock'' = Handled DoLock" by code_simp
  ultimately show ?thesis using d
    by (auto simp: demo_arrivals_def list_all2_Cons1 reply_ok_def own_peer_def demo_peer_def requirePeer_def peerCredentials_def
        no_peer_def api_handler_def routes_of_def serve_endpoint_def control_lock_def Let_def)
qed

end
