(* ===== verification/Core_Vault.thy ===== *)
theory Core_Vault
  imports Core_Genuine
begin

text \<open>
  What the core promises, without buffers, cache entries, clocks or sections: a vault knows the
  card whose PIN it holds and the assertions it can hand out again. Every section of the
  concurrent core is a step of the vault (a simulation along the function \<open>vault_of\<close>), so what is
  proved of the vault holds of the daemon.
\<close>

subsection \<open>The vault\<close>

type_synonym assertion = "reuse_key \<times> card_identity \<times> gotime \<times> string"

record vault =
  va_card :: "u32 option"
  va_held :: "assertion set"

datatype vault_event =
    Unlocked u32
  | Locked
  | Forgotten
  | Retired "assertion set"
  | Revoked string u64
  | Kept assertion

fun assertion_serial :: "assertion \<Rightarrow> u32" where
  "assertion_serial (k, crd, expires, token) = ci_serial crd"

fun assertion_genuine :: "crypto \<Rightarrow> config \<Rightarrow> assertion \<Rightarrow> bool" where
  "assertion_genuine cr cfg (k, crd, expires, token) = minted cr cfg k crd expires token"

definition from_card :: "u32 \<Rightarrow> assertion set \<Rightarrow> assertion set" where
  "from_card serial A = {a \<in> A. assertion_serial a = serial}"

text \<open>Unlocking keeps the assertions of the unlocked card only; locking empties the vault; a PIN
  that is not cached is forgotten; assertions retire, or are revoked with their claim; and an
  assertion is kept only when it is genuine and from the card in use.\<close>

inductive vault_step :: "crypto \<Rightarrow> config \<Rightarrow> vault \<Rightarrow> vault_event \<Rightarrow> vault \<Rightarrow> bool" for cr :: crypto and cfg :: config where
  unlocked: "vault_step cr cfg v (Unlocked serial) \<lparr>va_card = Some serial, va_held = from_card serial (va_held v)\<rparr>"
| locked: "vault_step cr cfg v Locked \<lparr>va_card = None, va_held = {}\<rparr>"
| forgotten: "vault_step cr cfg v Forgotten (v\<lparr>va_card := None\<rparr>)"
| retired: "vault_step cr cfg v (Retired S) (v\<lparr>va_held := va_held v - S\<rparr>)"
| revoked: "vault_step cr cfg v (Revoked w g) (v\<lparr>va_held := {a \<in> va_held v. \<not> claim_covered w g (fst a)}\<rparr>)"
| kept: "vault_step cr cfg v (Kept a) (v\<lparr>va_held := H\<rparr>)"
    if "assertion_genuine cr cfg a" and "va_card v \<in> {None, Some (assertion_serial a)}" and "H \<subseteq> insert a (va_held v)"

inductive_cases vault_stepE: "vault_step cr cfg v ev v'"

inductive_simps vault_unlocks: "vault_step cr cfg v (Unlocked serial) v'"
inductive_simps vault_locks: "vault_step cr cfg v Locked v'"
inductive_simps vault_revokes: "vault_step cr cfg v (Revoked w g) v'"

inductive vault_reachable :: "crypto \<Rightarrow> config \<Rightarrow> vault \<Rightarrow> bool" for cr :: crypto and cfg :: config where
  empty: "vault_reachable cr cfg \<lparr>va_card = None, va_held = {}\<rparr>"
| step: "vault_reachable cr cfg v \<Longrightarrow> vault_step cr cfg v ev v' \<Longrightarrow> vault_reachable cr cfg v'"

text \<open>What a vault is worth: genuine assertions, and of one card while it is unlocked.\<close>

definition vault_ok :: "crypto \<Rightarrow> config \<Rightarrow> vault \<Rightarrow> bool" where
  "vault_ok cr cfg v \<longleftrightarrow> (\<forall>a\<in>va_held v. assertion_genuine cr cfg a) \<and>
     (case va_card v of None \<Rightarrow> True | Some serial \<Rightarrow> va_held v = from_card serial (va_held v))"

lemma vault_step_ok: "vault_step cr cfg v ev v' \<Longrightarrow> vault_ok cr cfg v \<Longrightarrow> vault_ok cr cfg v'"
  by (induction rule: vault_step.induct) (auto simp: vault_ok_def from_card_def split: option.splits)

lemma vault_reachable_ok: "vault_reachable cr cfg v \<Longrightarrow> vault_ok cr cfg v"
proof (induction rule: vault_reachable.induct)
  case empty
  show ?case by (simp add: vault_ok_def)
next
  case (step v ev v')
  from vault_step_ok [OF step.hyps(2) step.IH] show ?case .
qed

subsection \<open>The core is a vault\<close>

definition vault_of :: "core \<Rightarrow> vault" where
  "vault_of c = \<lparr>va_card = (if c_pin c = None then None else Some (c_pin_serial c)), va_held = assertions c\<rparr>"

lemma vault_of_simps [simp]:
  "va_card (vault_of c) = (if c_pin c = None then None else Some (c_pin_serial c))" "va_held (vault_of c) = assertions c"
  by (simp_all add: vault_of_def)

lemma vault_eqI: "va_card v = va_card v' \<Longrightarrow> va_held v = va_held v' \<Longrightarrow> v = (v' :: vault)"
  by simp

text \<open>A section that only drops, and leaves the PIN alone, retires.\<close>

lemma retires:
  assumes "assertions c' \<subseteq> assertions c" and "c_pin c' = c_pin c" and "c_pin_serial c' = c_pin_serial c"
  shows "\<exists>ev. vault_step cr cfg (vault_of c) ev (vault_of c')"
proof -
  have "vault_of c' = (vault_of c)\<lparr>va_held := va_held (vault_of c) - (assertions c - assertions c')\<rparr>"
    using assms by (auto simp: vault_of_def)
  then show ?thesis using vault_step.retired [of cr cfg "vault_of c"] by metis
qed

lemma assertions_drop:
  assumes "core_shape c"
  shows "assertions (snd (drop_where P c)) =
    (\<lambda>(k, e). (k, entry_card e, ce_expires e, buffer c (ce_token e))) ` {(k, e). (k, e) \<in> set (c_cache c) \<and> \<not> P k e}"
  unfolding assertions_def by (rule image_cong) (auto intro: buffer_drop_where_kept [OF assms])

lemma assertions_other_serials:
  assumes "core_shape c"
  shows "assertions (snd (purgeOtherSerials serial c)) = from_card serial (assertions c)"
proof -
  have "assertions (wakeNotifier d) = assertions d" for d by (simp add: assertions_def)
  then have "assertions (snd (purgeOtherSerials serial c)) = assertions (snd (drop_where (\<lambda>k e. ce_serial e \<noteq> serial) c))"
    unfolding purgeOtherSerials_def purge_where_eq Let_def snd_conv by (simp split: if_split)
  also have "\<dots> = from_card serial (assertions c)"
    unfolding assertions_drop [OF assms] unfolding assertions_def from_card_def
    by (rule set_eqI) (force simp: entry_card_def)
  finally show ?thesis .
qed

lemma assertions_revoked:
  assumes "core_shape c" and "w \<noteq> []"
  shows "assertions (snd (InvalidateWorkspace w g c)) = {a \<in> assertions c. \<not> claim_covered w g (fst a)}"
proof -
  have "assertions (snd (InvalidateWorkspace w g c)) = assertions (snd (drop_where (\<lambda>k e. claim_covered w g k) c))"
    using assms(2) by (simp add: assertions_def InvalidateWorkspace_buffer InvalidateWorkspace_cache)
  then show ?thesis using assertions_drop [OF assms(1), of "\<lambda>k e. claim_covered w g k"] by (force simp: assertions_def)
qed

lemma locks:
  "c_pin c' = None \<Longrightarrow> c_cache c' = [] \<Longrightarrow> vault_step cr cfg (vault_of c) Locked (vault_of c')"
  by (simp add: vault_locks vault_of_def assertions_def)

lemma vault_recordPIN:
  assumes "core_inv L c"
  shows "\<exists>ev. vault_step cr cfg (vault_of c) ev (vault_of (recordPINVerification serial err c))"
proof -
  let ?clear = "case err of Some e \<Rightarrow> errors_as node_pin e | None \<Rightarrow> None"
  consider (dropped) "recordPINVerification serial err c = snd (purgeAll (clearPIN c))" | (same) "recordPINVerification serial err c = c"
    | (card) "c_pin c \<noteq> None" "recordPINVerification serial err c = snd (purgeOtherSerials serial (c\<lparr>c_pin_serial := serial\<rparr>))"
  proof (cases ?clear)
    case None
    then show thesis using same card
      by (cases "serial \<noteq> 0 \<and> c_pin c \<noteq> None \<and> buffer c (the (c_pin c)) \<noteq> []") (auto simp: recordPINVerification_def)
  next
    case (Some x)
    then show thesis using dropped same by (cases x; cases "snd (snd (snd x))") (auto simp: recordPINVerification_def split: if_splits)
  qed
  then show ?thesis
  proof cases
    case dropped
    have "vault_step cr cfg (vault_of c) Locked (vault_of (snd (purgeAll (clearPIN c))))" by (rule locks) simp_all
    with dropped show ?thesis by auto
  next
    case same
    then show ?thesis using retires [of c c] by simp
  next
    case card
    let ?c = "c\<lparr>c_pin_serial := serial\<rparr>"
    have "core_shape ?c" using core_inv_shape [OF assms] by (simp add: core_shape_def tokens_def)
    moreover have "assertions ?c = assertions c" by (rule assertions_frame) (simp_all add: buffer_def)
    ultimately have "vault_step cr cfg (vault_of c) (Unlocked serial) (vault_of (snd (purgeOtherSerials serial ?c)))"
      using card(1) assertions_other_serials by (simp add: vault_unlocks vault_of_def purgeOtherSerials_def)
    with card(2) show ?thesis by auto
  qed
qed

lemma vault_Unlock:
  assumes "core_inv {} c" and "pin \<noteq> []" and "\<not> CardFree (c_cfg c)"
  shows "vault_step cr cfg (vault_of c) (Unlocked serial) (vault_of (snd (Unlock pin (serial, retries, None) c)))"
proof -
  let ?c1 = "clearPIN c" let ?c2 = "?c1\<lparr>c_bufs := c_bufs ?c1 @ [pin]\<rparr>"
  let ?c3 = "?c2\<lparr>c_pin := Some (length (c_bufs ?c1)), c_pin_serial := serial\<rparr>"
  have s: "core_shape c" "core_shape ?c1" using core_inv_shape assms(1) clearPIN_inv [OF assms(1)] by auto
  have "core_inv {} ?c3" using set_pin_inv [of "length (c_bufs ?c1)" "{}" ?c2 serial]
      alloc_inv [OF clearPIN_inv [OF assms(1)], of pin "length (c_bufs ?c1)" ?c2] by (simp add: alloc_def tokens_def)
  moreover have "assertions ?c3 = assertions ?c1" using alloc_assertions [OF s(2), of pin] by (simp add: assertions_def)
  moreover have "assertions ?c1 = assertions c"
    using assertions_frame [of ?c1 c] buffer_clearPIN [of c] s(1) by (auto simp: core_shape_def)
  moreover have "snd (Unlock pin (serial, retries, None) c) = snd (purgeOtherSerials serial ?c3)"
    using assms(2,3) by (simp add: Unlock_def alloc_def Let_def)
  ultimately show ?thesis using assertions_other_serials [OF core_inv_shape, of "{}" ?c3]
    by (simp add: vault_unlocks vault_of_def purgeOtherSerials_def)
qed

lemma vault_invalidate:
  "core_shape c \<Longrightarrow> w \<noteq> [] \<Longrightarrow> vault_step cr cfg (vault_of c) (Revoked w g) (vault_of (snd (InvalidateWorkspace w g c)))"
  by (simp add: vault_revokes vault_of_def assertions_revoked)

lemma vault_keepMint:
  assumes "sys_inv cfg (c, Keeping mx pin now serial kid entry)" and "genuine_inv cr cfg (c, Keeping mx pin now serial kid entry)"
  shows "\<exists>ev. vault_step cr cfg (vault_of c) ev (vault_of (keepMint mx now serial kid entry c))"
proof -
  obtain r l where k: "keepMint mx now serial kid entry c =
      (let q = insert_entry entry (recordMint r (c\<lparr>c_last := l\<rparr>)) in if fst q then wakeNotifier (snd q) else snd q)"
    using keepMint_ex by blast
  define c2 where "c2 = recordMint r (c\<lparr>c_last := l\<rparr>)"
  have t: "tokens c2 = tokens c" "buffer c2 = buffer c" "length (c_bufs c2) = length (c_bufs c)" "c_pin c2 = c_pin c"
      "c_pin_serial c2 = c_pin_serial c"
    by (simp_all add: c2_def tokens_def)
  have a: "assertions c2 = assertions c" by (simp add: c2_def assertions_def)
  have w: "vault_of (wakeNotifier d) = vault_of d" for d by (simp add: vault_of_def assertions_def)
  show ?thesis
  proof (cases entry)
    case None
    have "keepMint mx now serial kid entry c = c2" unfolding k c2_def by (simp add: None insert_entry_def Let_def)
    with t a retires [of c2 c] show ?thesis by simp
  next
    case (Some e)
    from assms(1) have f: "core_inv (insert (ce_token e) {pin}) c" "ce_token e < length (c_bufs c)" "ce_token e \<notin> set (tokens c)"
        "c_pin c \<noteq> Some (ce_token e)" "on_card (ce_serial e) c"
      by (simp_all add: Some sys_inv_def fresh_entry_def)
    have i: "core_inv (insert (ce_token e) {pin}) c2" using recordMint_inv f(1) by (simp add: c2_def)
    let ?q = "snd (insert_entry (Some e) c2)" let ?a = "assertion_of c2 e"
    have q: "assertions ?q \<subseteq> insert ?a (assertions c2)" using insert_assertions [OF i] f(2-4) by (simp add: t)
    have "c_pin ?q = c_pin c2" "c_pin_serial ?q = c_pin_serial c2" using insert_entry_facts [OF i] f(2-4) by (simp_all add: t)
    moreover have "assertion_genuine cr cfg ?a" "va_card (vault_of c2) \<in> {None, Some (assertion_serial ?a)}"
      using assms(2) f(5) by (simp_all add: Some genuine_inv_def own_entry_def assertion_of_def entry_card_def on_card_def t)
    moreover from calculation have "vault_of ?q = (vault_of c2)\<lparr>va_held := assertions ?q\<rparr>" by (simp add: vault_of_def)
    ultimately have "vault_step cr cfg (vault_of c2) (Kept ?a) (vault_of ?q)"
      using vault_step.kept [of cr cfg ?a "vault_of c2" "assertions ?q"] q by (simp only: vault_of_simps)
    moreover have "vault_of c2 = vault_of c" using t a by (simp add: vault_of_def)
    moreover have "vault_of (keepMint mx now serial kid entry c) = vault_of ?q" unfolding k c2_def [symmetric] by (simp add: Some Let_def w)
    ultimately show ?thesis by auto
  qed
qed

subsection \<open>The simulation\<close>

text \<open>A step relation that implements another along an abstraction, while an invariant holds.\<close>

locale simulation =
  fixes concrete :: "'s \<Rightarrow> 's \<Rightarrow> bool" and ok :: "'s \<Rightarrow> bool" and abstraction :: "'s \<Rightarrow> 'a"
    and abstract :: "'a \<Rightarrow> 'e \<Rightarrow> 'a \<Rightarrow> bool"
  assumes simulates: "ok s \<Longrightarrow> concrete s s' \<Longrightarrow> \<exists>ev. abstract (abstraction s) ev (abstraction s')"
    and stays_ok: "ok s \<Longrightarrow> concrete s s' \<Longrightarrow> ok s'"
begin

lemma runs_simulated:
  assumes "concrete\<^sup>*\<^sup>* s s'" and "ok s"
  shows "ok s' \<and> (\<lambda>a a'. \<exists>ev. abstract a ev a')\<^sup>*\<^sup>* (abstraction s) (abstraction s')"
  using assms
proof (induction rule: rtranclp_induct)
  case (step s' s'')
  then have "ok s'" and r: "(\<lambda>a a'. \<exists>ev. abstract a ev a')\<^sup>*\<^sup>* (abstraction s) (abstraction s')" by blast+
  note rtranclp.rtrancl_into_rtrancl [OF r, of "abstraction s''"]
  with simulates [OF \<open>ok s'\<close> step.hyps(2)] stays_ok [OF \<open>ok s'\<close> step.hyps(2)] show ?case by (intro conjI) assumption+
qed simp

end

definition daemon_ok :: "crypto \<Rightarrow> config \<Rightarrow> sys \<Rightarrow> bool" where
  "daemon_ok cr cfg s \<longleftrightarrow> sys_inv cfg s \<and> genuine_inv cr cfg s"

lemma core_step_simulated:
  "core_step cr s s' \<Longrightarrow> daemon_ok cr cfg s \<Longrightarrow> \<exists>ev. vault_step cr cfg (vault_of (fst s)) ev (vault_of (fst s'))"
proof (induction rule: core_step.induct)
  case (card_changed probe e c mx now)
  then have "spares c (dropEntry (mx_key mx) c)" using spares_dropEntry sys_shape unfolding daemon_ok_def by blast
  then show ?case by (intro retires [OF conjunct1 [OF iffD1 [OF spares_def]]]) (simp_all add: dropEntry_def split: option.split)
next
  case (served probe e mx now c r c')
  then have "c_cache c' = c_cache c \<and> c_bufs c' = c_bufs c \<and> c_pin c' = c_pin c \<and> c_pin_serial c' = c_pin_serial c"
    by (auto simp: serveFinish_def Let_def split: option.splits if_splits)
  then show ?case using retires [of c' c] spares_frame [of c' c] by (simp add: spares_def)
next
  case (overtaken probe e mx now c c')
  then have "c' = c" by (auto simp: serveFinish_def Let_def split: option.splits if_splits)
  with retires [of c c] show ?case by simp
next
  case (locked c x c' mx)
  then have "c' = c" by (auto simp: takePIN_def Let_def split: option.splits if_splits prod.splits)
  with retires [of c c] show ?case by simp
next
  case (taken c pin c' mx)
  then have "assertions c' = assertions c" using takePIN_genuine [of "{}" c pin c'] by (simp add: daemon_ok_def sys_inv_def)
  moreover have "c_pin c' = c_pin c \<and> c_pin_serial c' = c_pin_serial c \<or> c_pin c' = None"
    using taken(1) by (auto simp: takePIN_def alloc_def Let_def split: option.splits if_splits)
  ultimately show ?case using retires [of c' c] vault_step.forgotten [of cr cfg "vault_of c"]
    by (auto simp: vault_of_def)
next
  case (no_jti random x c mx pin)
  then show ?case using zero_held_assertions [of pin c] retires [of "zero pin c" c] by (simp add: daemon_ok_def genuine_inv_def)
next
  case (begin_mint random jti c mx pin now)
  show ?case using retires [of "beginPendingMint (mx_key mx) c" c] spares_frame [of "beginPendingMint (mx_key mx) c" c]
    by (simp add: beginPendingMint_def spares_def)
next
  case (prepared mx token v completed serial snapshot c entry c' pin now)
  then have i: "core_inv {pin} c" by (simp add: daemon_ok_def sys_inv_def)
  from newCacheEntry_inv [OF i prepared(1)] have "c' = c \<or> c' = c\<lparr>c_bufs := c_bufs c @ [token]\<rparr>" by (cases entry) auto
  then show ?case using alloc_assertions [OF core_inv_shape [OF i], of token] retires [of c' c] by auto
next
  case (finish c pin)
  then have "held pin (endPendingMint c)" by (simp add: daemon_ok_def genuine_inv_def held_def endPendingMint_def tokens_def)
  from zero_held_assertions [OF this] show ?case using retires [of "zero pin (endPendingMint c)" c]
    by (simp add: endPendingMint_def assertions_def)
next
  case (unlock c pin verified)
  then have i: "core_inv {} c" by (simp add: daemon_ok_def sys_inv_def)
  obtain serial retries err where v: "verified = (serial, retries, err)" by (cases verified)
  show ?case
  proof (cases "pin = [] \<or> CardFree (c_cfg c) \<or> err \<noteq> None")
    case True
    then have "snd (Unlock pin verified c) = c" by (auto simp: v Unlock_def split: option.split)
    with retires [of c c] show ?thesis by simp
  next
    case False
    then have e: "err = None" and p: "pin \<noteq> []" "\<not> CardFree (c_cfg c)" by simp_all
    from vault_Unlock [OF i p, of cr cfg serial retries] show ?thesis unfolding v e fst_conv by blast
  qed
next
  case (invalidate c p w g)
  then have sh: "core_shape c" using sys_shape unfolding daemon_ok_def by blast
  show ?case
  proof (cases "w = []")
    case True
    then show ?thesis using retires [of c c] by (simp add: InvalidateWorkspace_def)
  next
    case False
    from vault_invalidate [OF sh this, of cr cfg g] show ?thesis unfolding fst_conv by blast
  qed
next
  case (sweep c p now)
  then show ?case using retires [of "snd (notifierSweep now c)" c] spares_sweep [of c now] sys_shape
    by (auto simp: daemon_ok_def spares_def)
next
  case (poll c p r)
  then show ?case using retires [of "pollReaders r c" c] spares_poll [of c r] sys_shape pollReaders_eq [of r c]
    by (auto simp: daemon_ok_def spares_def)
next
  case (routed c p rec ev)
  show ?case using retires [of "recordMint rec (c\<lparr>c_last := ev\<rparr>)" c] spares_frame [of "recordMint rec (c\<lparr>c_last := ev\<rparr>)" c]
    by (simp add: spares_def)
next
  case (lock c)
  from locks [of "Lock c" cr cfg c] show ?case by (auto simp: Lock_def)
next
  case (kept c mx pin now serial kid entry)
  then have "sys_inv cfg (c, Keeping mx pin now serial kid entry)" and "genuine_inv cr cfg (c, Keeping mx pin now serial kid entry)"
    unfolding daemon_ok_def by blast+
  from vault_keepMint [OF this] show ?case unfolding fst_conv .
qed (use retires vault_recordPIN in \<open>auto simp: daemon_ok_def sys_inv_def\<close>)

interpretation core_vault: simulation "core_step cr" "daemon_ok cr cfg" "\<lambda>s. vault_of (fst s)" "vault_step cr cfg"
  for cr :: crypto and cfg :: config
proof
  show "\<exists>ev. vault_step cr cfg (vault_of (fst s)) ev (vault_of (fst s'))" if "daemon_ok cr cfg s" and "core_step cr s s'" for s s'
    using core_step_simulated that by blast
  show "daemon_ok cr cfg s'" if "daemon_ok cr cfg s" and "core_step cr s s'" for s s'
    using core_step_inv core_step_genuine that unfolding daemon_ok_def by blast
qed

lemma core_reachable_runs:
  "core_reachable cr cfg version s \<Longrightarrow> (core_step cr)\<^sup>*\<^sup>* (New cfg version, Idle) s"
  by (induction rule: core_reachable.induct) (auto intro: rtranclp.rtrancl_into_rtrancl)

lemma vault_runs_reachable:
  "(\<lambda>v v'. \<exists>ev. vault_step cr cfg v ev v')\<^sup>*\<^sup>* v v' \<Longrightarrow> vault_reachable cr cfg v \<Longrightarrow> vault_reachable cr cfg v'"
  by (induction rule: rtranclp_induct) (auto intro: vault_reachable.step)

lemma vault_of_New [simp]: "vault_of (New cfg version) = \<lparr>va_card = None, va_held = {}\<rparr>"
  by (simp add: vault_of_def New_def assertions_def)

lemma reachable_ok: "core_reachable cr cfg version s \<Longrightarrow> daemon_ok cr cfg s"
  using core_reachable_inv core_reachable_genuine unfolding daemon_ok_def by blast

lemma reachable_vault:
  assumes "core_reachable cr cfg version (c, p)"
  shows "vault_reachable cr cfg (vault_of c)"
proof -
  have "daemon_ok cr cfg (New cfg version, Idle)" by (rule reachable_ok [OF core_reachable.start])
  from core_vault.runs_simulated [OF core_reachable_runs [OF assms] this] vault_runs_reachable [OF _ vault_reachable.empty]
  show ?thesis by simp
qed



end
