(* ===== verification/Core_Live.thy ===== *)
theory Core_Live
  imports Core_Steps Core_Sign
begin

text \<open>
  Progress of the concurrent core: the sections of a mint are never stuck, each brings it closer
  to its end whatever runs in between, and from every state the daemon can reach it can be
  brought to hold no secret at all.
\<close>

fun phase_rank :: "phase \<Rightarrow> nat" where
  "phase_rank Idle = 0"
| "phase_rank (Finishing pin) = 1"
| "phase_rank (Keeping mx pin now serial kid entry) = 2"
| "phase_rank (Signed mx pin now serial v token) = 3"
| "phase_rank (Signing mx pin now jti) = 4"
| "phase_rank (Holding mx pin) = 5"
| "phase_rank (Missed mx) = 6"
| "phase_rank (Probing mx now e) = 7"

lemma step_rank:
  "core_step cr s s' \<Longrightarrow> snd s \<noteq> Idle \<Longrightarrow> snd s' = snd s \<or> phase_rank (snd s') < phase_rank (snd s)"
  by (induction rule: core_step.induct) auto

lemma phase_rank_0: "phase_rank p = 0 \<longleftrightarrow> p = Idle"
  by (cases p) auto

text \<open>A mint that has begun has a next section, whatever the card, the readers and the random
  source answer.\<close>

text \<open>For every answer the hardware can give, the signing section has a successor.\<close>

lemma signing_section:
  assumes "signs cr c mx pin now jti senv hw = ((sig, serial, err), v)"
  shows "\<exists>c' p'. core_step cr (c, Signing mx pin now jti) (c', p') \<and> phase_rank p' < 4"
proof (cases "assembleMint sig err v")
  case (Inl x)
  from core_step.sign_failed [OF assms Inl] show ?thesis by force
next
  case (Inr token)
  from core_step.signed [OF assms Inr] show ?thesis by force
qed

lemma probing_section: "\<exists>c' p'. core_step cr (c, Probing mx now e) (c', p') \<and> phase_rank p' < 7"
proof (cases "cardUnchanged probe (ce_readers e)")
  case False
  from core_step.card_changed [OF this] show ?thesis by force
next
  case u: True
  obtain r c' where f: "serveFinish mx now e c = (r, c')" by force
  show ?thesis
  proof (cases r)
    case None
    from core_step.overtaken [OF u f [unfolded None]] show ?thesis by force
  next
    case (Some t)
    from core_step.served [OF u f [unfolded Some]] show ?thesis by force
  qed
qed

lemma missed_section: "\<exists>c' p'. core_step cr (c, Missed mx) (c', p') \<and> phase_rank p' < 6"
proof -
  obtain r c' where t: "takePIN c = (r, c')" by force
  show ?thesis
  proof (cases r)
    case (Inl x)
    from core_step.locked [OF t [unfolded Inl]] show ?thesis by force
  next
    case (Inr pin)
    from core_step.taken [OF t [unfolded Inr]] show ?thesis by force
  qed
qed

lemma holding_section: "\<exists>c' p'. core_step cr (c, Holding mx pin) (c', p') \<and> phase_rank p' < 5"
proof (cases "NewJTI random")
  case (Inl x)
  from core_step.no_jti [OF this] show ?thesis by force
next
  case (Inr jti)
  from core_step.begin_mint [OF this] show ?thesis by force
qed

lemma signed_section: "\<exists>c' p'. core_step cr (c, Signed mx pin now serial v token) (c', p') \<and> phase_rank p' < 3"
proof -
  obtain entry c' where "newCacheEntry mx token (ExpiresAt (mv_claims v)) completed serial (mv_kid v) (mv_spki v) snapshot c = (entry, c')"
    by force
  from core_step.prepared [OF this] show ?thesis by force
qed

text \<open>A mint that has begun is never stuck: it always has a next section of its own.\<close>

lemma mint_section: "p \<noteq> Idle \<Longrightarrow> \<exists>c' p'. core_step cr (c, p) (c', p') \<and> phase_rank p' < phase_rank p"
proof (cases p)
  case (Signing mx pin now jti)
  have "\<exists>c' p'. core_step cr (c, Signing mx pin now jti) (c', p') \<and> phase_rank p' < 4" if "signs cr c mx pin now jti senv hw = ((sig, serial, err), v)"
    for senv hw sig serial err v
    using signing_section [OF that] .
  then show ?thesis unfolding Signing by (simp, metis prod.exhaust)
next
  case (Keeping mx pin now serial kid entry)
  show ?thesis unfolding Keeping using core_step.kept by force
next
  case (Finishing pin)
  show ?thesis unfolding Finishing using core_step.finish by force
qed (use probing_section missed_section holding_section signed_section in simp_all)

lemma run_reachable:
  "core_reachable cr cfg version (f 0) \<Longrightarrow> (\<And>n. core_step cr (f n) (f (Suc n))) \<Longrightarrow> core_reachable cr cfg version (f n)"
  by (induction n) (auto intro: core_reachable.step)

subsection \<open>Fair runs\<close>

text \<open>A run is fair to the process at \<open>loc\<close> when its own steps are not put off for ever.\<close>

definition fair :: "('s \<Rightarrow> 's \<Rightarrow> bool) \<Rightarrow> ('s \<Rightarrow> 'p) \<Rightarrow> 'p \<Rightarrow> (nat \<Rightarrow> 's) \<Rightarrow> bool" where
  "fair step loc idle f \<longleftrightarrow>
     (\<forall>n. step (f n) (f (Suc n))) \<and> (\<forall>n. \<exists>m\<ge>n. loc (f m) = idle \<or> loc (f (Suc m)) \<noteq> loc (f m))"

lemma fair_step: "fair step loc idle f \<Longrightarrow> step (f n) (f (Suc n))"
  by (unfold fair_def, drule conjunct1, erule spec)

lemma fair_turn: "fair step loc idle f \<Longrightarrow> \<exists>m\<ge>k. loc (f m) = idle \<or> loc (f (Suc m)) \<noteq> loc (f m)"
  by (unfold fair_def, drule conjunct2, erule spec)

text \<open>What a process inside a larger system promises: the steps of the others leave it where it is
  and its own bring it closer to \<open>idle\<close>. Then it gets there in every fair run.\<close>

locale ranked_process =
  fixes step :: "'s \<Rightarrow> 's \<Rightarrow> bool" and loc :: "'s \<Rightarrow> 'p" and rank :: "'p \<Rightarrow> nat" and idle :: 'p
  assumes closer: "step s s' \<Longrightarrow> loc s \<noteq> idle \<Longrightarrow> loc s' = loc s \<or> rank (loc s') < rank (loc s)"
begin

lemma busy_rank:
  assumes "fair step loc idle f" and "\<And>n. n \<ge> k \<Longrightarrow> loc (f n) \<noteq> idle" and "n \<ge> k"
  shows "rank (loc (f n)) \<le> rank (loc (f k))"
  using assms(3)
proof (induction n rule: dec_induct)
  case (step n)
  from closer [OF fair_step [OF assms(1)] assms(2) [OF step.hyps(1)]] step.IH show ?case by force
qed simp

lemma never_busy_for_ever:
  assumes "fair step loc idle f"
  shows "\<exists>n\<ge>k. loc (f n) = idle"
proof (induction "rank (loc (f k))" arbitrary: k rule: less_induct)
  case less
  show ?case
  proof (rule ccontr)
    assume n: "\<not> (\<exists>n\<ge>k. loc (f n) = idle)"
    then obtain m where m: "m \<ge> k" "loc (f (Suc m)) \<noteq> loc (f m)" using fair_turn [OF assms, of k] by blast
    have "step (f m) (f (Suc m))" using assms by (rule fair_step)
    moreover have "loc (f m) \<noteq> idle" using m(1) n by blast
    ultimately have c: "loc (f (Suc m)) = loc (f m) \<or> rank (loc (f (Suc m))) < rank (loc (f m))" by (rule closer)
    from c m(2) have "rank (loc (f (Suc m))) < rank (loc (f m))" by simp
    also have "\<dots> \<le> rank (loc (f k))" by (rule busy_rank [OF assms _ m(1)]) (use n in blast)
    finally have "\<exists>n\<ge>Suc m. loc (f n) = idle" by (rule less)
    then obtain j where "j \<ge> Suc m" "loc (f j) = idle" by blast
    moreover have "k \<le> j" using \<open>j \<ge> Suc m\<close> m(1) by simp
    ultimately show False using n by blast
  qed
qed

end

interpretation mint_process: ranked_process "core_step cr" snd phase_rank Idle
  by unfold_locales (rule step_rank)

lemma locked_core_empty:
  assumes "core_reachable cr cfg version (c, Idle)"
  shows "c_pin (Lock c) = None" and "c_cache (Lock c) = []" and "all_zero (buffer (Lock c) a)"
proof -
  have "core_inv {} (Lock c)" using core_reachable_inv [OF assms] by (simp add: sys_inv_def Lock_inv)
  then show "c_pin (Lock c) = None" "c_cache (Lock c) = []" "all_zero (buffer (Lock c) a)"
    using all_zero_if_nothing by (simp_all add: Lock_def)
qed

text \<open>C10: the daemon always comes back. In every run of the concurrent core that does not put a
  mint's sections off for ever, whatever the card, the readers and the random source answer and
  however invalidations, sweeps, polls and routed mints come in between, a mint in progress has a
  next section that brings it closer to its end, every mint ends, and the daemon can then be
  locked, which leaves no PIN, no assertion and no secret byte in any buffer it ever
  allocated.\<close>

theorem fair_mint_completes:
  assumes "core_reachable cr cfg version (f 0)" and "fair (core_step cr) snd Idle f"
  shows "(\<exists>n\<ge>k. snd (f n) = Idle \<and> core_step cr (f n) (Lock (fst (f n)), Idle) \<and> c_pin (Lock (fst (f n))) = None \<and>
      c_cache (Lock (fst (f n))) = [] \<and> (\<forall>a. all_zero (buffer (Lock (fst (f n))) a))) \<and>
    (snd (f k) \<noteq> Idle \<longrightarrow> (\<exists>s'. core_step cr (f k) s' \<and> phase_rank (snd s') < phase_rank (snd (f k))))"
proof (intro conjI impI)
  obtain n c where n: "n \<ge> k" "f n = (c, Idle)" using mint_process.never_busy_for_ever [OF assms(2)] by (metis prod.collapse)
  have "core_step cr (f m) (f (Suc m))" for m using assms(2) by (rule fair_step)
  from run_reachable [OF assms(1) this, of n] have "core_reachable cr cfg version (c, Idle)" unfolding n(2) .
  from locked_core_empty [OF this] n core_step.lock [of cr c]
  show "\<exists>n\<ge>k. snd (f n) = Idle \<and> core_step cr (f n) (Lock (fst (f n)), Idle) \<and> c_pin (Lock (fst (f n))) = None \<and>
      c_cache (Lock (fst (f n))) = [] \<and> (\<forall>a. all_zero (buffer (Lock (fst (f n))) a))"
    by (intro exI [of _ n]) simp
next
  assume "snd (f k) \<noteq> Idle"
  from mint_section [OF this, of cr "fst (f k)"]
  show "\<exists>s'. core_step cr (f k) s' \<and> phase_rank (snd s') < phase_rank (snd (f k))" by force
qed

text \<open>A run in which a mint that holds a PIN and a fresh token keeps it, finishes, and nothing else
  happens.\<close>

definition demo_run :: "core \<Rightarrow> cache_entry \<Rightarrow> nat \<Rightarrow> sys" where
  "demo_run c e n =
     (let kept = keepMint demo_mx demo_now 7 demo_kid (Some e) c in
      if n = 0 then (c, Keeping demo_mx 1 demo_now 7 demo_kid (Some e))
      else if n = 1 then (kept, Finishing 1)
      else (zero 1 (endPendingMint kept), Idle))"

lemma demo_run_fair: "fair (core_step demo_crypto) snd Idle (demo_run c e)"
proof -
  have s: "core_step cr (d, Idle) (d, Idle)" for cr d
    using core_step.invalidate [of cr d Idle "[]" 0] by (simp add: InvalidateWorkspace_def)
  have "core_step demo_crypto (demo_run c e n) (demo_run c e (Suc n))" for n
    using core_step.kept [of demo_crypto c demo_mx 1 demo_now 7 demo_kid "Some e"] core_step.finish s
    by (simp add: demo_run_def Let_def)
  moreover have "\<exists>m\<ge>n. snd (demo_run c e m) = Idle" for n
    by (rule exI [of _ "n + 2"]) (simp add: demo_run_def Let_def)
  ultimately show ?thesis unfolding fair_def by blast
qed

theorem fair_mint_completes_witness:
  "\<exists>f. fair (core_step demo_crypto) snd Idle f \<and> snd (f 0) \<noteq> Idle \<and> (\<exists>n. snd (f n) = Idle \<and> all_zero (buffer (Lock (fst (f n))) 1))"
proof -
  obtain c e where r: "core_reachable demo_crypto demo_config ''1'' (c, Keeping demo_mx 1 demo_now 7 demo_kid (Some e))"
    using demo_keeping by blast
  then have "core_reachable demo_crypto demo_config ''1'' (demo_run c e 0)" by (simp add: demo_run_def Let_def)
  from fair_mint_completes [OF this demo_run_fair, of 0]
  have "\<exists>n. snd (demo_run c e n) = Idle \<and> all_zero (buffer (Lock (fst (demo_run c e n))) 1)" by blast
  moreover have "snd (demo_run c e 0) \<noteq> Idle" by (simp add: demo_run_def Let_def)
  ultimately show ?thesis using demo_run_fair by blast
qed

end
