(* ===== verification/Card_Free.thy ===== *)
theory Card_Free
  imports Main_Cmd Agent_Api Core_Live
begin

text \<open>
  A card-free origin (\<open>card = "none"\<close>) end to end: the daemon it starts, the states it can
  reach, and what its sockets answer.
\<close>

definition holds_nothing :: "config \<Rightarrow> sys \<Rightarrow> bool" where
  "holds_nothing cfg s \<longleftrightarrow> snd s = Idle \<and> c_pin (fst s) = None \<and> c_cache (fst s) = [] \<and> c_bufs (fst s) = [] \<and> c_cfg (fst s) = cfg"

lemma holds_nothing_frame:
  "holds_nothing cfg (c, p) \<Longrightarrow> c_pin c' = c_pin c \<Longrightarrow> c_cache c' = c_cache c \<Longrightarrow> length (c_bufs c') = length (c_bufs c) \<Longrightarrow>
    c_cfg c' = c_cfg c \<Longrightarrow> holds_nothing cfg (c', p)"
  by (simp add: holds_nothing_def)

lemma purge_nothing: "c_cache c = [] \<Longrightarrow> c_cache (snd (purge_where P c)) = [] \<and> c_bufs (snd (purge_where P c)) = c_bufs c"
  by (simp add: purge_where_def drop_where_def wakeNotifier_def Let_def)

lemma prepare_refused: "CardFree cfg \<Longrightarrow> prepareMint cfg req arrival = Inr mx \<Longrightarrow> False"
  by (simp add: prepareMint_def split: if_splits)

lemma card_free_step: "core_step cr s s' \<Longrightarrow> CardFree cfg \<Longrightarrow> holds_nothing cfg s \<Longrightarrow> holds_nothing cfg s'"
proof (induction rule: core_step.induct)
  case (unlock c pin verified)
  then have "snd (Unlock pin verified c) = c" by (simp add: Unlock_def holds_nothing_def)
  with unlock show ?case by simp
next
  case (lock c)
  have "c_bufs (clearPIN c) = []" using lock(2) clearPIN_frame(10) [of c] by (metis holds_nothing_def fst_conv length_0_conv)
  with lock show ?case using purge_nothing [of "clearPIN c\<lparr>c_last := None\<rparr>"] by (simp add: holds_nothing_def Lock_def purgeAll_def)
next
  case (invalidate c p w g)
  have "c_cache (snd (InvalidateWorkspace w g c)) = []" using invalidate(2)
    by (cases "w = []") (auto simp: InvalidateWorkspace_def [of "[]"] InvalidateWorkspace_cache holds_nothing_def)
  moreover have "length (c_bufs (snd (InvalidateWorkspace w g c))) = length (c_bufs c)" by (metis length_invalidate length_map)
  ultimately show ?case using invalidate(2) by (intro holds_nothing_frame [OF invalidate(2)]) (simp_all add: holds_nothing_def)
next
  case (sweep c p now)
  have "set (tokens (snd (notifierSweep now c))) = {}" using notifierSweep_shrinks(2) [of now c] sweep(2)
    by (simp add: holds_nothing_def tokens_def)
  then have "c_cache (snd (notifierSweep now c)) = []" by (simp add: tokens_def)
  moreover have "length (c_bufs (snd (notifierSweep now c))) = length (c_bufs c)" by (metis notifierSweep_frame(6) length_map)
  ultimately show ?case using sweep(2) by (intro holds_nothing_frame [OF sweep(2)]) (simp_all add: holds_nothing_def)
next
  case (poll c p r)
  then show ?case using pollReaders_eq [of r c] purge_nothing [of c] by (auto simp: holds_nothing_def)
qed (auto simp: holds_nothing_def dest: prepare_refused)

lemma card_free_reachable: "core_reachable cr cfg version s \<Longrightarrow> CardFree cfg \<Longrightarrow> holds_nothing cfg s"
proof (induction rule: core_reachable.induct)
  case start
  then show ?case by (simp add: holds_nothing_def New_def)
qed (blast intro: card_free_step)

lemma card_free_local: "CardFree (c_cfg c) \<Longrightarrow> \<exists>e. LocalSubjectToken cr env req c = (Inl e, c)"
  by (auto simp: LocalSubjectToken_def split: sum.split dest: prepare_refused)

lemma card_free_forward: "CardFree (c_cfg c) \<Longrightarrow> \<exists>e. forward_Mint cr env q c = (Inl e, c)"
proof -
  assume f: "CardFree (c_cfg c)"
  have l: "\<exists>e. SubjectToken cr (fw_token env) (forwarded_request q src) c = (Inl e, c)" for src
    using card_free_local [OF f] local_runs [of "forwarded_request q src"] by (simp add: forwarded_request_def)
  show ?thesis
  proof (cases "mq_source q")
    case (Some src)
    with l [of src] show ?thesis by (auto simp: forward_Mint_def)
  qed (simp add: forward_Mint_def)
qed

lemma card_free_describe: "CardFree (c_cfg c) \<Longrightarrow> \<exists>e. forward_Describe cr env c = (Inl e, c)"
  by (simp add: forward_Describe_def DescribeForwardProvider_def)

lemma card_free_unlock:
  assumes "CardFree (c_cfg c)"
  shows "snd (control_unlock verify b c) = c \<and> (\<forall>n. fst (control_unlock verify b c) \<noteq> Unlocked n)"
proof (cases "jsonhttp_Decode b")
  case (Inr pin)
  obtain e where "Unlock pin (verify pin) c = ((-1, Some e), c)" using assms by (cases "pin = []") (simp_all add: Unlock_def)
  with Inr show ?thesis by (simp add: control_unlock_def control_error_def split: option.split)
qed (simp add: control_unlock_def control_error_def)

lemma card_free_token:
  assumes "CardFree (c_cfg c)" and "SubjectToken cr env req c = (Inr r, c')"
  shows "RouteRequired (rq_attachment req) \<and> c_bufs c' = c_bufs c \<and> c_cache c' = c_cache c \<and>
    (\<exists>v. VerifyForwarded cr (st_token r) (st_spki r) = Inr v \<and> st_key_id r = vt_header_kid v \<and>
       map_of (KeysBySerial (c_cfg c)) (st_serial r) = Some \<lparr>kc_jwk_kid = st_key_id r\<rparr>)"
proof -
  have "RouteRequired (rq_attachment req)"
    using assms(2) card_free_local [OF assms(1), of cr "te_mint env" req] by (auto simp: SubjectToken_def split: option.splits if_splits)
  with assms(2) obtain req1 where t: "RouteSubjectToken cr (te_route env) (Some (c_cfg c)) req1 = Inr r"
      "c_bufs c' = c_bufs c \<and> c_cache c' = c_cache c"
    by (auto simp: SubjectToken_def Let_def split: option.splits if_splits sum.splits)
  with \<open>RouteRequired (rq_attachment req)\<close> show ?thesis
    by (auto simp: RouteSubjectToken_Inr verifyResponse_Inr)
qed

text \<open>C20: a card-free origin holds no secret and signs nothing. In every state such a daemon can
  reach no mint is under way and no PIN, no assertion and no secret buffer was ever allocated;
  unlocking, describing a card and minting for another origin are refused and change nothing;
  and whatever token it does hand out came over the request's route from a provider whose
  enrolled key signed it. It starts without asking PC/SC and opens no card.\<close>

theorem card_free_origin:
  assumes "core_reachable cr cfg version (c, p)" and "CardFree cfg"
  shows "p = Idle \<and> c_pin c = None \<and> c_cache c = [] \<and> c_bufs c = [] \<and>
    snd (control_unlock verify body c) = c \<and> (\<forall>n. fst (control_unlock verify body c) \<noteq> Unlocked n) \<and>
    (\<exists>e. forward_Mint cr fenv q c = (Inl e, c)) \<and> (\<exists>e. forward_Describe cr fenv c = (Inl e, c)) \<and>
    (case SubjectToken cr env req c of
       (Inl e, c') \<Rightarrow> c' = c
     | (Inr r, c') \<Rightarrow> RouteRequired (rq_attachment req) \<and> c_bufs c' = [] \<and> c_cache c' = [] \<and>
         (\<exists>v. VerifyForwarded cr (st_token r) (st_spki r) = Inr v \<and> st_key_id r = vt_header_kid v \<and>
            map_of (KeysBySerial cfg) (st_serial r) = Some \<lparr>kc_jwk_kid = st_key_id r\<rparr>)) \<and>
    (\<exists>d. serve (Inr cfg) readers sk = Inr d \<and> dm_card d = None)"
proof -
  have h: "holds_nothing cfg (c, p)" by (rule card_free_reachable [OF assms])
  then have f: "CardFree (c_cfg c)" using assms(2) by (simp add: holds_nothing_def)
  have "case SubjectToken cr env req c of
       (Inl e, c') \<Rightarrow> c' = c
     | (Inr r, c') \<Rightarrow> RouteRequired (rq_attachment req) \<and> c_bufs c' = [] \<and> c_cache c' = [] \<and>
         (\<exists>v. VerifyForwarded cr (st_token r) (st_spki r) = Inr v \<and> st_key_id r = vt_header_kid v \<and>
            map_of (KeysBySerial cfg) (st_serial r) = Some \<lparr>kc_jwk_kid = st_key_id r\<rparr>)"
  proof (cases "SubjectToken cr env req c")
    case (Pair t c')
    show ?thesis
    proof (cases t)
      case (Inl e)
      then have "c' = c" using Pair card_free_local [OF f, of cr "te_mint env" req]
        by (auto simp: SubjectToken_def Let_def split: option.splits if_splits sum.splits)
      with Inl Pair show ?thesis by simp
    next
      case (Inr r)
      with card_free_token [OF f Pair [unfolded Inr]] Pair h show ?thesis by (simp add: holds_nothing_def)
    qed
  qed
  with h card_free_unlock [OF f] card_free_forward [OF f] card_free_describe [OF f] serve_card_free [OF assms(2)] show ?thesis
    unfolding holds_nothing_def by (simp add: Let_def) blast
qed

text \<open>An origin whose configuration declares no card, with the default sockets.\<close>

definition demo_sockets :: sockets where
  "demo_sockets = \<lparr>sk_control = ''/run/c'', sk_wif = ''/run/w'', sk_forward = [], sk_lease = []\<rparr>"

definition demo_origin :: config where "demo_origin = demo_config\<lparr>cf_card := CardNone\<rparr>"

theorem card_free_origin_witness:
  "c_bufs (New demo_origin ''1'') = [] \<and> (\<exists>d. serve (Inr demo_origin) (Inl ErrLocked) demo_sockets = Inr d \<and> dm_card d = None)"
proof -
  have "CardFree demo_origin" by (simp add: demo_origin_def CardFree_def)
  from card_free_origin [OF core_reachable.start this] show ?thesis by blast
qed

end
