(* ===== verification/Card_Diagnostic.thy ===== *)
theory Card_Diagnostic
  imports Card_Recovery
begin

text \<open>
  The diagnostic rescan of \<open>pivsigner/recovery.go\<close>: one more selection, for the log only, after
  a sharing violation. PC/SC cannot be cancelled, so the scan runs in a worker goroutine that a
  caller waits for at most \<open>diagnosticScanLimit\<close>; the flag \<open>diagnosticWorker\<close> admits one
  worker per process. \<open>rescan_step\<close> interleaves the callers' sections with the workers'.
\<close>

subsection \<open>Operations\<close>

definition minimumCallerTime :: duration where [go_eval]: "minimumCallerTime = second"

record diagnostics =
  dg_worker :: bool
  dg_blocked :: nat
  dg_scans :: nat
  dg_waiting :: nat
  dg_cards :: "card_event list"
  dg_serials :: "u32 list"

definition no_diagnostics :: diagnostics where
  "no_diagnostics = \<lparr>dg_worker = False, dg_blocked = 0, dg_scans = 0, dg_waiting = 0, dg_cards = [], dg_serials = []\<rparr>"

datatype rescan = NearDeadline | WorkerActive | Scanning

text \<open>Up to the \<open>select\<close>: \<open>left\<close> is the time until the caller's deadline, if it has one.
  \<open>dg_scans\<close> counts the goroutines running, \<open>dg_waiting\<close> the callers in the \<open>select\<close>.\<close>

definition diagnosticRescan :: "duration option \<Rightarrow> diagnostics \<Rightarrow> rescan \<times> diagnostics" where
  "diagnosticRescan left s =
     (if (case left of Some d \<Rightarrow> d < minimumCallerTime | None \<Rightarrow> False) then (NearDeadline, s)
      else if dg_worker s then (WorkerActive, s)
      else (Scanning, s\<lparr>dg_worker := True, dg_scans := dg_scans s + 1, dg_waiting := dg_waiting s + 1\<rparr>))"

text \<open>The goroutine: a selection of its own, whose card is closed before the result is sent.\<close>

definition scanCards :: "u32 list \<Rightarrow> string list res \<Rightarrow> (string \<Rightarrow> card res) \<Rightarrow> (u32 \<times> gerror option) \<times> card_event list" where
  "scanCards serials listed opener =
     (case openSelectedUntracked serials listed opener of
        (Inr session, ev) \<Rightarrow> ((os_serial session, None), ev @ [Closed (os_id session)])
      | (Inl e, ev) \<Rightarrow> ((0, Some e), ev))"

definition finishScan :: "u32 list \<Rightarrow> string list res \<Rightarrow> (string \<Rightarrow> card res) \<Rightarrow> diagnostics \<Rightarrow> diagnostics" where
  "finishScan serials listed opener s =
     (let ((serial, err), ev) = scanCards serials listed opener in
      s\<lparr>dg_worker := False, dg_scans := dg_scans s - 1, dg_cards := dg_cards s @ ev,
        dg_serials := (if err = None then serial # dg_serials s else dg_serials s)\<rparr>)"

text \<open>The caller's \<open>select\<close>: only a scan over its latency cap is counted as blocked.\<close>

datatype scan_answer = ScanDone | ScanTruncated | CallerGone

definition awaitScan :: "scan_answer \<Rightarrow> diagnostics \<Rightarrow> diagnostics" where
  "awaitScan a s = s\<lparr>dg_waiting := dg_waiting s - 1, dg_blocked := (if a = ScanTruncated then dg_blocked s + 1 else dg_blocked s)\<rparr>"

subsection \<open>Interleaving\<close>

inductive rescan_step :: "u32 list \<Rightarrow> diagnostics \<Rightarrow> diagnostics \<Rightarrow> bool" for serials :: "u32 list" where
  ask: "rescan_step serials s (snd (diagnosticRescan left s))"
| finish: "dg_scans s > 0 \<Longrightarrow> rescan_step serials s (finishScan serials listed opener s)"
| await: "dg_waiting s > 0 \<Longrightarrow> rescan_step serials s (awaitScan a s)"

inductive rescan_reachable :: "u32 list \<Rightarrow> diagnostics \<Rightarrow> bool" for serials :: "u32 list" where
  start: "rescan_reachable serials no_diagnostics"
| step: "rescan_reachable serials s \<Longrightarrow> rescan_step serials s t \<Longrightarrow> rescan_reachable serials t"

lemma left_open_append: "left_open h (ev @ ev') = left_open (left_open h ev) ev'"
  by (induction h ev rule: left_open.induct) simp_all

lemma disciplined_append: "disciplined h (ev @ ev') \<longleftrightarrow> disciplined h ev \<and> disciplined (left_open h ev) ev'"
  by (induction h ev rule: disciplined.induct) auto

text \<open>A scan, whatever it meets, closes every card it opens, and reports configured cards only.\<close>

lemma scanCards_closed:
  assumes "scanCards serials listed opener = ((serial, err), ev)"
  shows "disciplined {} ev \<and> left_open {} ev = {} \<and> (err = None \<longrightarrow> serial \<in> set serials)"
proof (cases listed)
  case (Inl e)
  with assms show ?thesis by (auto simp: scanCards_def openSelectedUntracked_def)
next
  case (Inr readers)
  obtain r evs where l: "select_loop serials opener readers 0 None [] = (r, evs)" by (metis prod.exhaust)
  from select_loop_events [OF l] have d: "disciplined {} evs"
    and lo: "left_open {} evs = (case r of Inr (s, _) \<Rightarrow> held s | Inl _ \<Rightarrow> {})" by simp_all
  show ?thesis
  proof (cases "\<exists>s fs. r = Inr (Some s, fs)")
    case True
    then obtain s fs where r: "r = Inr (Some s, fs)" by blast
    then have "fst (select_loop serials opener readers 0 None []) = Inr (Some s, fs)" by (simp add: l)
    from select_loop_some [OF this] have "os_serial s \<in> set serials" by simp
    with assms d lo r show ?thesis
      by (auto simp: scanCards_def openSelectedUntracked_def Inr l left_open_append disciplined_append)
  next
    case False
    with assms d lo show ?thesis
      by (auto simp: scanCards_def openSelectedUntracked_def Inr l split: sum.splits prod.splits option.splits)
  qed
qed

subsection \<open>One scan at a time\<close>

definition rescan_inv :: "u32 list \<Rightarrow> diagnostics \<Rightarrow> bool" where
  "rescan_inv serials s \<longleftrightarrow> dg_scans s = (if dg_worker s then 1 else 0) \<and> disciplined {} (dg_cards s) \<and>
     left_open {} (dg_cards s) = {} \<and> set (dg_serials s) \<subseteq> set serials"

lemma finishScan_inv:
  assumes "rescan_inv serials s" and "dg_scans s > 0"
  shows "rescan_inv serials (finishScan serials listed opener s)"
proof -
  obtain serial err ev where r: "scanCards serials listed opener = ((serial, err), ev)" by (metis prod.exhaust)
  from scanCards_closed [OF r] assms show ?thesis
    by (auto simp: finishScan_def r rescan_inv_def left_open_append disciplined_append split: if_splits)
qed

lemma rescan_step_inv: "rescan_step serials s t \<Longrightarrow> rescan_inv serials s \<Longrightarrow> rescan_inv serials t"
proof (induction rule: rescan_step.induct)
  case (ask s left)
  then show ?case by (simp add: rescan_inv_def diagnosticRescan_def split: option.split)
next
  case (finish s listed opener)
  then show ?case by (simp add: finishScan_inv)
next
  case (await s a)
  then show ?case by (simp add: rescan_inv_def awaitScan_def)
qed

lemma rescan_reachable_inv: "rescan_reachable serials s \<Longrightarrow> rescan_inv serials s"
proof (induction rule: rescan_reachable.induct)
  case start
  show ?case by (simp add: rescan_inv_def no_diagnostics_def)
next
  case (step s t)
  from rescan_step_inv [OF step.hyps(2) step.IH] show ?case .
qed

text \<open>Diagnosing never adds contention of its own: however callers, their timeouts and scans interleave,
  at most one scan runs, a caller starts one exactly when none runs and it has a second left,
  between scans no card is open, and no serial outside the configured ones is reported.\<close>

lemma one_rescan_at_a_time:
  assumes "rescan_reachable serials s"
  shows "dg_scans s \<le> 1" and "left_open {} (dg_cards s) = {}" and "set (dg_serials s) \<subseteq> set serials"
    and "fst (diagnosticRescan left s) = Scanning \<longleftrightarrow>
      dg_scans s = 0 \<and> (case left of None \<Rightarrow> True | Some d \<Rightarrow> second \<le> d)"
  using rescan_reachable_inv [OF assms]
  by (auto simp: rescan_inv_def diagnosticRescan_def minimumCallerTime_def split: option.splits if_splits)

end
