(* ===== verification/Waybar.thy ===== *)
theory Waybar
  imports Core_Notifier Go_Flag
begin

text \<open>
  \<open>pivb status\<close> (\<open>cmd/pivb/waybar.go\<close>): what the operator is shown of the daemon's status. The
  text of the status bar is modelled byte for byte; the JSON encoding of a status and the timer
  of \<open>--watch\<close> are the library's, so the output is one document per tick. Truncating a
  \<open>float64\<close> number of minutes or hours is integer division here.
\<close>

record waybar_status =
  wb_text :: string
  wb_tooltip :: string
  wb_class :: string
  wb_alt :: string

definition middle_dot :: string where "middle_dot = '' '' @ [CHR 0xC2, CHR 0xB7] @ '' ''"
definition em_dash :: string where "em_dash = '' '' @ [CHR 0xE2, CHR 0x80, CHR 0x94] @ '' ''"
definition right_arrow :: string where "right_arrow = '' '' @ [CHR 0xE2, CHR 0x86, CHR 0x92] @ '' ''"

definition oneLine :: "string \<Rightarrow> string" where
  "oneLine value = join '' '' (Prelude.fields value)"

text \<open>\<open>%02d\<close> of a number below a hundred.\<close>

definition two_digits :: "int \<Rightarrow> string" where
  "two_digits n = (if n < 10 then ''0'' @ fmt_int n else fmt_int n)"

definition windowLeftText :: "duration \<Rightarrow> string" where
  "windowLeftText d =
     (let seconds = dur_in_seconds (dur_round second d) in
      if seconds < 60 then fmt_int seconds @ ''s''
      else fmt_int (seconds div 60) @ ''m'' @ two_digits (seconds mod 60) @ ''s'')"

definition agoText :: "duration \<Rightarrow> string" where
  "agoText d =
     (if d < 60 * second then ''just now''
      else if d < hour then fmt_int (d div (60 * second)) @ ''m ago''
      else fmt_int (d div hour) @ ''h'' @ two_digits (d div (60 * second) mod 60) @ ''m ago'')"

fun nearest_loop :: "gotime \<Rightarrow> reuse_window list \<Rightarrow> reuse_window option \<Rightarrow> reuse_window option" where
  "nearest_loop now [] nearest = nearest"
| "nearest_loop now (w # ws) nearest =
     (if \<not> rw_ends w > now then nearest_loop now ws nearest
      else case nearest of
          None \<Rightarrow> nearest_loop now ws (Some w)
        | Some n \<Rightarrow> nearest_loop now ws (if rw_ends w < rw_ends n then Some w else Some n))"

definition nearestReuseWindow :: "reuse_window list \<Rightarrow> gotime \<Rightarrow> (reuse_window \<times> duration) option" where
  "nearestReuseWindow windows now =
     map_option (\<lambda>w. (w, time_sub (rw_ends w) now)) (nearest_loop now windows None)"

subsection \<open>The tooltip\<close>

definition pin_lines :: "core_status \<Rightarrow> string list" where
  "pin_lines s =
     (if cs_pin_cached s
      then [''PIN cached'' @ (if cs_pin_serial s \<noteq> 0 then middle_dot @ ''key '' @ fmt_nat (unat (cs_pin_serial s)) else [])]
      else [''PIN not cached'' @ em_dash @ ''run `pivb unlock`''])"

definition mint_lines :: "core_status \<Rightarrow> gotime \<Rightarrow> string list" where
  "mint_lines s now =
     (case cs_last s of
        None \<Rightarrow> [''No mints since unlock'']
      | Some l \<Rightarrow>
          if se_alias l = [] then [''No mints since unlock'']
          else
            let what = se_alias l @ right_arrow @ se_target l; ago = agoText (time_sub now (se_at l)); serial = fmt_nat (unat (se_serial l)) in
            if se_route l = ''zka-workspace-forwarded'' then
              [''Last mint (forwarded): '' @ what, ''Signed remotely '' @ ago @ '' by YubiKey '' @ serial] @
              (case cs_last_forward s of
                 None \<Rightarrow> []
               | Some fc \<Rightarrow> [''Provider node: '' @ fc_provider fc, ''Workspace: '' @ fc_workspace fc @ middle_dot @ fc_bundle fc])
            else if se_route l = ''zka-workspace-provider'' then
              [''Last mint (workspace provider): '' @ what, ''Signed '' @ ago @ '' by local YubiKey '' @ serial]
            else [''Last mint: '' @ what, ''Signed '' @ ago @ '' by key '' @ serial])"

definition rate_lines :: "core_status \<Rightarrow> string list" where
  "rate_lines s =
     (case cs_mints s of
        None \<Rightarrow> []
      | Some m \<Rightarrow> [''Mints: '' @ fmt_nat (mc_1m m) @ ''/1m '' @ fmt_nat (mc_5m m) @ ''/5m '' @ fmt_nat (mc_60m m) @ ''/60m''])"

definition window_lines :: "core_status \<Rightarrow> gotime \<Rightarrow> string list" where
  "window_lines s now =
     (case nearestReuseWindow (cs_windows s) now of
        None \<Rightarrow> []
      | Some (w, left) \<Rightarrow> [''Window: '' @ rw_alias w @ '' '' @ windowLeftText left @ '' left''])"

definition formatWaybarStatus :: "gerror + core_status \<Rightarrow> gotime \<Rightarrow> waybar_status" where
  "formatWaybarStatus status now =
     (case status of
        Inl e \<Rightarrow>
          \<lparr>wb_text = '' pivb'',
           wb_tooltip = join [CHR 0x0A] [''pivb'' @ middle_dot @ ''unavailable'', ''Daemon is not responding'', oneLine (err_text e),
             ''Run: systemctl --user status pivb''],
           wb_class = ''unavailable'', wb_alt = ''unavailable''\<rparr>
      | Inr s \<Rightarrow>
          let state = (if cs_pin_cached s then ''ready'' else ''locked'') in
          \<lparr>wb_text = '' pivb'',
           wb_tooltip = join [CHR 0x0A] ([''pivb'' @ middle_dot @ state] @ pin_lines s @ mint_lines s now @ rate_lines s @ window_lines s now @
             (if cs_provider s \<noteq> [] then [''Provider: '' @ cs_provider s] else []) @
             (if cs_version s \<noteq> [] then [''pivb '' @ cs_version s] else [])),
           wb_class = state, wb_alt = state\<rparr>)"

subsection \<open>One status document\<close>

datatype status_doc = StatusDocument bool core_status | WaybarDocument waybar_status | UnavailableDocument string

text \<open>The error and the document written; the flag of \<open>StatusDocument\<close> is the indentation. A parent
  context that ended while the daemon was asked writes nothing.\<close>

definition writeStatus :: "bool \<Rightarrow> gerror + core_status \<Rightarrow> string \<Rightarrow> bool \<Rightarrow> gotime \<Rightarrow> gerror option \<Rightarrow> gerror option \<times> status_doc list" where
  "writeStatus ended status format watching now out =
     (if ended then (None, [])
      else if \<not> watching \<and> format = ''json'' then
        (case status of Inl e \<Rightarrow> (Some e, []) | Inr s \<Rightarrow> (out, [StatusDocument True s]))
      else if format = ''waybar'' then (out, [WaybarDocument (formatWaybarStatus status now)])
      else case status of
          Inl e \<Rightarrow> (out, [UnavailableDocument (oneLine (err_text e))])
        | Inr s \<Rightarrow> (out, [StatusDocument False s]))"

text \<open>\<open>watchStatus\<close> over the ticks that arrive before the context ends: whether it has, what the
  daemon answered, the time and what writing answered.\<close>

fun watchStatus :: "string \<Rightarrow> (bool \<times> (gerror + core_status) \<times> gotime \<times> gerror option) list \<Rightarrow> gerror option \<times> status_doc list" where
  "watchStatus format [] = (None, [])"
| "watchStatus format ((ended, status, now, out) # ticks) =
     (case writeStatus ended status format True now out of
        (Some e, docs) \<Rightarrow> (Some e, docs)
      | (None, docs) \<Rightarrow> (case watchStatus format ticks of (r, later) \<Rightarrow> (r, docs @ later)))"

text \<open>\<open>pivb status\<close>. \<open>parse\<close> is \<open>time.ParseDuration\<close>, whose fractions go through floating point;
  \<open>one\<close> is what the first request meets and \<open>ticks\<close> the later ones.\<close>

definition status_flags :: "(string \<Rightarrow> int option) \<Rightarrow> (string \<times> flag_kind) list" where
  "status_flags parse =
     [(''watch'', VarFlag (\<lambda>given v. if parse v = None then Some (ErrText ''parse error'') else None)), (''format'', StringFlag)]"

definition watch_interval :: "(string \<Rightarrow> int option) \<Rightarrow> flags \<Rightarrow> int" where
  "watch_interval parse m = (case map_of m ''watch'' of None \<Rightarrow> 0 | Some v \<Rightarrow> (case parse v of None \<Rightarrow> 0 | Some d \<Rightarrow> d))"

definition statusCommand :: "(string \<Rightarrow> int option) \<Rightarrow> bool \<times> (gerror + core_status) \<times> gotime \<times> gerror option \<Rightarrow>
    (bool \<times> (gerror + core_status) \<times> gotime \<times> gerror option) list \<Rightarrow> string list \<Rightarrow> gerror option \<times> status_doc list" where
  "statusCommand parse one ticks args =
     (case parse_flags (status_flags parse) args [] of
        Inl e \<Rightarrow> (Some e, [])
      | Inr (m, rest) \<Rightarrow>
          let watch = watch_interval parse m; format = flag_value m ''format'' ''json'' in
          if rest \<noteq> [] then (Some (ErrText ''status takes no positional arguments''), [])
          else if watch < 0 then (Some (ErrText ''status --watch must not be negative''), [])
          else if format \<noteq> ''json'' \<and> format \<noteq> ''waybar'' then (Some (ErrText (''unknown status format '' @ go_quote format)), [])
          else if watch = 0 then (case one of (ended, status, now, out) \<Rightarrow> writeStatus False status format False now out)
          else watchStatus format (one # ticks))"

text \<open>Watching outlives the daemon: an unreachable daemon is a document, never the end.\<close>

lemma watchStatus_survives:
  "list_all (\<lambda>(ended, status, now, out). out = None) ticks \<Longrightarrow> fst (watchStatus format ticks) = None"
  by (induction format ticks rule: watchStatus.induct) (auto simp: writeStatus_def split: sum.splits prod.splits)

subsection \<open>The window that closes first\<close>

lemma nearest_loop_spec:
  assumes "list_all (\<lambda>n. now < rw_ends n) (case best of None \<Rightarrow> [] | Some n \<Rightarrow> [n])"
  shows "case nearest_loop now ws best of
      None \<Rightarrow> best = None \<and> list_all (\<lambda>w. rw_ends w \<le> now) ws
    | Some n \<Rightarrow> (n \<in> set ws \<or> best = Some n) \<and> now < rw_ends n \<and> list_all (\<lambda>w. now < rw_ends w \<longrightarrow> rw_ends n \<le> rw_ends w) ws \<and>
        (\<forall>b. best = Some b \<longrightarrow> rw_ends n \<le> rw_ends b)"
  using assms
proof (induction now ws best rule: nearest_loop.induct)
  case (2 now w ws best)
  show ?case
  proof (cases "now < rw_ends w")
    case False
    with 2 show ?thesis by (auto split: option.splits)
  next
    case True
    show ?thesis
    proof (cases best)
      case None
      with 2(2) True show ?thesis by (auto split: option.splits)
    next
      case (Some b)
      let ?next = "if rw_ends w < rw_ends b then Some w else Some b"
      have "list_all (\<lambda>n. now < rw_ends n) (case ?next of None \<Rightarrow> [] | Some n \<Rightarrow> [n])" using True 2(4) Some by simp
      from 2(3) [OF _ Some this] True have "case nearest_loop now ws ?next of None \<Rightarrow> ?next = None \<and> list_all (\<lambda>w. rw_ends w \<le> now) ws
        | Some n \<Rightarrow> (n \<in> set ws \<or> ?next = Some n) \<and> now < rw_ends n \<and> list_all (\<lambda>w. now < rw_ends w \<longrightarrow> rw_ends n \<le> rw_ends w) ws \<and>
            (\<forall>b. ?next = Some b \<longrightarrow> rw_ends n \<le> rw_ends b)" by simp
      then show ?thesis using True Some by (auto split: option.splits if_splits)
    qed
  qed
qed (auto split: option.splits)

definition open_windows :: "core \<Rightarrow> gotime \<Rightarrow> (reuse_key \<times> cache_entry) list" where
  "open_windows c now = filter (\<lambda>(k, e). windowed e \<and> now < ce_window_ends e) (c_cache c)"

lemma set_reuseWindows: "w \<in> set (reuseWindows c) \<longleftrightarrow>
    (\<exists>k e. (k, e) \<in> set (c_cache c) \<and> windowed e \<and> w = \<lparr>rw_alias = rk_alias k, rw_session = rk_session k, rw_serial = ce_serial e,
       rw_ends = ce_window_ends e, rw_token_expires = ce_expires e\<rparr>)"
  by (force simp: reuseWindows_def)

lemma open_window_listed:
  "(k, e) \<in> set (open_windows c now) \<Longrightarrow> \<exists>w\<in>set (reuseWindows c). rw_ends w = ce_window_ends e \<and> now < rw_ends w"
  by (force simp: open_windows_def set_reuseWindows)


end
