(* ===== verification/Procinfo.thy ===== *)
theory Procinfo
  imports Go_Error
begin

text \<open>
  \<open>internal/procinfo\<close>: the parent chain of a process, read from \<open>/proc/<pid>/stat\<close>, for the log
  line of a mint. The file system is the function from a process id to the bytes of its stat
  file, \<open>None\<close> when it cannot be read. The command name is whatever bytes the process chose.
\<close>

record proc_entry =
  pe_pid :: int
  pe_comm :: string

text \<open>The parts of \<open>s\<close> around the last occurrence of \<open>c\<close> (\<open>strings.LastIndexByte\<close>).\<close>

definition cut_last :: "char \<Rightarrow> string \<Rightarrow> (string \<times> string) option" where
  "cut_last c s = map_option (\<lambda>(a, b). (rev b, rev a)) (cut c (rev s))"

definition readStat :: "(int \<Rightarrow> bytes option) \<Rightarrow> int \<Rightarrow> (string \<times> int) option" where
  "readStat procs pid =
     (case procs pid of
        None \<Rightarrow> None
      | Some stat \<Rightarrow>
          (case cut_last (CHR '')'') stat of
             None \<Rightarrow> None
           | Some (before, after) \<Rightarrow>
               (case cut (CHR ''('') before of
                  None \<Rightarrow> None
                | Some (_, comm) \<Rightarrow>
                    (case Prelude.fields after of
                       _ # ppid # _ \<Rightarrow>
                         (case parse_int 32 ppid of
                            None \<Rightarrow> None
                          | Some parent \<Rightarrow> if parent < 0 then None else Some (comm, parent))
                     | _ \<Rightarrow> None))))"

fun chain_from :: "(int \<Rightarrow> bytes option) \<Rightarrow> int \<Rightarrow> nat \<Rightarrow> proc_entry list" where
  "chain_from procs pid 0 = []"
| "chain_from procs pid (Suc n) =
     (if pid > 1 then
        (case readStat procs pid of
           None \<Rightarrow> []
         | Some (comm, parent) \<Rightarrow> \<lparr>pe_pid = pid, pe_comm = comm\<rparr> # chain_from procs parent n)
      else [])"

text \<open>\<open>Chain\<close>: at most \<open>maxDepth\<close> entries.\<close>

definition Chain :: "(int \<Rightarrow> bytes option) \<Rightarrow> int \<Rightarrow> int \<Rightarrow> proc_entry list" where
  "Chain procs pid maxDepth = chain_from procs pid (nat maxDepth)"

definition FormatChain :: "proc_entry list \<Rightarrow> string" where
  "FormatChain entries = join ''<-'' (map (\<lambda>en. fmt_int (pe_pid en) @ ''('' @ pe_comm en @ '')'') entries)"

subsection \<open>The kernel's file reads back\<close>

text \<open>A process as the kernel writes it: its name is any bytes, its run state one letter, and no
  later field holds a parenthesis.\<close>

record process =
  pr_comm :: string
  pr_state :: char
  pr_parent :: nat
  pr_rest :: string

definition process_ok :: "process \<Rightarrow> bool" where
  "process_ok p \<longleftrightarrow> pr_state p \<in> set ''RSDZTtXIKWP'' \<and> pr_parent p < 2 ^ 31 \<and> CHR '')'' \<notin> set (pr_rest p)"

definition stat_file :: "int \<Rightarrow> process \<Rightarrow> bytes" where
  "stat_file pid p = fmt_int pid @ '' ('' @ pr_comm p @ '') '' @ [pr_state p] @ '' '' @ fmt_nat (pr_parent p) @ '' '' @ pr_rest p"

lemma cut_last_Some: "CHR '')'' \<notin> set b \<Longrightarrow> cut_last (CHR '')'') (a @ CHR '')'' # b) = Some (a, b)"
proof -
  assume "CHR '')'' \<notin> set b"
  then have "cut (CHR '')'') (rev b @ CHR '')'' # rev a) = Some (rev b, rev a)" by (simp add: cut_Some)
  then show ?thesis by (simp add: cut_last_def)
qed

lemma fields_aux_plain:
  "\<forall>c\<in>set w. \<not> is_space c \<and> cp c < 128 \<Longrightarrow> fields_aux acc (w @ s) = fields_aux (rev w @ acc) s"
proof (induction w arbitrary: acc)
  case (Cons c w)
  then show ?case by (subst fields_aux.simps) (simp add: space_width_ascii)
qed simp

lemma fields_aux_blank: "fields_aux acc (CHR '' '' # s) = (if acc = [] then fields_aux [] s else rev acc # fields_aux [] s)"
  by (subst fields_aux.simps) (simp add: space_width_def is_space_def)

lemma fields_stat:
  assumes "\<not> is_space c" and "cp c < 128"
  shows "\<exists>r. Prelude.fields (CHR '' '' # c # CHR '' '' # fmt_nat n @ CHR '' '' # rest) = [c] # fmt_nat n # r"
proof -
  have d: "\<forall>x\<in>set (fmt_nat n). \<not> is_space x \<and> cp x < 128" using fmt_nat_chars by (force simp: is_digit_def is_space_def)
  have "fields_aux [] (fmt_nat n @ CHR '' '' # rest) = fmt_nat n # fields_aux [] rest"
    using fmt_nat_digits [of n] by (simp add: fields_aux_plain [OF d] fields_aux_blank)
  moreover have "fields_aux [] (c # CHR '' '' # fmt_nat n @ CHR '' '' # rest) = [c] # fields_aux [] (fmt_nat n @ CHR '' '' # rest)"
    using fields_aux_plain [of "[c]" "[]"] assms by (simp add: fields_aux_blank)
  ultimately show ?thesis by (simp add: Prelude.fields_def fields_aux_blank)
qed

lemma parse_int_fmt_nat: "int n < 2 ^ (bits - 1) \<Longrightarrow> parse_int bits (fmt_nat n) = Some (int n)"
proof -
  assume b: "int n < 2 ^ (bits - 1)"
  obtain c r where c: "fmt_nat n = c # r" "is_digit c" using fmt_nat_digits [of n] by (cases "fmt_nat n") auto
  then have "c \<noteq> CHR ''-''" "c \<noteq> CHR ''+''" by (auto simp: is_digit_def)
  with c b fmt_nat_digits [of n] digits_value_fmt_nat [of n] show ?thesis by (simp add: parse_int_def Let_def)
qed

lemma readStat_stat_file:
  assumes "procs pid = Some (stat_file pid p)" and "process_ok p"
  shows "readStat procs pid = Some (pr_comm p, int (pr_parent p))"
proof -
  have s: "\<not> is_space (pr_state p)" "cp (pr_state p) < 128" "pr_state p \<noteq> CHR '')''" using assms(2)
    by (auto simp: process_ok_def is_space_def)
  have i: "CHR ''('' \<notin> set (fmt_int pid)" "CHR '')'' \<notin> set (fmt_nat n)" for n
    by (auto simp: fmt_int_def is_digit_def dest: fmt_nat_chars)
  let ?after = "CHR '' '' # pr_state p # CHR '' '' # fmt_nat (pr_parent p) @ CHR '' '' # pr_rest p"
  have "CHR '')'' \<notin> set ?after" using i s assms(2) by (simp add: process_ok_def)
  from cut_last_Some [OF this, of "fmt_int pid @ '' ('' @ pr_comm p"]
  have "cut_last (CHR '')'') (stat_file pid p) = Some (fmt_int pid @ '' ('' @ pr_comm p, ?after)"
    by (simp add: stat_file_def)
  moreover have "cut (CHR ''('') (fmt_int pid @ '' ('' @ pr_comm p) = Some (fmt_int pid @ '' '', pr_comm p)"
    using i by (simp add: cut_Some)
  moreover have "parse_int 32 (fmt_nat (pr_parent p)) = Some (int (pr_parent p))"
    using assms(2) by (intro parse_int_fmt_nat) (simp add: process_ok_def)
  ultimately show ?thesis
    using fields_stat [OF s(1,2), of "pr_parent p" "pr_rest p"] by (auto simp: readStat_def assms(1))
qed

text \<open>The ancestry of a process in a process table: up to \<open>n\<close> processes, stopping before \<open>init\<close>
  and at the first one that is not there.\<close>

fun ancestry :: "(int \<Rightarrow> process option) \<Rightarrow> int \<Rightarrow> nat \<Rightarrow> proc_entry list" where
  "ancestry table pid 0 = []"
| "ancestry table pid (Suc n) =
     (case table pid of
        Some p \<Rightarrow> if pid > 1 then \<lparr>pe_pid = pid, pe_comm = pr_comm p\<rparr> # ancestry table (int (pr_parent p)) n else []
      | None \<Rightarrow> [])"

lemma chain_from_ancestry:
  assumes "\<And>pid p. table pid = Some p \<Longrightarrow> process_ok p"
  shows "chain_from (\<lambda>pid. map_option (stat_file pid) (table pid)) pid n = ancestry table pid n"
proof (induction n arbitrary: pid)
  case (Suc n)
  show ?case
  proof (cases "table pid")
    case None
    then show ?thesis by (simp add: readStat_def)
  next
    case (Some p)
    then show ?thesis using readStat_stat_file [OF _ assms [OF Some]] Suc by simp
  qed
qed simp

lemma chain_from_bounds:
  "length (chain_from procs pid n) \<le> n \<and> list_all (\<lambda>en. 1 < pe_pid en) (chain_from procs pid n)"
proof (induction n arbitrary: pid)
  case (Suc n)
  then show ?case by (auto split: option.splits)
qed simp

text \<open>C40: the log names the real callers. Over any process table the kernel reports, and whatever
  bytes the processes chose as their names, parentheses, blanks and digits included, \<open>Chain\<close>
  is the ancestry of the process: each name byte for byte and each parent's id, up to the depth
  asked for and never \<open>init\<close>. Over any other file contents it still ends within the depth.\<close>

theorem Chain_ancestry:
  assumes "\<And>pid p. table pid = Some p \<Longrightarrow> process_ok p"
  shows "Chain (\<lambda>pid. map_option (stat_file pid) (table pid)) pid depth = ancestry table pid (nat depth) \<and>
    length (Chain procs pid depth) \<le> nat depth \<and> list_all (\<lambda>en. 1 < pe_pid en) (Chain procs pid depth)"
  using chain_from_ancestry [OF assms] chain_from_bounds [of procs pid "nat depth"] by (simp add: Chain_def)

theorem Chain_ancestry_witness:
  "Chain (\<lambda>pid. map_option (stat_file pid)
      ([7 \<mapsto> \<lparr>pr_comm = ''a) S 1 (b'', pr_state = CHR ''S'', pr_parent = 5, pr_rest = ''0 0''\<rparr>,
        5 \<mapsto> \<lparr>pr_comm = ''sh'', pr_state = CHR ''R'', pr_parent = 1, pr_rest = ''0''\<rparr>] pid)) 7 5 =
    [\<lparr>pe_pid = 7, pe_comm = ''a) S 1 (b''\<rparr>, \<lparr>pe_pid = 5, pe_comm = ''sh''\<rparr>]"
proof -
  let ?table = "[7 \<mapsto> \<lparr>pr_comm = ''a) S 1 (b'', pr_state = CHR ''S'', pr_parent = 5, pr_rest = ''0 0''\<rparr>,
        5 \<mapsto> \<lparr>pr_comm = ''sh'', pr_state = CHR ''R'', pr_parent = 1, pr_rest = ''0''\<rparr>] :: int \<Rightarrow> process option"
  have "process_ok p" if "?table pid = Some p" for pid p
    using that by (auto simp: process_ok_def split: if_splits)
  from Chain_ancestry [of ?table 7 5, OF this] show ?thesis by (simp add: numeral_eq_Suc)
qed

end
