(* ===== verification/Card_Probe.thy ===== *)
theory Card_Probe
  imports Card_Select
begin

text \<open>
  The shared recovery probe of \<open>pivsigner/card.go\<close>. PC/SC has no cancellable open, so every
  recovery that arrives while one is in flight waits for the same open (\<open>probeCall\<close>). Each
  operation below is one critical section of \<open>probeMu\<close>; \<open>probe_step\<close> lets any of them run
  next. A call is named by its index; \<open>ps_waiting\<close> lists the call of every caller that is in
  the \<open>select\<close>, \<open>ps_delivered\<close> and \<open>ps_closed\<close> the calls whose session was handed to a
  caller or closed.
\<close>

subsection \<open>State and operations\<close>

record probe_call =
  pc_result :: "open_session res option"
  pc_claimed :: bool
  pc_waiters :: int

record probe_state =
  ps_calls :: "probe_call list"
  ps_probe :: "nat option"
  ps_waiting :: "nat list"
  ps_delivered :: "nat list"
  ps_closed :: "nat list"

definition no_probe :: probe_state where
  "no_probe = \<lparr>ps_calls = [], ps_probe = None, ps_waiting = [], ps_delivered = [], ps_closed = []\<rparr>"

abbreviation call_at :: "probe_state \<Rightarrow> nat \<Rightarrow> probe_call" where
  "call_at s i \<equiv> ps_calls s ! i"

definition set_call :: "nat \<Rightarrow> probe_call \<Rightarrow> probe_state \<Rightarrow> probe_state" where
  "set_call i p s = s\<lparr>ps_calls := (ps_calls s)[i := p]\<rparr>"

definition forget_probe :: "nat \<Rightarrow> probe_state \<Rightarrow> probe_state" where
  "forget_probe i s = (if ps_probe s = Some i then s\<lparr>ps_probe := None\<rparr> else s)"

text \<open>Start or join the probe in flight: the call waited for and how many opens were started.\<close>

definition joinProbe :: "probe_state \<Rightarrow> (nat \<times> nat) \<times> probe_state" where
  "joinProbe s =
     (case ps_probe s of
        None \<Rightarrow>
          (let i = length (ps_calls s) in
           ((i, 1), s\<lparr>ps_calls := ps_calls s @ [\<lparr>pc_result = None, pc_claimed = False, pc_waiters = 1\<rparr>],
                       ps_probe := Some i, ps_waiting := i # ps_waiting s\<rparr>))
      | Some i \<Rightarrow>
          ((i, 0), (set_call i ((call_at s i)\<lparr>pc_waiters := pc_waiters (call_at s i) + 1\<rparr>) s)
             \<lparr>ps_waiting := i # ps_waiting s\<rparr>))"

text \<open>The worker's last section.\<close>

definition runProbe :: "nat \<Rightarrow> open_session res \<Rightarrow> probe_state \<Rightarrow> probe_state" where
  "runProbe i r s =
     (let s1 = forget_probe i (set_call i ((call_at s i)\<lparr>pc_result := Some r\<rparr>) s) in
      case r of
        Inl e \<Rightarrow> s1
      | Inr session \<Rightarrow> if pc_waiters (call_at s i) = 0 then s1\<lparr>ps_closed := i # ps_closed s1\<rparr> else s1)"

datatype probe_answer = ProbeFailed gerror | ProbeSession open_session | ProbeAgain

text \<open>A waiter that saw \<open>done\<close>.\<close>

definition takeResult :: "nat \<Rightarrow> probe_state \<Rightarrow> probe_answer \<times> probe_state" where
  "takeResult i s =
     (let call = (call_at s i)\<lparr>pc_waiters := pc_waiters (call_at s i) - 1\<rparr>;
          s1 = (set_call i call s)\<lparr>ps_waiting := remove1 i (ps_waiting s)\<rparr>
      in case pc_result call of
          None \<Rightarrow> (ProbeAgain, s)
        | Some (Inl e) \<Rightarrow> (ProbeFailed e, if pc_waiters call = 0 then forget_probe i s1 else s1)
        | Some (Inr session) \<Rightarrow>
            if \<not> pc_claimed call
            then (ProbeSession session,
              (forget_probe i (set_call i (call\<lparr>pc_claimed := True\<rparr>) s1))\<lparr>ps_delivered := i # ps_delivered s\<rparr>)
            else (ProbeAgain, s1))"

text \<open>A waiter whose own deadline passed.\<close>

definition releaseProbeWaiter :: "nat \<Rightarrow> probe_state \<Rightarrow> probe_state" where
  "releaseProbeWaiter i s =
     (let call = (call_at s i)\<lparr>pc_waiters := pc_waiters (call_at s i) - 1\<rparr>;
          s1 = (set_call i call s)\<lparr>ps_waiting := remove1 i (ps_waiting s)\<rparr>
      in case pc_result call of
          None \<Rightarrow> s1
        | Some r \<Rightarrow>
            if pc_waiters call \<noteq> 0 then s1
            else
              (case r of
                 Inl e \<Rightarrow> forget_probe i s1
               | Inr session \<Rightarrow>
                   if \<not> pc_claimed call
                   then (forget_probe i (set_call i (call\<lparr>pc_claimed := True\<rparr>) s1))\<lparr>ps_closed := i # ps_closed s\<rparr>
                   else forget_probe i s1))"

definition hasProbeWorker :: "probe_state \<Rightarrow> bool" where
  "hasProbeWorker s \<longleftrightarrow> ps_probe s \<noteq> None"

subsection \<open>Interleaving\<close>

text \<open>Any caller may join; the worker of a call without a result may finish with any result;
  a caller in the \<open>select\<close> takes whichever of the two ready cases comes first.\<close>

inductive probe_step :: "probe_state \<Rightarrow> probe_state \<Rightarrow> bool" where
  join: "probe_step s (snd (joinProbe s))"
| finish: "i < length (ps_calls s) \<Longrightarrow> pc_result (call_at s i) = None \<Longrightarrow> probe_step s (runProbe i r s)"
| take_result: "i \<in> set (ps_waiting s) \<Longrightarrow> pc_result (call_at s i) \<noteq> None \<Longrightarrow> probe_step s (snd (takeResult i s))"
| give_up: "i \<in> set (ps_waiting s) \<Longrightarrow> probe_step s (releaseProbeWaiter i s)"

inductive probe_reachable :: "probe_state \<Rightarrow> bool" where
  start: "probe_reachable no_probe"
| step: "probe_reachable s \<Longrightarrow> probe_step s t \<Longrightarrow> probe_reachable t"

subsection \<open>The invariant\<close>

text \<open>Where the session of call \<open>i\<close> is: delivered, closed, or still owed to a waiter.\<close>

definition call_okP :: "probe_call \<Rightarrow> bool \<Rightarrow> nat \<Rightarrow> nat \<Rightarrow> nat \<Rightarrow> bool" where
  "call_okP p current w d cl \<longleftrightarrow>
     pc_waiters p = int w \<and>
     (case pc_result p of
        None \<Rightarrow> current \<and> \<not> pc_claimed p \<and> d = 0 \<and> cl = 0
      | Some (Inl e) \<Rightarrow> \<not> current \<and> d = 0 \<and> cl = 0
      | Some (Inr session) \<Rightarrow> \<not> current \<and>
          (if pc_claimed p then d + cl = 1 else d = 0 \<and> (if w = 0 then cl = 1 else cl = 0)))"

definition call_ok :: "probe_state \<Rightarrow> nat \<Rightarrow> bool" where
  "call_ok s i \<longleftrightarrow> call_okP (call_at s i) (ps_probe s = Some i) (count_list (ps_waiting s) i)
     (count_list (ps_delivered s) i) (count_list (ps_closed s) i)"

definition refs_ok :: "probe_state \<Rightarrow> bool" where
  "refs_ok s \<longleftrightarrow> set (ps_waiting s) \<union> set (ps_delivered s) \<union> set (ps_closed s) \<union> set_option (ps_probe s)
     \<subseteq> {..<length (ps_calls s)}"

definition probe_inv :: "probe_state \<Rightarrow> bool" where
  "probe_inv s \<longleftrightarrow> (\<forall>i<length (ps_calls s). call_ok s i) \<and> refs_ok s"

lemma call_okI:
  "probe_inv s \<Longrightarrow> i < length (ps_calls s) \<Longrightarrow>
     call_okP (call_at s i) (ps_probe s = Some i) (count_list (ps_waiting s) i)
       (count_list (ps_delivered s) i) (count_list (ps_closed s) i)"
  by (simp add: probe_inv_def call_ok_def)

text \<open>A section of call \<open>i\<close> leaves the other calls alone.\<close>

lemma probe_inv_update:
  assumes "probe_inv s" and "i < length (ps_calls s)" and "ps_calls t = (ps_calls s)[i := p]" and "refs_ok t"
    and "\<And>j. j \<noteq> i \<Longrightarrow> count_list (ps_waiting t) j = count_list (ps_waiting s) j \<and>
      count_list (ps_delivered t) j = count_list (ps_delivered s) j \<and>
      count_list (ps_closed t) j = count_list (ps_closed s) j \<and> (ps_probe t = Some j) = (ps_probe s = Some j)"
    and "call_okP p (ps_probe t = Some i) (count_list (ps_waiting t) i) (count_list (ps_delivered t) i)
      (count_list (ps_closed t) i)"
  shows "probe_inv t"
proof -
  have "call_ok t j" if "j < length (ps_calls t)" for j
  proof (cases "j = i")
    case True
    with assms(2,3,6) show ?thesis by (simp add: call_ok_def)
  next
    case False
    from that assms(3) have "j < length (ps_calls s)" by simp
    from call_okI [OF assms(1) this] assms(5) [OF False] False assms(3) show ?thesis by (simp add: call_ok_def)
  qed
  with assms(4) show ?thesis by (simp add: probe_inv_def)
qed

lemma count_remove1: "count_list (remove1 i xs) j = (if j = i then count_list xs i - 1 else count_list xs j)"
  by (induction xs) auto

lemma count_pos: "i \<in> set xs \<Longrightarrow> 0 < count_list xs i"
  by (induction xs) auto

lemma forget_probe_frame [simp]:
  "ps_calls (forget_probe i s) = ps_calls s" "ps_waiting (forget_probe i s) = ps_waiting s"
  "ps_delivered (forget_probe i s) = ps_delivered s" "ps_closed (forget_probe i s) = ps_closed s"
  by (simp_all add: forget_probe_def)

lemma forget_probe_probe: "ps_probe (forget_probe i s) = (if ps_probe s = Some i then None else ps_probe s)"
  by (simp add: forget_probe_def)

lemma set_call_frame [simp]:
  "ps_calls (set_call i p s) = (ps_calls s)[i := p]" "ps_waiting (set_call i p s) = ps_waiting s"
  "ps_delivered (set_call i p s) = ps_delivered s" "ps_closed (set_call i p s) = ps_closed s"
  "ps_probe (set_call i p s) = ps_probe s"
  by (simp_all add: set_call_def)

lemma refs_okD:
  "refs_ok s \<Longrightarrow> i \<in> set (ps_waiting s) \<Longrightarrow> i < length (ps_calls s)"
  "refs_ok s \<Longrightarrow> ps_probe s = Some i \<Longrightarrow> i < length (ps_calls s)"
  by (auto simp: refs_ok_def)

lemma set_remove1_le: "set (remove1 i xs) \<subseteq> set xs"
  by (rule set_remove1_subset)

lemma joinProbe_inv:
  assumes "probe_inv s"
  shows "probe_inv (snd (joinProbe s))"
proof (cases "ps_probe s")
  case None
  let ?n = "length (ps_calls s)" and ?t = "snd (joinProbe s)"
  have r: "refs_ok s" using assms by (simp add: probe_inv_def)
  then have n: "?n \<notin> set (ps_waiting s)" "?n \<notin> set (ps_delivered s)" "?n \<notin> set (ps_closed s)"
    by (auto simp: refs_ok_def)
  have z: "count_list xs k = 0" if "k \<notin> set xs" for xs :: "nat list" and k using that by (induction xs) auto
  have "call_ok ?t j" if "j < Suc ?n" for j
  proof (cases "j = ?n")
    case True
    with n show ?thesis by (simp add: joinProbe_def None Let_def call_ok_def call_okP_def z)
  next
    case False
    with that have "j < ?n" by simp
    from call_okI [OF assms this] None \<open>j < ?n\<close> False show ?thesis
      by (auto simp: joinProbe_def Let_def call_ok_def call_okP_def nth_append split: option.splits sum.splits)
  qed
  moreover have "refs_ok ?t" using r by (auto simp: joinProbe_def None Let_def refs_ok_def)
  ultimately show ?thesis by (simp add: probe_inv_def joinProbe_def None Let_def)
next
  case (Some i)
  have r: "refs_ok s" using assms by (simp add: probe_inv_def)
  then have i: "i < length (ps_calls s)" using Some by (rule refs_okD)
  show ?thesis
  proof (rule probe_inv_update [OF assms i, where p = "(call_at s i)\<lparr>pc_waiters := pc_waiters (call_at s i) + 1\<rparr>"])
    show "refs_ok (snd (joinProbe s))" using r i by (auto simp: joinProbe_def Some refs_ok_def)
  qed (use call_okI [OF assms i] Some in \<open>auto simp: joinProbe_def call_okP_def split: option.splits sum.splits\<close>)
qed

lemma runProbe_inv:
  assumes "probe_inv s" and i: "i < length (ps_calls s)" and "pc_result (call_at s i) = None"
  shows "probe_inv (runProbe i r s)"
proof (rule probe_inv_update [OF assms(1) i, where p = "(call_at s i)\<lparr>pc_result := Some r\<rparr>"])
  have "refs_ok s" using assms by (simp add: probe_inv_def)
  then show "refs_ok (runProbe i r s)"
    using i by (auto simp: runProbe_def refs_ok_def Let_def forget_probe_probe split: sum.splits)
qed (use call_okI [OF assms(1) i] assms(3) in
  \<open>auto simp: runProbe_def call_okP_def Let_def forget_probe_probe split: option.splits sum.splits if_splits\<close>)

lemma takeResult_inv:
  assumes "probe_inv s" and w: "i \<in> set (ps_waiting s)" and "pc_result (call_at s i) \<noteq> None"
  shows "probe_inv (snd (takeResult i s))"
proof -
  have r: "refs_ok s" using assms by (simp add: probe_inv_def)
  note i = refs_okD(1) [OF r w]
  note ok = call_okI [OF assms(1) i]
  obtain res where res: "pc_result (call_at s i) = Some res" using assms(3) by auto
  let ?call = "(call_at s i)\<lparr>pc_waiters := pc_waiters (call_at s i) - 1\<rparr>"
  show ?thesis
  proof (rule probe_inv_update [OF assms(1) i, where
        p = "if \<exists>x. res = Inr x \<and> \<not> pc_claimed (call_at s i) then ?call\<lparr>pc_claimed := True\<rparr> else ?call"])
    show "refs_ok (snd (takeResult i s))"
      using r i set_remove1_le [of i "ps_waiting s"]
      by (auto simp: takeResult_def refs_ok_def Let_def forget_probe_probe res split: sum.splits)
  qed (use ok res count_pos [OF w] in \<open>auto simp: takeResult_def call_okP_def Let_def forget_probe_probe count_remove1
      split: sum.splits if_splits\<close>)
qed

lemma releaseProbeWaiter_inv:
  assumes "probe_inv s" and w: "i \<in> set (ps_waiting s)"
  shows "probe_inv (releaseProbeWaiter i s)"
proof -
  have r: "refs_ok s" using assms by (simp add: probe_inv_def)
  note i = refs_okD(1) [OF r w]
  note ok = call_okI [OF assms(1) i]
  let ?call = "(call_at s i)\<lparr>pc_waiters := pc_waiters (call_at s i) - 1\<rparr>"
  show ?thesis
  proof (rule probe_inv_update [OF assms(1) i, where
        p = "if (\<exists>x. pc_result (call_at s i) = Some (Inr x)) \<and> pc_waiters ?call = 0 \<and> \<not> pc_claimed (call_at s i) then ?call\<lparr>pc_claimed := True\<rparr> else ?call"])
    show "refs_ok (releaseProbeWaiter i s)"
      using r i set_remove1_le [of i "ps_waiting s"]
      by (auto simp: releaseProbeWaiter_def refs_ok_def Let_def forget_probe_probe split: option.splits sum.splits)
  qed (use ok count_pos [OF w] in \<open>auto simp: releaseProbeWaiter_def call_okP_def Let_def forget_probe_probe count_remove1
      split: option.splits sum.splits if_splits\<close>)
qed

lemma probe_step_inv: "probe_step s t \<Longrightarrow> probe_inv s \<Longrightarrow> probe_inv t"
  by (induction rule: probe_step.induct)
     (simp_all add: joinProbe_inv runProbe_inv takeResult_inv releaseProbeWaiter_inv)

lemma probe_reachable_inv: "probe_reachable s \<Longrightarrow> probe_inv s"
proof (induction rule: probe_reachable.induct)
  case start
  show ?case by (simp add: probe_inv_def refs_ok_def no_probe_def)
next
  case (step s t)
  then show ?case by (blast intro: probe_step_inv)
qed

text \<open>C14: sharing one card open among concurrent recoveries neither leaks nor duplicates the
  session. In every reachable interleaving at most one open is in flight, a session is
  handed to at most one caller, never both handed over and closed, never closed twice; and
  once a call has its result and no caller waits on it any more, its session has been handed
  over or closed.\<close>

theorem probe_session_owned_once:
  assumes "probe_reachable s" and "i < length (ps_calls s)"
  shows "count_list (ps_delivered s) i + count_list (ps_closed s) i \<le> 1 \<and>
    (pc_result (call_at s i) = None \<longleftrightarrow> ps_probe s = Some i) \<and>
    (\<forall>session. pc_result (call_at s i) = Some (Inr session) \<and> i \<notin> set (ps_waiting s) \<longrightarrow>
       count_list (ps_delivered s) i + count_list (ps_closed s) i = 1) \<and>
    (\<forall>e. pc_result (call_at s i) = Some (Inl e) \<longrightarrow> i \<notin> set (ps_delivered s) \<union> set (ps_closed s))"
proof -
  note ok = call_okI [OF probe_reachable_inv [OF assms(1)] assms(2)]
  show ?thesis
  proof (cases "pc_result (call_at s i)")
    case None
    with ok show ?thesis by (simp add: call_okP_def)
  next
    case (Some r)
    show ?thesis
    proof (cases r)
      case (Inl e)
      with ok Some show ?thesis by (simp add: call_okP_def count_list_0_iff)
    next
      case (Inr session)
      have w: "count_list (ps_waiting s) i = 0 \<longleftrightarrow> i \<notin> set (ps_waiting s)" by (rule count_list_0_iff)
      from ok Some Inr show ?thesis
        by (cases "pc_claimed (call_at s i)"; cases "i \<in> set (ps_waiting s)") (simp_all add: call_okP_def w)
    qed
  qed
qed

theorem probe_session_owned_once_witness:
  "\<exists>s session. probe_reachable s \<and> pc_result (call_at s 0) = Some (Inr session) \<and>
     count_list (ps_delivered s) 0 + count_list (ps_closed s) 0 = 1"
proof -
  define session :: open_session where
    "session = \<lparr>os_id = 0, os_card = \<lparr>cd_serial = Inr 7, cd_cert = Inr demo_cert, cd_retries = Inr 3, cd_verify = (\<lambda>_. None),
       cd_key = None, cd_is_signer = True, cd_sign = Inr\<rparr>, os_serial = 7\<rparr>"
  define s1 where "s1 = snd (joinProbe no_probe)"
  define s2 where "s2 = releaseProbeWaiter 0 s1"
  define s3 where "s3 = runProbe 0 (Inr session) s2"
  have s1: "ps_calls s1 = [\<lparr>pc_result = None, pc_claimed = False, pc_waiters = 1\<rparr>]" "ps_waiting s1 = [0]" "ps_probe s1 = Some 0"
    by (simp_all add: s1_def joinProbe_def no_probe_def Let_def)
  have s2: "ps_calls s2 = [\<lparr>pc_result = None, pc_claimed = False, pc_waiters = 0\<rparr>]" "ps_waiting s2 = []" "ps_probe s2 = Some 0"
    by (simp_all add: s2_def releaseProbeWaiter_def s1 Let_def)
  have s3: "ps_calls s3 = [\<lparr>pc_result = Some (Inr session), pc_claimed = False, pc_waiters = 0\<rparr>]" "ps_waiting s3 = []"
    by (simp_all add: s3_def runProbe_def s2 Let_def)
  have "probe_reachable s1" unfolding s1_def by (rule probe_reachable.step [OF probe_reachable.start probe_step.join])
  then have "probe_reachable s2" unfolding s2_def by (rule probe_reachable.step) (rule probe_step.give_up, simp add: s1)
  then have "probe_reachable s3" unfolding s3_def by (rule probe_reachable.step) (rule probe_step.finish, simp_all add: s2)
  moreover have "0 < length (ps_calls s3)" by (simp add: s3(1))
  note p = probe_session_owned_once [OF \<open>probe_reachable s3\<close> this, THEN conjunct2, THEN conjunct2, THEN conjunct1,
      THEN spec, of session]
  have r: "pc_result (call_at s3 0) = Some (Inr session)" "0 \<notin> set (ps_waiting s3)" by (simp_all add: s3)
  with p have "count_list (ps_delivered s3) 0 + count_list (ps_closed s3) 0 = 1" by blast
  ultimately show ?thesis using r(1) by blast
qed

end
