(* ===== verification/Card_Lease.thy ===== *)
theory Card_Lease
  imports Signer
begin

text \<open>
  The cooperative smart-card lease (\<open>cardlease/client.go\<close>): connecting to zkad within a budget,
  one JSON exchange, and the connection that is the lease. What the dialer, the connection
  and the clock answer is the environment; the connections opened and closed are recorded.
  The contexts' cancellation hooks only close the connection and are not modelled.
\<close>

definition lease_protocol :: int where [go_eval]: "lease_protocol = 1"
definition dialRetryBudget :: duration where [go_eval]: "dialRetryBudget = 2 * second"

subsection \<open>Dialing\<close>

record dial_round =
  dr_ctx :: "gerror option"
  dr_now :: gotime
  dr_dial :: "gerror option"
  dr_after :: gotime
  dr_wait_now :: gotime
  dr_done :: "gerror option"

definition dial_wait :: "gotime \<Rightarrow> dial_round \<Rightarrow> duration" where
  "dial_wait deadline r =
     (let remaining = time_sub deadline (dr_wait_now r)
      in if 100 * millisecond > remaining then remaining else 100 * millisecond)"

text \<open>\<open>None\<close>: the loop has not ended within the rounds given; \<open>Some None\<close>: connected.\<close>

fun dial_loop :: "gotime \<Rightarrow> gerror option \<Rightarrow> dial_round list \<Rightarrow> gerror option option" where
  "dial_loop deadline lastErr [] = None"
| "dial_loop deadline lastErr (r # rs) =
     (case dr_ctx r of
        Some e \<Rightarrow> Some (Some e)
      | None \<Rightarrow>
          if time_sub deadline (dr_now r) \<le> 0
          then Some (Some (LeaseUnavailable (case lastErr of None \<Rightarrow> DeadlineExceeded | Some e \<Rightarrow> e)))
          else case dr_dial r of
              None \<Rightarrow> Some None
            | Some e \<Rightarrow>
                if \<not> dr_after r < deadline then Some (Some (LeaseUnavailable e))
                else case dr_done r of
                    Some e' \<Rightarrow> Some (Some e')
                  | None \<Rightarrow> dial_loop deadline (Some e) rs)"

text \<open>The earlier of a computed deadline and the caller's own.\<close>

definition sooner :: "gotime option \<Rightarrow> gotime \<Rightarrow> gotime" where
  "sooner caller deadline = (case caller of Some d \<Rightarrow> if d < deadline then d else deadline | None \<Rightarrow> deadline)"

definition dialLease :: "gotime option \<Rightarrow> gotime \<Rightarrow> duration \<Rightarrow> dial_round list \<Rightarrow> gerror option option" where
  "dialLease caller now budget rounds = dial_loop (sooner caller (time_add now budget)) None rounds"

subsection \<open>The exchange\<close>

record lease_reply =
  lr_version :: int
  lr_ok :: bool
  lr_error :: string

datatype lease_event = LeaseOpened | LeaseClosed

record lease_env =
  le_started :: gotime
  le_caller :: "gotime option"
  le_now :: gotime
  le_ctx :: "gerror option"
  le_dial_now :: gotime
  le_rounds :: "dial_round list"
  le_bound :: "gerror option"
  le_encode :: "gerror option"
  le_reply :: "lease_reply res"
  le_clear :: "gerror option"

definition exchange_deadline :: "duration \<Rightarrow> lease_env \<Rightarrow> gotime" where
  "exchange_deadline acquireBudget env =
     (let budget = (if acquireBudget \<le> 0 \<or> acquireBudget > dialRetryBudget then dialRetryBudget else acquireBudget)
      in sooner (le_caller env) (time_add (le_started env) budget))"

definition dial_budget :: "duration \<Rightarrow> duration" where
  "dial_budget available =
     (let exchangeReserve = available div 4;
          exchangeReserve' = (if exchangeReserve > 250 * millisecond then 250 * millisecond else exchangeReserve)
      in available - exchangeReserve')"

text \<open>The protocol over an open connection.\<close>

definition lease_exchange :: "lease_env \<Rightarrow> gerror option" where
  "lease_exchange env =
     (case le_bound env of
        Some e \<Rightarrow> Some (ErrWrap ''bound zkad smart-card lease exchange: '' e)
      | None \<Rightarrow>
     (case le_encode env of
        Some e \<Rightarrow> Some e
      | None \<Rightarrow>
     (case le_reply env of
        Inl e \<Rightarrow> Some (ErrWrap ''read zkad smart-card lease response: '' e)
      | Inr reply \<Rightarrow>
          if lr_version reply \<noteq> lease_protocol \<or> \<not> lr_ok reply
          then Some (ErrText (if lr_error reply = [] then ''incompatible smart-card lease response'' else lr_error reply))
          else (case le_clear env of
              Some e \<Rightarrow> Some (ErrWrap ''clear zkad smart-card lease deadline: '' e)
            | None \<Rightarrow> None))))"

text \<open>\<open>Acquire\<close>: the error, if any, and what happened to the connection; an acquired lease is the
  connection left open, which the returned release function closes once.\<close>

definition lease_Acquire :: "string \<Rightarrow> string \<Rightarrow> duration \<Rightarrow> lease_env \<Rightarrow> (gerror option \<times> lease_event list) option" where
  "lease_Acquire socket operation acquireBudget env =
     (if socket = [] \<or> operation = []
      then Some (Some (ErrText ''smart-card lease socket and operation are required''), [])
      else
        let available = time_sub (exchange_deadline acquireBudget env) (le_now env) in
        if available \<le> 0
        then Some (Some (case le_ctx env of Some e \<Rightarrow> e | None \<Rightarrow> DeadlineExceeded), [])
        else case dialLease (le_caller env) (le_dial_now env) (dial_budget available) (le_rounds env) of
            None \<Rightarrow> None
          | Some (Some e) \<Rightarrow> Some (Some e, [])
          | Some None \<Rightarrow>
              (case lease_exchange env of
                 Some e \<Rightarrow> Some (Some e, [LeaseOpened, LeaseClosed])
               | None \<Rightarrow> Some (None, [LeaseOpened])))"

definition lease_release :: "lease_event list \<Rightarrow> lease_event list" where
  "lease_release trace = (if LeaseClosed \<in> set trace then trace else trace @ [LeaseClosed])"

subsection \<open>Properties\<close>

text \<open>What the operating system and the JSON library report is never zkad's own
  unavailability error.\<close>

definition foreign :: "gerror \<Rightarrow> bool" where
  "foreign e \<longleftrightarrow> errors_as node_lease e = None"

definition foreign_env :: "lease_env \<Rightarrow> bool" where
  "foreign_env env \<longleftrightarrow> pred_option foreign (le_bound env) \<and> pred_option foreign (le_encode env) \<and>
     pred_option foreign (le_clear env) \<and> (case le_reply env of Inl e \<Rightarrow> foreign e | Inr _ \<Rightarrow> True)"

lemma foreign_wrap [simp]: "foreign (ErrWrap s e) = foreign e" "foreign (ErrText s)"
  by (simp_all add: foreign_def errors_as_def)

lemma lease_exchange_foreign: "foreign_env env \<Longrightarrow> lease_exchange env = Some e \<Longrightarrow> foreign e"
  unfolding lease_exchange_def foreign_env_def by (auto split: option.splits sum.splits if_splits)

lemma lease_exchange_None:
  "lease_exchange env = None \<longleftrightarrow> le_bound env = None \<and> le_encode env = None \<and> le_clear env = None \<and>
     (\<exists>reply. le_reply env = Inr reply \<and> lr_version reply = lease_protocol \<and> lr_ok reply)"
  unfolding lease_exchange_def by (auto split: option.splits sum.splits if_splits)

text \<open>C31: the lease fails closed. A lease is held only after zkad answered with the protocol
  version and an explicit approval; every failure after the connection was made closes it;
  and a direct-local operation goes on without a lease only when no connection to zkad was
  made at all, while an operation that requires the lease never does.\<close>

theorem lease_fail_closed:
  assumes "foreign_env env" and "lease_Acquire socket operation budget env = Some (err, trace)"
  shows "(err = None \<longleftrightarrow> trace = [LeaseOpened]) \<and>
    (trace = [LeaseOpened] \<longrightarrow> (\<exists>reply. le_reply env = Inr reply \<and> lr_version reply = 1 \<and> lr_ok reply)) \<and>
    (err \<noteq> None \<longrightarrow> trace = [] \<or> trace = [LeaseOpened, LeaseClosed]) \<and> LeaseClosed \<in> set (lease_release trace) \<and>
    (err \<noteq> None \<and> acquireLease False (Some err) = None \<longrightarrow> trace = []) \<and>
    (acquireLease True (Some err) = None \<longleftrightarrow> err = None)"
proof (cases "lease_exchange env")
  case None
  with assms(2) lease_exchange_None [of env] show ?thesis
    by (auto simp: lease_Acquire_def Let_def lease_release_def acquireLease_def lease_protocol_def
        split: if_splits option.splits) metis
next
  case (Some e)
  from lease_exchange_foreign [OF assms(1) Some] have "errors_as node_lease e = None" by (simp add: foreign_def)
  with assms(2) Some show ?thesis
    by (auto simp: lease_Acquire_def Let_def lease_release_def acquireLease_def
        split: if_splits option.splits) metis
qed

text \<open>The clock: a round's readings do not go back, and the wait is slept.\<close>

fun dial_clock :: "gotime \<Rightarrow> dial_round list \<Rightarrow> bool" where
  "dial_clock deadline [] = True"
| "dial_clock deadline (r # rs) \<longleftrightarrow> clock_ok (dr_wait_now r) \<and> dr_now r \<le> dr_wait_now r \<and>
     (case rs of [] \<Rightarrow> True | r' # _ \<Rightarrow> dr_wait_now r + dial_wait deadline r \<le> dr_now r') \<and> dial_clock deadline rs"

lemma dial_loop_length:
  assumes "clock_ok deadline" and "dial_clock deadline rs"
    and "rs = r # rs'" and "deadline - dr_now r \<le> int k * (100 * millisecond)" and "Suc k < length rs"
  shows "dial_loop deadline prev rs \<noteq> None"
  using assms
proof (induction k arbitrary: r rs rs' prev)
  case 0
  have "time_sub deadline (dr_now r) \<le> 0" using 0(4) time_sub_le_iff [of 0 deadline "dr_now r"] by simp
  then show ?case using 0(3) by (simp split: option.split)
next
  case (Suc k)
  then obtain r2 rs2 where rs': "rs' = r2 # rs2" by (cases rs') auto
  have c: "dr_now r \<le> dr_wait_now r" "dr_wait_now r + dial_wait deadline r \<le> dr_now r2" "dial_clock deadline rs'"
    using Suc.prems(2,3) by (simp_all add: rs')
  have w: "dial_wait deadline r = 100 * millisecond \<or> deadline - dr_wait_now r \<le> dial_wait deadline r"
    by (auto simp: dial_wait_def Let_def time_sub_def clamp64_def min_def max_def)
  have "dial_loop deadline l rs' \<noteq> None" for l
  proof (cases "dial_wait deadline r = 100 * millisecond")
    case True
    then have "deadline - dr_now r2 \<le> int k * (100 * millisecond)" using c(1,2) Suc.prems(4) by (simp add: algebra_simps)
    then show ?thesis by (intro Suc.IH [OF Suc.prems(1) c(3) rs']) (use Suc.prems(3,5) in simp_all)
  next
    case False
    with w c(2) have "deadline - dr_now r2 \<le> 0" by simp
    then show ?thesis using time_sub_le_iff [of 0 deadline "dr_now r2"] by (simp add: rs' split: option.split)
  qed
  then show ?case using Suc.prems(3) by (simp split: option.split)
qed

text \<open>Waiting for zkad is bounded. With a budget of at most two seconds and a clock that does
  not run backwards, dialing returns within 22 attempts whatever the dialer answers, and
  leaves up to a quarter of the available time to the exchange.\<close>

lemma dial_terminates:
  assumes "clock_ok now" and "clock_ok (now + dial_budget available)" and "0 < available" and "available \<le> dialRetryBudget"
    and "dial_clock (now + dial_budget available) (r # rounds)" and "now \<le> dr_now r" and "21 \<le> length rounds"
  shows "dialLease None now (dial_budget available) (r # rounds) \<noteq> None \<and>
    0 < dial_budget available \<and> dial_budget available \<le> available \<and> 4 * (available - dial_budget available) \<le> available"
proof -
  have b: "0 < dial_budget available" "dial_budget available \<le> available" "4 * (available - dial_budget available) \<le> available"
    using assms(3) by (auto simp: dial_budget_def Let_def)
  have le: "dial_budget available \<le> 2 * second" using b(2) assms(4) by (simp add: dialRetryBudget_def)
  then have t: "time_add now (dial_budget available) = now + dial_budget available"
    using assms(1) b(1) by (intro time_add_clock) (simp_all add: dur_ok_def)
  have n: "now + dial_budget available - dr_now r \<le> int 20 * (100 * millisecond)" using le assms(6) by simp
  from dial_loop_length [OF assms(2,5) refl n] assms(7) have "dial_loop (now + dial_budget available) None (r # rounds) \<noteq> None"
    by simp
  with b show ?thesis by (simp add: dialLease_def sooner_def t)
qed

subsection \<open>Concrete runs\<close>

definition refused_round :: "gotime \<Rightarrow> dial_round" where
  "refused_round t = \<lparr>dr_ctx = None, dr_now = t, dr_dial = Some (ErrText ''refused''), dr_after = t, dr_wait_now = t, dr_done = None\<rparr>"

lemma dial_clock_refused:
  "n \<le> 30 \<Longrightarrow> dial_clock deadline (map (\<lambda>i. refused_round (second + int i * (100 * millisecond))) [j..<n])"
proof (induction "n - j" arbitrary: j)
  case (Suc d)
  then have j: "j < n" "[j..<n] = j # [Suc j..<n]" by (simp_all add: upt_conv_Cons)
  have w: "dial_wait deadline r \<le> 100 * millisecond" for r by (simp add: dial_wait_def Let_def)
  have "dial_clock deadline (map (\<lambda>i. refused_round (second + int i * (100 * millisecond))) [Suc j..<n])"
    using Suc.hyps(1) [of "Suc j"] Suc.hyps(2) Suc.prems by simp
  then show ?case
    using j Suc.prems w [of "refused_round (second + int j * (100 * millisecond))"]
    by (cases "Suc j < n") (simp_all add: upt_conv_Cons refused_round_def clock_ok_def algebra_simps)
qed simp

definition denied_lease :: lease_env where
  "denied_lease = \<lparr>le_started = second, le_caller = None, le_now = second, le_ctx = None, le_dial_now = second,
     le_rounds = [(refused_round second)\<lparr>dr_dial := None\<rparr>], le_bound = None, le_encode = None,
     le_reply = Inr \<lparr>lr_version = 1, lr_ok = False, lr_error = ''busy''\<rparr>, le_clear = None\<rparr>"

theorem lease_fail_closed_witness:
  "\<exists>e. lease_Acquire ''/s'' ''pivb-mint'' 0 denied_lease = Some (Some e, [LeaseOpened, LeaseClosed]) \<and> acquireLease False (Some (Some e)) \<noteq> None"
proof -
  have f: "foreign_env denied_lease" by (simp add: foreign_env_def denied_lease_def)
  have a: "lease_Acquire ''/s'' ''pivb-mint'' 0 denied_lease = Some (Some (ErrText ''busy''), [LeaseOpened, LeaseClosed])"
    by (simp add: lease_Acquire_def denied_lease_def exchange_deadline_def sooner_def time_add_def time_sub_def clamp64_def
        dialRetryBudget_def dialLease_def dial_budget_def refused_round_def lease_exchange_def lease_protocol_def Let_def)
  from lease_fail_closed [OF f a] a show ?thesis by auto
qed

end
