(* ===== verification/Gnupg.thy ===== *)
theory Gnupg
  imports Go_Error
begin

text \<open>
  The GnuPG commands of \<open>pivsigner/recovery.go\<close>: how the answer of \<open>gpg-connect-agent\<close> is
  classified, which arguments and environment a command is run with, the buffer that bounds
  what is kept of its output, and the operations that run commands, with their once-latches and
  every command they have run. What a command answers is a parameter of each operation; the
  diagnostic log lines are output and not modelled.
\<close>

definition maxGnuPGOutput :: int where [go_eval]: "maxGnuPGOutput = 4096"

subsection \<open>Classifying the answer\<close>

fun assuan_lines :: "string list \<Rightarrow> bool \<Rightarrow> scd_state option" where
  "assuan_lines [] hasOK = (if hasOK then Some ScdRunning else None)"
| "assuan_lines (l # ls) hasOK =
     (let line = trim_space l in
      if has_prefix ''ERR '' line then Some ScdStopped
      else assuan_lines ls (hasOK \<or> line = ''OK'' \<or> has_prefix ''OK '' line))"

definition classifyScdaemonOutput :: "string \<Rightarrow> gerror option \<Rightarrow> scd_state \<times> gerror option" where
  "classifyScdaemonOutput out runErr =
     (case runErr of
        Some e \<Rightarrow> (ScdUnknown, Some e)
      | None \<Rightarrow>
          let txt = trim_space out in
          if contains ''no gpg-agent running in this session'' (to_lower txt) then (ScdStopped, None)
          else case assuan_lines (split_on (CHR 0x0A) txt) False of
              Some st \<Rightarrow> (st, None)
            | None \<Rightarrow> (ScdUnknown, Some (ErrText ''gpg-connect-agent returned no recognizable Assuan status'')))"

definition firstLine :: "string \<Rightarrow> string" where
  "firstLine value = (case cut (CHR 0x0A) (trim_space value) of Some (line, _) \<Rightarrow> line | None \<Rightarrow> trim_space value)"

subsection \<open>Arguments and environment\<close>

record gnupg_home =
  gh_display :: string
  gh_command :: string
  gh_source :: string

text \<open>\<open>gnupghome\<close> is the environment variable, \<open>user_home\<close> what \<open>os.UserHomeDir\<close> answered, and
  \<open>joined\<close> its \<open>.gnupg\<close> directory.\<close>

definition resolvedGnuPGHome :: "string \<Rightarrow> string \<Rightarrow> string option \<Rightarrow> gnupg_home" where
  "resolvedGnuPGHome configured gnupghome joined =
     (if configured \<noteq> [] then \<lparr>gh_display = configured, gh_command = configured, gh_source = ''config''\<rparr>
      else if gnupghome \<noteq> [] then \<lparr>gh_display = gnupghome, gh_command = gnupghome, gh_source = ''environment''\<rparr>
      else case joined of
          Some d \<Rightarrow> \<lparr>gh_display = d, gh_command = [], gh_source = ''gpg-default''\<rparr>
        | None \<Rightarrow> \<lparr>gh_display = [], gh_command = [], gh_source = ''gpg-default''\<rparr>)"

definition gnupg_args :: "gnupg_home \<Rightarrow> string list \<Rightarrow> string list" where
  "gnupg_args home args = (if gh_command home \<noteq> [] then [''--homedir'', gh_command home] @ args else args)"

fun replace_items :: "string \<Rightarrow> string \<Rightarrow> bool \<Rightarrow> string list \<Rightarrow> string list" where
  "replace_items prefix value replaced [] = (if replaced then [] else [prefix @ value])"
| "replace_items prefix value replaced (item # env) =
     (if has_prefix prefix item
      then (if replaced then replace_items prefix value True env
            else (prefix @ value) # replace_items prefix value True env)
      else item # replace_items prefix value replaced env)"

definition replaceEnvironment :: "string list \<Rightarrow> string \<Rightarrow> string \<Rightarrow> string list" where
  "replaceEnvironment env name value = replace_items (name @ ''='') value False env"

subsection \<open>Bounded output\<close>

record capped_output =
  co_limit :: int
  co_data :: bytes
  co_truncated :: bool

definition capped_Write :: "bytes \<Rightarrow> capped_output \<Rightarrow> int \<times> capped_output" where
  "capped_Write p w =
     (let remaining = co_limit w - int (length (co_data w));
          w1 = (if remaining > 0 then w\<lparr>co_data := co_data w @ take (nat (min remaining (int (length p)))) p\<rparr> else w);
          w2 = (if int (length p) > remaining then w1\<lparr>co_truncated := True\<rparr> else w1)
      in (int (length p), w2))"

definition capped_bytes :: "capped_output \<Rightarrow> bytes" where
  "capped_bytes w =
     (if \<not> co_truncated w then co_data w
      else
        let marker0 = CHR 0x0A # ''[output truncated at '' @ fmt_int (co_limit w) @ '' bytes]'';
            marker = (if int (length marker0) > co_limit w then take (nat (co_limit w)) marker0 else marker0);
            out = (if int (length (co_data w) + length marker) > co_limit w
                   then take (nat (co_limit w - int (length marker))) (co_data w) else co_data w)
        in out @ marker)"

definition boundOutput :: "int \<Rightarrow> bytes list \<Rightarrow> capped_output" where
  "boundOutput limit writes = fold (\<lambda>p w. snd (capped_Write p w)) writes \<lparr>co_limit = limit, co_data = [], co_truncated = False\<rparr>"

subsection \<open>Lemmas\<close>

lemma replace_items_spec:
  "filter (\<lambda>x. \<not> has_prefix prefix x) (replace_items prefix value replaced env) = filter (\<lambda>x. \<not> has_prefix prefix x) env \<and>
   filter (has_prefix prefix) (replace_items prefix value replaced env) = (if replaced then [] else [prefix @ value])"
  by (induction env arbitrary: replaced) auto

text \<open>A command run for another GnuPG home sees exactly that home. In the replaced
  environment the variable is defined once, with the new value, whatever duplicates the
  inherited one had, and every other variable is kept, in order.\<close>

lemma replaceEnvironment_exact:
  "filter (has_prefix (name @ ''='')) (replaceEnvironment env name value) = [name @ ''='' @ value] \<and>
   filter (\<lambda>x. \<not> has_prefix (name @ ''='') x) (replaceEnvironment env name value) =
     filter (\<lambda>x. \<not> has_prefix (name @ ''='') x) env"
  by (simp add: replaceEnvironment_def replace_items_spec)

definition capped_ok :: "int \<Rightarrow> bytes \<Rightarrow> capped_output \<Rightarrow> bool" where
  "capped_ok limit all w \<longleftrightarrow> co_limit w = limit \<and> co_data w = take (nat limit) all \<and>
     (co_truncated w \<longleftrightarrow> int (length all) > limit)"

lemma capped_Write_ok:
  assumes "capped_ok limit all w" and "0 \<le> limit"
  shows "capped_ok limit (all @ p) (snd (capped_Write p w))"
proof (cases "int (length all) < limit")
  case True
  then have "nat limit - length all = nat (limit - int (length all))" by simp
  with True assms show ?thesis
    by (auto simp: capped_ok_def capped_Write_def Let_def min_def nat_le_iff take_all)
next
  case False
  then have "nat limit \<le> length all" by simp
  with False assms show ?thesis by (auto simp: capped_ok_def capped_Write_def Let_def min_def)
qed

lemma boundOutput_ok: "0 \<le> limit \<Longrightarrow> capped_ok limit (concat writes) (boundOutput limit writes)"
proof -
  assume l: "0 \<le> limit"
  have "capped_ok limit (all @ concat writes) (fold (\<lambda>p w. snd (capped_Write p w)) writes w)" if "capped_ok limit all w" for all w
    using that
  proof (induction writes arbitrary: all w)
    case (Cons p writes)
    from Cons.IH [OF capped_Write_ok [OF Cons.prems l]] show ?case by simp
  qed simp
  from this [of "[]" "\<lparr>co_limit = limit, co_data = [], co_truncated = False\<rparr>"] l show ?thesis
    by (simp add: boundOutput_def capped_ok_def)
qed

text \<open>A verbose child cannot grow the daemon. What is kept of any sequence of writes is at
  most the limit, and is the whole output, unmarked, when the output fits.\<close>

lemma boundOutput_bounded:
  assumes "0 \<le> limit"
  shows "int (length (capped_bytes (boundOutput limit writes))) \<le> limit \<and>
    (int (length (concat writes)) \<le> limit \<longrightarrow> capped_bytes (boundOutput limit writes) = concat writes)"
proof -
  from boundOutput_ok [OF assms, of writes] have w: "co_limit (boundOutput limit writes) = limit"
    "co_data (boundOutput limit writes) = take (nat limit) (concat writes)"
    "co_truncated (boundOutput limit writes) \<longleftrightarrow> int (length (concat writes)) > limit"
    by (simp_all add: capped_ok_def)
  show ?thesis
  proof (cases "int (length (concat writes)) > limit")
    case False
    then have "length (concat writes) \<le> nat limit" by simp
    with False w show ?thesis by (simp add: capped_bytes_def)
  next
    case True
    have "int (length (capped_bytes (boundOutput limit writes))) \<le> limit"
      using True w(1,3) w(2) assms by (cases "limit = 0") (simp_all add: capped_bytes_def Let_def)
    with True show ?thesis by simp
  qed
qed

subsection \<open>Running the commands\<close>

text \<open>The host the daemon runs on: the configured home, the process environment and the \<open>.gnupg\<close>
  directory of the user; \<open>os.Getenv\<close> reads the first entry of a name. \<open>gp_look\<close> and \<open>gp_run\<close>
  are what \<open>exec.LookPath\<close> and the child answer during one operation, which may differ from
  one operation to the next.\<close>

record gnupg_host =
  gn_configured :: string
  gn_environ :: "string list"
  gn_joined :: "string option"

record gnupg_cmd =
  gc_path :: string
  gc_args :: "string list"
  gc_environ :: "string list"

record gnupg_env =
  gp_look :: "string \<Rightarrow> string res"
  gp_run :: "gnupg_cmd \<Rightarrow> bytes list \<times> gerror option"

text \<open>The three \<open>sync.Once\<close> latches and the commands run so far.\<close>

record gnupg_state =
  gs_target :: bool
  gs_gpgconf :: bool
  gs_connect :: bool
  gs_ran :: "gnupg_cmd list"

definition environ_value :: "string list \<Rightarrow> string \<Rightarrow> string" where
  "environ_value environ name =
     (case filter (has_prefix (name @ ''='')) environ of [] \<Rightarrow> [] | item # _ \<Rightarrow> drop (length name + 1) item)"

definition host_home :: "gnupg_host \<Rightarrow> gnupg_home" where
  "host_home host = resolvedGnuPGHome (gn_configured host) (environ_value (gn_environ host) ''GNUPGHOME'') (gn_joined host)"

definition execute :: "gnupg_host \<Rightarrow> gnupg_env \<Rightarrow> string \<Rightarrow> string list \<Rightarrow> string \<Rightarrow> gnupg_state \<Rightarrow>
    (bytes \<times> gerror option) \<times> gnupg_state" where
  "execute host env path args home st =
     (let environ = (if home \<noteq> [] then replaceEnvironment (gn_environ host) ''GNUPGHOME'' home else gn_environ host);
          cmd = \<lparr>gc_path = path, gc_args = args, gc_environ = environ\<rparr>;
          (writes, err) = gp_run env cmd
      in ((capped_bytes (boundOutput maxGnuPGOutput writes), err), st\<lparr>gs_ran := gs_ran st @ [cmd]\<rparr>))"

text \<open>\<open>logGnuPGDetailsContext\<close>: each latch is set before its body runs, so a failure is not
  repeated.\<close>

definition log_target :: "gnupg_host \<Rightarrow> gnupg_env \<Rightarrow> gnupg_state \<Rightarrow> gnupg_state" where
  "log_target host env st =
     (if gs_target st then st
      else
        let st1 = st\<lparr>gs_target := True\<rparr>; home = host_home host in
        case gp_look env ''gpgconf'' of
          Inl e \<Rightarrow> st1
        | Inr path \<Rightarrow> snd (execute host env path (gnupg_args home [''--list-dirs'', ''agent-socket'']) (gh_command home) st1))"

definition log_version :: "gnupg_host \<Rightarrow> gnupg_env \<Rightarrow> string \<Rightarrow> string \<Rightarrow> gnupg_state \<Rightarrow> gnupg_state" where
  "log_version host env program path st =
     (if program = ''gpg-connect-agent''
      then (if gs_connect st then st
            else snd (execute host env path [''--version''] (gh_command (host_home host)) (st\<lparr>gs_connect := True\<rparr>)))
      else (if gs_gpgconf st then st
            else snd (execute host env path [''--version''] (gh_command (host_home host)) (st\<lparr>gs_gpgconf := True\<rparr>))))"

definition logGnuPGDetails :: "gnupg_host \<Rightarrow> gnupg_env \<Rightarrow> string \<Rightarrow> string \<Rightarrow> gnupg_state \<Rightarrow> gnupg_state" where
  "logGnuPGDetails host env program path st = log_version host env program path (log_target host env st)"

definition prime_one :: "gnupg_host \<Rightarrow> gnupg_env \<Rightarrow> string \<Rightarrow> gnupg_state \<Rightarrow> gnupg_state" where
  "prime_one host env program st =
     (case gp_look env program of Inl e \<Rightarrow> st | Inr path \<Rightarrow> logGnuPGDetails host env program path st)"

definition PrimeGnuPGDiagnostics :: "gnupg_host \<Rightarrow> gnupg_env \<Rightarrow> gnupg_state \<Rightarrow> gnupg_state" where
  "PrimeGnuPGDiagnostics host env st = fold (prime_one host env) [''gpg-connect-agent'', ''gpgconf''] st"

definition runGnuPG :: "gnupg_host \<Rightarrow> gnupg_env \<Rightarrow> string \<Rightarrow> string list \<Rightarrow> gnupg_state \<Rightarrow> (bytes \<times> gerror option) \<times> gnupg_state" where
  "runGnuPG host env program args st =
     (case gp_look env program of
        Inl e \<Rightarrow> (([], Some e), st)
      | Inr path \<Rightarrow>
          let home = host_home host; (r, st1) = execute host env path (gnupg_args home args) (gh_command home) st
          in (r, logGnuPGDetails host env program path st1))"

definition inspectScdaemon :: "gnupg_host \<Rightarrow> gnupg_env \<Rightarrow> gnupg_state \<Rightarrow> (scd_state \<times> string \<times> gerror option) \<times> gnupg_state" where
  "inspectScdaemon host env st =
     (let ((out, err), st1) = runGnuPG host env ''gpg-connect-agent'' [''--no-autostart'', ''GETINFO scd_running'', ''/bye''] st;
          (state, classify_err) = classifyScdaemonOutput out err
      in ((state, firstLine out, classify_err), st1))"

definition handoffScdaemon :: "gnupg_host \<Rightarrow> gnupg_env \<Rightarrow> gnupg_state \<Rightarrow> gerror option \<times> gnupg_state" where
  "handoffScdaemon host env st =
     (let ((out, err), st1) = runGnuPG host env ''gpgconf'' [''--kill'', ''scdaemon''] st in (err, st1))"

datatype gnupg_op = Prime | Inspect | Handoff

fun gnupg_step :: "gnupg_host \<Rightarrow> gnupg_op \<times> gnupg_env \<Rightarrow> gnupg_state \<Rightarrow> gnupg_state" where
  "gnupg_step host (Prime, env) st = PrimeGnuPGDiagnostics host env st"
| "gnupg_step host (Inspect, env) st = snd (inspectScdaemon host env st)"
| "gnupg_step host (Handoff, env) st = snd (handoffScdaemon host env st)"

definition gnupg_start :: gnupg_state where
  "gnupg_start = \<lparr>gs_target = False, gs_gpgconf = False, gs_connect = False, gs_ran = []\<rparr>"

subsection \<open>What the commands can be\<close>

definition target_args :: "gnupg_host \<Rightarrow> string list" where
  "target_args host = gnupg_args (host_home host) [''--list-dirs'', ''agent-socket'']"

definition inspect_args :: "gnupg_host \<Rightarrow> string list" where
  "inspect_args host = gnupg_args (host_home host) [''--no-autostart'', ''GETINFO scd_running'', ''/bye'']"

definition kill_args :: "gnupg_host \<Rightarrow> string list" where
  "kill_args host = gnupg_args (host_home host) [''--kill'', ''scdaemon'']"

lemma gnupg_args_distinct [simp]:
  "target_args host \<noteq> inspect_args host" "target_args host \<noteq> kill_args host" "inspect_args host \<noteq> kill_args host"
  "target_args host \<noteq> [''--version'']" "inspect_args host \<noteq> [''--version'']" "kill_args host \<noteq> [''--version'']"
  by (simp_all add: target_args_def inspect_args_def kill_args_def gnupg_args_def)

declare gnupg_args_distinct [symmetric, simp]

text \<open>A command of the daemon: one of the four, for the resolved home and no other, in an
  environment that differs from the daemon's in that variable at most.\<close>

definition gnupg_cmd_ok :: "gnupg_host \<Rightarrow> gnupg_cmd \<Rightarrow> bool" where
  "gnupg_cmd_ok host cmd \<longleftrightarrow>
     gc_args cmd \<in> {[''--version''], target_args host, inspect_args host, kill_args host} \<and>
     (let home = gh_command (host_home host); own = has_prefix ''GNUPGHOME='' in
      filter (\<lambda>x. \<not> own x) (gc_environ cmd) = filter (\<lambda>x. \<not> own x) (gn_environ host) \<and>
      (if home = [] then gc_environ cmd = gn_environ host else filter own (gc_environ cmd) = [''GNUPGHOME='' @ home]))"

definition runs :: "string list \<Rightarrow> gnupg_state \<Rightarrow> nat" where
  "runs args st = length (filter (\<lambda>cmd. gc_args cmd = args) (gs_ran st))"

definition gnupg_inv :: "gnupg_host \<Rightarrow> nat \<Rightarrow> gnupg_state \<Rightarrow> bool" where
  "gnupg_inv host kills st \<longleftrightarrow> list_all (gnupg_cmd_ok host) (gs_ran st) \<and> runs (target_args host) st \<le> of_bool (gs_target st) \<and>
     runs [''--version''] st \<le> of_bool (gs_gpgconf st) + of_bool (gs_connect st) \<and> runs (kill_args host) st \<le> kills"

lemma runs_update [simp]:
  "runs args (st\<lparr>gs_target := b\<rparr>) = runs args st" "runs args (st\<lparr>gs_gpgconf := b\<rparr>) = runs args st"
  "runs args (st\<lparr>gs_connect := b\<rparr>) = runs args st"
  by (simp_all add: runs_def)

lemma execute_runs:
  assumes "args \<in> {[''--version''], target_args host, inspect_args host, kill_args host}"
    and "list_all (gnupg_cmd_ok host) (gs_ran st)"
  shows "list_all (gnupg_cmd_ok host) (gs_ran (snd (execute host env path args (gh_command (host_home host)) st)))"
    and "runs a (snd (execute host env path args (gh_command (host_home host)) st)) = runs a st + of_bool (a = args)"
    and "gs_target (snd (execute host env path args (gh_command (host_home host)) st)) = gs_target st"
    and "gs_gpgconf (snd (execute host env path args (gh_command (host_home host)) st)) = gs_gpgconf st"
    and "gs_connect (snd (execute host env path args (gh_command (host_home host)) st)) = gs_connect st"
  using assms replaceEnvironment_exact [of "''GNUPGHOME''" "gn_environ host" "gh_command (host_home host)"]
  by (auto simp: execute_def case_prod_unfold Let_def gnupg_cmd_ok_def runs_def)

lemma log_target_inv: "gnupg_inv host n st \<Longrightarrow> gnupg_inv host n (log_target host env st)"
  using execute_runs [where args = "target_args host" and host = host and st = "st\<lparr>gs_target := True\<rparr>" and env = env]
  by (auto simp: log_target_def gnupg_inv_def target_args_def [symmetric] Let_def split: sum.splits)

lemma log_version_inv: "gnupg_inv host n st \<Longrightarrow> gnupg_inv host n (log_version host env program path st)"
  using execute_runs [where args = "[''--version'']" and host = host and st = "st\<lparr>gs_connect := True\<rparr>" and env = env and path = path]
    execute_runs [where args = "[''--version'']" and host = host and st = "st\<lparr>gs_gpgconf := True\<rparr>" and env = env and path = path]
  by (auto simp: log_version_def gnupg_inv_def)

lemma details_inv: "gnupg_inv host n st \<Longrightarrow> gnupg_inv host n (logGnuPGDetails host env program path st)"
  by (simp add: logGnuPGDetails_def log_version_inv log_target_inv)

lemma gnupg_step_inv:
  "gnupg_inv host n st \<Longrightarrow> gnupg_inv host (n + of_bool (fst x = Handoff)) (gnupg_step host x st)"
proof (induction x st rule: gnupg_step.induct)
  case (1 host env st)
  have "gnupg_inv host n (prime_one host env program st)" if "gnupg_inv host n st" for program st
    using that by (simp add: prime_one_def details_inv split: sum.split)
  with 1 show ?case by (simp add: PrimeGnuPGDiagnostics_def)
next
  case (2 host env st)
  have "gnupg_inv host n (snd (execute host env path (inspect_args host) (gh_command (host_home host)) st))" for path
    using 2 execute_runs [where args = "inspect_args host" and host = host and st = "st" and env = env and path = path] by (simp add: gnupg_inv_def)
  with 2 show ?case
    by (simp add: inspectScdaemon_def runGnuPG_def case_prod_unfold Let_def inspect_args_def [symmetric] details_inv split: sum.split)
next
  case (3 host env st)
  have "gnupg_inv host (Suc n) (snd (execute host env path (kill_args host) (gh_command (host_home host)) st))" for path
    using 3 execute_runs [where args = "kill_args host" and host = host and st = "st" and env = env and path = path] by (simp add: gnupg_inv_def)
  moreover have "gnupg_inv host (Suc n) st" using 3 by (simp add: gnupg_inv_def)
  ultimately show ?case
    by (simp add: handoffScdaemon_def runGnuPG_def case_prod_unfold Let_def kill_args_def [symmetric] details_inv split: sum.split)
qed

lemma gnupg_steps_inv:
  "gnupg_inv host n st \<Longrightarrow> gnupg_inv host (n + length (filter (\<lambda>x. fst x = Handoff) ops)) (fold (gnupg_step host) ops st)"
proof (induction ops arbitrary: n st)
  case (Cons x ops)
  from Cons.IH [OF gnupg_step_inv [OF Cons.prems, of x]] show ?case by (cases "fst x = Handoff") simp_all
qed simp


end
